(* ===== verification/Prelude.thy ===== *)
theory Prelude
  imports Main "HOL-Library.Word" "HOL-Library.Sublist"
begin

text \<open>
  What the components share: the exceptions of the C++ code as values
  (\<^verbatim>\<open>utils/exception.hpp\<close> and the standard exceptions the code throws or
  catches), results as sums, the few operations of \<^verbatim>\<open>std::string\<close> and
  \<^verbatim>\<open>std::to_string\<close> the code uses, and the collections of lemmas that carry the
  proofs of the other theories.

  A \<^verbatim>\<open>std::string\<close>, \<^verbatim>\<open>std::string_view\<close> or \<^verbatim>\<open>const char*\<close> is a
  \<open>string\<close>, a list of 8-bit characters. \<^verbatim>\<open>starts_with\<close> and \<^verbatim>\<open>ends_with\<close>
  are \<open>prefix\<close> and \<open>suffix\<close> of HOL-Library, and \<^verbatim>\<open>a.find(b) != npos\<close> is
  \<open>sublist b a\<close>.
\<close>

named_theorems result_simps "evaluation of results"
named_theorems word_inj "injectivity of word operations"
named_theorems dec_simps "decimal digits"

section \<open>Exceptions and results\<close>

text \<open>
  \<open>Panic m\<close> and \<open>Assertion m\<close> are \<^verbatim>\<open>deep_jit::exception::Exception\<close> as thrown by
  \<^verbatim>\<open>DJ_PANIC\<close> and \<^verbatim>\<open>DJ_HOST_ASSERT\<close>, with the formatted text \<open>m\<close> and without
  the source position and the backtrace that the constructor adds to it. \<open>Std_exception m\<close> is any other
  exception of the standard library, with its text.
\<close>

datatype exn =
    Panic string
  | Assertion string
  | IOTimeoutError
  | Invalid_argument string
  | Filesystem_error string
  | Std_exception string

type_synonym 'a result = "exn + 'a"

fun what :: "exn \<Rightarrow> string" where
  "what (Panic m) = m"
| "what (Assertion m) = m"
| "what IOTimeoutError = ''I/O task timed out''"
| "what (Invalid_argument m) = m"
| "what (Filesystem_error m) = m"
| "what (Std_exception m) = m"

definition bind_result :: "'a result \<Rightarrow> ('a \<Rightarrow> 'b result) \<Rightarrow> 'b result" where
  "bind_result r f = (case r of Inl e \<Rightarrow> Inl e | Inr x \<Rightarrow> f x)"

definition dj_host_assert :: "bool \<Rightarrow> string \<Rightarrow> unit result" where
  "dj_host_assert c m = (if c then Inr () else Inl (Assertion m))"

lemma bind_result_simps [simp, result_simps]:
  "bind_result (Inl e) f = Inl e"
  "bind_result (Inr x) f = f x"
  by (simp_all add: bind_result_def)

lemma dj_host_assert_simps [simp, result_simps]:
  "c \<Longrightarrow> dj_host_assert c m = Inr ()"
  "\<not> c \<Longrightarrow> dj_host_assert c m = Inl (Assertion m)"
  by (simp_all add: dj_host_assert_def)

lemma bind_result_Inr_iff [result_simps]:
  "bind_result r f = Inr y \<longleftrightarrow> (\<exists>x. r = Inr x \<and> f x = Inr y)"
  by (cases r) auto

lemma bind_result_Inl_iff [result_simps]:
  "bind_result r f = Inl e \<longleftrightarrow> r = Inl e \<or> (\<exists>x. r = Inr x \<and> f x = Inl e)"
  by (cases r) auto

lemma dj_host_assert_Inr_iff [simp, result_simps]:
  "dj_host_assert c m = Inr u \<longleftrightarrow> c"
  by (simp add: dj_host_assert_def)

lemma dj_host_assert_Inl_iff [simp, result_simps]:
  "dj_host_assert c m = Inl e \<longleftrightarrow> \<not> c \<and> e = Assertion m"
  by (auto simp: dj_host_assert_def)

lemma bind_assert_Inr_iff [result_simps]:
  "bind_result (dj_host_assert c m) f = Inr y \<longleftrightarrow> c \<and> f () = Inr y"
  by (cases c) auto

section \<open>Stateful computations\<close>

text \<open>
  A computation on a state \<open>'s\<close>: \<open>None\<close> is one that never returns, otherwise it throws or
  gives a value, and leaves a state. In a sequence the first one that throws ends it.
\<close>

type_synonym ('s, 'a) stateful = "'s \<Rightarrow> ('a result \<times> 's) option"

definition give :: "'a result \<Rightarrow> ('s, 'a) stateful" where
  "give r s = Some (r, s)"

definition bind_io :: "('s, 'a) stateful \<Rightarrow> ('a \<Rightarrow> ('s, 'b) stateful) \<Rightarrow> ('s, 'b) stateful" where
  "bind_io m f s =
     (case m s of
        None \<Rightarrow> None
      | Some (Inl x, s') \<Rightarrow> Some (Inl x, s')
      | Some (Inr v, s') \<Rightarrow> f v s')"

text \<open>\<^verbatim>\<open>try { m } catch (...) { h; throw; }\<close> and \<^verbatim>\<open>try { m } catch (...) {}\<close>.\<close>

definition cleanup_io :: "('s, 'a) stateful \<Rightarrow> ('s, unit) stateful \<Rightarrow> ('s, 'a) stateful" where
  "cleanup_io m h s =
     (case m s of
        Some (Inl x, s') \<Rightarrow> map_option (\<lambda>(_, s2). (Inl x, s2)) (h s')
      | r \<Rightarrow> r)"

definition swallow_io :: "('s, 'a) stateful \<Rightarrow> ('s, unit) stateful" where
  "swallow_io m s = map_option (\<lambda>(_, s'). (Inr (), s')) (m s)"

text \<open>A destructor at the end of the scope of \<open>m\<close>; destructors do not throw.\<close>

definition scoped_io :: "('s, 'a) stateful \<Rightarrow> ('s, unit) stateful \<Rightarrow> ('s, 'a) stateful" where
  "scoped_io m h s = (case m s of None \<Rightarrow> None | Some (r, s') \<Rightarrow> map_option (\<lambda>(_, s2). (r, s2)) (h s'))"

lemma bind_io_Inr:
  assumes "bind_io m f w = Some (Inr y, w')"
  obtains v w1 where "m w = Some (Inr v, w1)" "f v w1 = Some (Inr y, w')"
  using assms by (auto simp: bind_io_def split: option.splits sum.splits)

lemma bind_io_cases [consumes 1, case_names threw went]:
  assumes "bind_io m f w = Some (r, w')"
  obtains x where "m w = Some (Inl x, w')" "r = Inl x"
  | v w1 where "m w = Some (Inr v, w1)" "f v w1 = Some (r, w')"
  using assms by (auto simp: bind_io_def split: option.splits sum.splits)

lemma cleanup_io_cases [consumes 1, case_names failed finished]:
  assumes "cleanup_io m h s = Some (r, s')"
  obtains x s1 q where "m s = Some (Inl x, s1)" "h s1 = Some (q, s')" "r = Inl x"
  | v where "m s = Some (Inr v, s')" "r = Inr v"
  using assms by (auto simp: cleanup_io_def split: option.splits sum.splits)

lemma bind_io_give [simp]:
  "bind_io (give (Inr v)) f w = f v w"
  "bind_io (give (Inl x)) f w = Some (Inl x, w)"
  by (simp_all add: bind_io_def give_def)

lemma give_Inr [simp]: "give r w = Some (Inr y, w') \<longleftrightarrow> r = Inr y \<and> w' = w"
  by (auto simp: give_def)

section \<open>Bytes and characters\<close>

definition byte_of :: "char \<Rightarrow> 8 word" where
  "byte_of c = word_of_nat (of_char c)"

lemma of_char_less_256: "(of_char c :: nat) < 256"
  using nat_of_char_less_256 [of c] .

lemma byte_of_inj [word_inj]: "byte_of c = byte_of d \<longleftrightarrow> c = d"
proof
  assume "byte_of c = byte_of d"
  then have "unat (byte_of c) = unat (byte_of d)" by simp
  then have "(of_char c :: nat) = of_char d"
    using of_char_less_256 [of c] of_char_less_256 [of d]
    by (simp add: byte_of_def unat_of_nat)
  then show "c = d" by simp
qed simp

lemma map_byte_of_inj: "map byte_of xs = map byte_of ys \<longleftrightarrow> xs = ys"
  by (simp add: inj_map_eq_map inj_def byte_of_inj)

section \<open>Decimal numbers\<close>

definition is_digit :: "char \<Rightarrow> bool" where
  "is_digit c \<longleftrightarrow> 48 \<le> (of_char c :: nat) \<and> (of_char c :: nat) \<le> 57"

definition digit_char :: "nat \<Rightarrow> char" where
  "digit_char d = char_of (48 + d)"

definition digit_val :: "char \<Rightarrow> nat" where
  "digit_val c = of_char c - 48"

lemma digit_char_facts [dec_simps]:
  assumes "d < 10"
  shows "is_digit (digit_char d)" and "digit_val (digit_char d) = d"
  using assms by (simp_all add: is_digit_def digit_char_def digit_val_def)

lemma digit_char_neq_minus [dec_simps]: "d < 10 \<Longrightarrow> digit_char d \<noteq> CHR ''-''"
  using digit_char_facts(1) [of d] by (auto simp: is_digit_def)

text \<open>\<^verbatim>\<open>std::to_string\<close> and \<^verbatim>\<open>std::format("{}")\<close> of a nonnegative and of any integer.\<close>

fun show_nat :: "nat \<Rightarrow> string" where
  "show_nat n = (if n < 10 then [digit_char n] else show_nat (n div 10) @ [digit_char (n mod 10)])"

declare show_nat.simps [simp del]

definition show_int :: "int \<Rightarrow> string" where
  "show_int i = (if i < 0 then CHR ''-'' # show_nat (nat (- i)) else show_nat (nat i))"

definition read_nat :: "string \<Rightarrow> nat" where
  "read_nat s = foldl (\<lambda>v c. 10 * v + digit_val c) 0 s"

lemma show_nat_digits [dec_simps]: "list_all is_digit (show_nat n)"
proof (induction n rule: show_nat.induct)
  case (1 n)
  then show ?case
    by (cases "n < 10") (auto simp: show_nat.simps [of n] digit_char_facts)
qed

lemma show_nat_nonempty [dec_simps]: "show_nat n \<noteq> []"
  by (subst show_nat.simps) simp

lemma read_nat_show_nat [dec_simps]: "read_nat (show_nat n) = n"
proof (induction n rule: show_nat.induct)
  case (1 n)
  then show ?case
    by (cases "n < 10") (auto simp: show_nat.simps [of n] digit_char_facts read_nat_def)
qed

lemma takeWhile_is_digit_show_nat [dec_simps]:
  "takeWhile is_digit (show_nat n @ r) = show_nat n @ takeWhile is_digit r"
  "dropWhile is_digit (show_nat n @ r) = dropWhile is_digit r"
  using show_nat_digits [of n] by (simp_all add: list_all_iff)

lemma minus_not_digit [simp]: "\<not> is_digit CHR ''-''"
  by (simp add: is_digit_def)

lemma show_nat_inj: "show_nat m = show_nat n \<longleftrightarrow> m = n"
  by (metis read_nat_show_nat)

lemma hd_show_nat_neq_minus: "hd (show_nat n) \<noteq> CHR ''-''"
proof -
  have "is_digit (hd (show_nat n))"
    using show_nat_digits [of n] show_nat_nonempty [of n]
    by (cases "show_nat n") auto
  then show ?thesis by (auto simp: is_digit_def)
qed

lemma show_int_inj: "show_int i = show_int j \<longleftrightarrow> i = j"
proof
  assume eq: "show_int i = show_int j"
  show "i = j"
  proof (cases "i < 0"; cases "j < 0")
    assume "i < 0" "j < 0"
    with eq have "nat (- i) = nat (- j)" by (simp add: show_int_def show_nat_inj)
    with \<open>i < 0\<close> \<open>j < 0\<close> show ?thesis by simp
  next
    assume "i < 0" "\<not> j < 0"
    with eq hd_show_nat_neq_minus [of "nat j"] show ?thesis
      by (cases "show_nat (nat j)") (auto simp: show_int_def)
  next
    assume "\<not> i < 0" "j < 0"
    with eq hd_show_nat_neq_minus [of "nat i"] show ?thesis
      by (cases "show_nat (nat i)") (auto simp: show_int_def)
  next
    assume "\<not> i < 0" "\<not> j < 0"
    with eq have "nat i = nat j" by (simp add: show_int_def show_nat_inj)
    with \<open>\<not> i < 0\<close> \<open>\<not> j < 0\<close> show ?thesis by simp
  qed
qed simp

section \<open>Splitting at a character\<close>

text \<open>
  The part of a string before the first occurrence of a character, and what
  follows it, as \<^verbatim>\<open>find\<close> and \<^verbatim>\<open>substr\<close> are used: \<open>None\<close> is \<^verbatim>\<open>npos\<close>.
\<close>

definition split_at_char :: "char \<Rightarrow> string \<Rightarrow> string \<times> string option" where
  "split_at_char c s =
     (takeWhile (\<lambda>x. x \<noteq> c) s,
      case dropWhile (\<lambda>x. x \<noteq> c) s of [] \<Rightarrow> None | x # xs \<Rightarrow> Some xs)"

lemma split_at_char_notin [simp]:
  "c \<notin> set a \<Longrightarrow> split_at_char c a = (a, None)"
  by (induction a) (auto simp: split_at_char_def)

lemma split_at_char_append [simp]:
  "c \<notin> set a \<Longrightarrow> split_at_char c (a @ c # b) = (a, Some b)"
  by (induction a) (auto simp: split_at_char_def)

lemma split_at_char_None:
  "split_at_char c s = (a, None) \<longleftrightarrow> a = s \<and> c \<notin> set s"
proof (cases "c \<in> set s")
  case True
  then obtain x y where "s = x @ c # y" "c \<notin> set x" by (auto dest: split_list_first)
  then show ?thesis by simp
qed auto

lemma split_at_char_Some:
  "split_at_char c s = (a, Some b) \<longleftrightarrow> s = a @ c # b \<and> c \<notin> set a"
proof (cases "c \<in> set s")
  case True
  then obtain x y where xy: "s = x @ c # y" "c \<notin> set x" by (auto dest: split_list_first)
  then have "split_at_char c s = (x, Some y)" by simp
  then show ?thesis using xy by (metis Pair_inject option.inject split_at_char_append)
qed auto

lemma split_at_char_length:
  "split_at_char c s = (a, Some b) \<Longrightarrow> length b < length s"
  by (simp add: split_at_char_Some)

section \<open>Arrays of slots\<close>

text \<open>
  A fixed array and the number of its slots in use, as in
  \<^verbatim>\<open>attributes[num_attributes ++]\<close>; a write beyond the last slot is undefined behaviour.
\<close>

type_synonym 'a slots = "'a option list \<times> nat"

definition push_attribute :: "'a \<Rightarrow> 'a slots \<Rightarrow> 'a slots option" where
  "push_attribute a arr =
     (case arr of (slots, n) \<Rightarrow>
        if n < length slots then Some (slots[n := Some a], Suc n) else None)"

definition push_if :: "bool \<Rightarrow> 'a \<Rightarrow> 'a slots option \<Rightarrow> 'a slots option" where
  "push_if c a arr = (if c then Option.bind arr (push_attribute a) else arr)"

lemma push_attribute_pair [simp]:
  "push_attribute a (slots, n) = (if n < length slots then Some (slots[n := Some a], Suc n) else None)"
  by (simp add: push_attribute_def)

end
