(* ===== verification/Alignment.thy ===== *)
theory Alignment
  imports "HOL-Library.Word"
begin

unbundle bit_operations_syntax

text \<open>The bit tricks that round 64-bit addresses and offsets to a power of two.\<close>

lemma align_down:
  fixes x :: "64 word"
  shows "unat (x AND NOT (mask j)) = unat x div 2 ^ j * 2 ^ j"
proof -
  have "x AND NOT (mask j) = push_bit j (drop_bit j x)"
    by (rule bit_word_eqI) (auto simp: bit_simps)
  moreover have "unat (push_bit j (drop_bit j x)) = unat x div 2 ^ j * 2 ^ j"
  proof -
    have "unat x div 2 ^ j * 2 ^ j \<le> unat x" by simp
    also have "\<dots> < 2 ^ 64" using unsigned_less[of x] by simp
    finally have "take_bit 64 (unat x div 2 ^ j * 2 ^ j) = unat x div 2 ^ j * 2 ^ j" by (simp add: take_bit_nat_eq_self)
    moreover have "unat x < 2 ^ 64" using unsigned_less[of x] by simp
    then have "take_bit 64 (unat x) = unat x" by (simp add: take_bit_nat_eq_self)
    ultimately show ?thesis
      by (simp only: unsigned_push_bit_eq unsigned_drop_bit_eq) (simp add: push_bit_eq_mult drop_bit_eq_div)
  qed
  ultimately show ?thesis by simp
qed

lemma unat_of_int: "0 \<le> n \<Longrightarrow> n < 2 ^ 64 \<Longrightarrow> unat (word_of_int n :: 64 word) = nat n"
  by (simp add: unat_eq_nat_uint uint_word_of_int_eq take_bit_int_eq_self)

lemma unat_add_small: "unat x + unat y < 2 ^ 64 \<Longrightarrow> unat (x + y :: 64 word) = unat x + unat y"
  by (subst unat_plus_if') simp

lemma unat_exp:
  assumes "j < 64"
  shows "unat ((2 :: 64 word) ^ j) = 2 ^ j"
proof -
  have "(2 :: 64 word) ^ j = push_bit j 1" by simp
  moreover have "(2 :: nat) ^ j < 2 ^ 64" using assms by (intro power_strict_increasing) auto
  ultimately show ?thesis using assms
    by (simp only: unsigned_push_bit_eq) (simp add: take_bit_nat_eq_self push_bit_eq_mult)
qed

lemma unat_mask: "j < 64 \<Longrightarrow> unat (mask j :: 64 word) = 2 ^ j - 1"
  unfolding mask_eq_decr_exp by (subst unat_sub) (simp_all add: word_le_nat_alt unat_exp)

lemma align_up:
  fixes x :: "64 word"
  assumes "j < 64" and "unat x + 2 ^ j \<le> 2 ^ 64"
  shows "unat ((x + mask j) AND NOT (mask j)) = (unat x + 2 ^ j - 1) div 2 ^ j * 2 ^ j"
proof -
  have "unat (x + mask j) = unat x + (2 ^ j - 1)"
    using unat_add_small[of x "mask j"] assms by (simp add: unat_mask)
  then show ?thesis by (simp add: align_down)
qed

text \<open>Rounding up to a multiple of \<open>m\<close>.\<close>

definition round_up :: "nat \<Rightarrow> nat \<Rightarrow> nat" where
  "round_up m n = (n + m - 1) div m * m"

lemma round_up_facts:
  assumes "0 < m"
  shows "n \<le> round_up m n" and "round_up m n < n + m" and "m dvd round_up m n"
proof -
  have q: "(n + m - 1) div m * m + (n + m - 1) mod m = n + m - 1" by simp
  have "(n + m - 1) mod m < m" using assms by simp
  with q assms show "n \<le> round_up m n" "round_up m n < n + m" unfolding round_up_def by linarith+
qed (simp add: round_up_def)

end
