(* ===== verification/Call_Log.thy ===== *)
theory Call_Log
  imports Prelude "HOL-Library.Multiset"
begin

text \<open>
  Code outside the repository that keeps a state of its own (a driver, the operating system
  of the device) as an oracle: its reply to a call is a function of all calls made before
  and of the call. A computation records its calls, so what it holds, or what a file
  contains, is computed from the record.
\<close>

type_synonym ('c, 'r) responder = "'c list \<Rightarrow> 'c \<Rightarrow> 'r"

text \<open>What a record amounts to, one call after the other, from an empty one.\<close>

definition gather :: "('c list \<Rightarrow> 'c \<Rightarrow> 'm \<Rightarrow> 'm) \<Rightarrow> 'm \<Rightarrow> 'c list \<Rightarrow> 'm" where
  "gather f m0 log = fst (foldl (\<lambda>(m, pre) c. (f pre c m, pre @ [c])) (m0, []) log)"

lemma gather_snd: "snd (foldl (\<lambda>(m, pre) c. (f pre c m, pre @ [c])) (m0, p0) log) = p0 @ log"
  by (induction log arbitrary: m0 p0) auto

lemma gather_simps [simp]:
  "gather f m0 [] = m0"
  "gather f m0 (log @ [c]) = f log c (gather f m0 log)"
proof -
  let ?fold = "foldl (\<lambda>(m, pre) c. (f pre c m, pre @ [c])) (m0, []) log"
  have "snd ?fold = log" using gather_snd[of f m0 "[]" log] by simp
  then show "gather f m0 (log @ [c]) = f log c (gather f m0 log)"
    by (cases ?fold) (simp add: gather_def)
qed (simp add: gather_def)

lemma gather_append_same:
  assumes "\<And>pre c m. c \<in> set cs \<Longrightarrow> f pre c m = m"
  shows "gather f m0 (log @ cs) = gather f m0 log"
  using assms
proof (induction cs rule: rev_induct)
  case (snoc c cs)
  then have "gather f m0 ((log @ cs) @ [c]) = gather f m0 log" by (subst gather_simps(2)) auto
  then show ?case by simp
qed simp

end
