(* ===== verification/Hash_FNV.thy ===== *)
theory Hash_FNV
  imports Prelude
begin

text \<open>
  The two-state FNV-1a cache hash of \<^verbatim>\<open>utils/hash.hpp\<close> on 64-bit words, and why it is
  usable as a cache key: the byte stream that a chain of \<^verbatim>\<open>update\<close> calls feeds to the
  states can be cut back into the chained inputs, the states can be recovered from the
  digest, and a change of one byte always changes the digest.
\<close>

unbundle bit_operations_syntax

section \<open>The hash\<close>

record fnv1a =
  state_0 :: "64 word"
  state_1 :: "64 word"

definition fnv_new :: fnv1a where
  "fnv_new = \<lparr>state_0 = 0xc6a4a7935bd1e995, state_1 = 0xff51afd7ed558ccd\<rparr>"

definition update_byte :: "fnv1a \<Rightarrow> 8 word \<Rightarrow> fnv1a" where
  "update_byte h byte =
     \<lparr>state_0 = (state_0 h XOR ucast byte) * 0x100000001b3,
      state_1 = (state_1 h XOR ucast byte) * 0x9e3779b97f4a7c15\<rparr>"

text \<open>\<^verbatim>\<open>static_cast<uint8_t>(size >> shift)\<close> on the signed 64-bit length, for the shifts 0, 8, \<dots>, 56.\<close>

definition size_bytes :: "nat \<Rightarrow> 8 word list" where
  "size_bytes n =
     (let size = word_of_nat n :: 64 word
      in map (\<lambda>i. ucast (signed_drop_bit (8 * i) size)) [0..<8])"

definition update :: "fnv1a \<Rightarrow> string \<Rightarrow> fnv1a" where
  "update h data =
     foldl update_byte (foldl update_byte h (size_bytes (length data))) (map byte_of data)"

definition split_mix :: "64 word \<Rightarrow> 64 word" where
  "split_mix value =
     (let value = (value XOR drop_bit 30 value) * 0xbf58476d1ce4e5b9;
          value = (value XOR drop_bit 27 value) * 0x94d049bb133111eb
      in value XOR drop_bit 31 value)"

definition hex_digit :: "nat \<Rightarrow> char" where
  "hex_digit d = ''0123456789abcdef'' ! d"

text \<open>\<^verbatim>\<open>std::format("{:016x}")\<close> of a 64-bit value: its sixteen nibbles, highest first.\<close>

definition hex16 :: "64 word \<Rightarrow> string" where
  "hex16 w = map (\<lambda>i. hex_digit (unat (drop_bit (4 * (15 - i)) w AND 15))) [0..<16]"

definition get_hex_digest :: "fnv1a \<Rightarrow> string" where
  "get_hex_digest h = hex16 (split_mix (state_0 h)) @ hex16 (split_mix (state_1 h))"

definition hex_digest_of :: "string \<Rightarrow> string" where
  "hex_digest_of data = get_hex_digest (update fnv_new data)"

section \<open>The byte stream behind a chain of updates\<close>

definition frame :: "string \<Rightarrow> 8 word list" where
  "frame data = size_bytes (length data) @ map byte_of data"

definition stream :: "string list \<Rightarrow> 8 word list" where
  "stream xs = concat (map frame xs)"

lemma update_frame: "update h data = foldl update_byte h (frame data)"
  by (simp add: update_def frame_def)

lemma updates_stream: "foldl update h xs = foldl update_byte h (stream xs)"
  by (induction xs arbitrary: h) (simp_all add: stream_def update_frame)

lemma length_size_bytes [simp]: "length (size_bytes n) = 8"
  by (simp add: size_bytes_def Let_def)

lemma bit_size_byte:
  assumes "i < 8" and "b < 8"
  shows "bit (size_bytes n ! i) b = bit (word_of_nat n :: 64 word) (8 * i + b)"
proof -
  have "\<not> 64 - 8 * i \<le> b" using assms by arith
  with assms show ?thesis by (simp add: size_bytes_def Let_def bit_simps)
qed

lemma size_bytes_inj:
  assumes "size_bytes m = size_bytes n" and "m < 2 ^ 64" and "n < 2 ^ 64"
  shows "m = n"
proof -
  have "(word_of_nat m :: 64 word) = word_of_nat n"
  proof (rule bit_word_eqI)
    fix k assume "k < LENGTH(64)"
    then have "k div 8 < 8" and "k mod 8 < 8" by simp_all
    then show "bit (word_of_nat m :: 64 word) k = bit (word_of_nat n :: 64 word) k"
      using bit_size_byte [of "k div 8" "k mod 8" m] bit_size_byte [of "k div 8" "k mod 8" n]
        assms(1) by simp
  qed
  then have "unat (word_of_nat m :: 64 word) = unat (word_of_nat n :: 64 word)" by simp
  with assms(2,3) show ?thesis by (simp add: unat_of_nat)
qed

lemma frame_append_inj:
  assumes "frame x @ r = frame y @ s" and "length x < 2 ^ 64" and "length y < 2 ^ 64"
  shows "x = y \<and> r = s"
proof -
  from assms(1) have "size_bytes (length x) = size_bytes (length y)"
    and rest: "map byte_of x @ r = map byte_of y @ s"
    by (simp_all add: frame_def)
  with assms(2,3) have "length x = length y" by (blast intro: size_bytes_inj)
  with rest show ?thesis by (simp add: map_byte_of_inj)
qed

lemma frame_nonempty: "frame x \<noteq> []"
proof
  assume "frame x = []"
  then have "length (frame x) = 0" by simp
  then show False by (simp add: frame_def)
qed

lemma stream_inj:
  assumes "stream xs = stream ys"
    and "\<forall>x \<in> set xs. length x < 2 ^ 64" and "\<forall>y \<in> set ys. length y < 2 ^ 64"
  shows "xs = ys"
  using assms
proof (induction xs arbitrary: ys)
  case Nil
  then show ?case using frame_nonempty by (cases ys) (auto simp: stream_def)
next
  case (Cons x xs)
  then obtain y ys' where ys: "ys = y # ys'"
    using frame_nonempty by (cases ys) (auto simp: stream_def)
  have "frame x @ stream xs = frame y @ stream ys'"
    using Cons.prems(1) ys by (simp add: stream_def)
  then have "x = y" and "stream xs = stream ys'"
    using frame_append_inj [of x "stream xs" y "stream ys'"] Cons.prems ys by auto
  with Cons.IH [of ys'] Cons.prems ys show ?case by simp
qed

section \<open>Injectivity of the mixing steps\<close>

lemma mult_cancel_by_inverse:
  fixes c d x y :: "64 word"
  assumes "c * d = 1"
  shows "x * c = y * c \<longleftrightarrow> x = y"
proof
  assume "x * c = y * c"
  then have "x * (c * d) = y * (c * d)" by (simp add: mult.assoc [symmetric])
  with assms show "x = y" by simp
qed simp

lemma mult_consts_inj [word_inj]:
  fixes x y :: "64 word"
  shows "x * 0x100000001b3 = y * 0x100000001b3 \<longleftrightarrow> x = y"
    and "x * 0x9e3779b97f4a7c15 = y * 0x9e3779b97f4a7c15 \<longleftrightarrow> x = y"
    and "x * 0xbf58476d1ce4e5b9 = y * 0xbf58476d1ce4e5b9 \<longleftrightarrow> x = y"
    and "x * 0x94d049bb133111eb = y * 0x94d049bb133111eb \<longleftrightarrow> x = y"
  by (rule mult_cancel_by_inverse [where d = "0xce965057aff6957b"], simp,
      rule mult_cancel_by_inverse [where d = "0xf1de83e19937733d"], simp,
      rule mult_cancel_by_inverse [where d = "0x96de1b173f119089"], simp,
      rule mult_cancel_by_inverse [where d = "0x319642b2d24d8ec3"], simp)

lemma xorshift_inj [word_inj]:
  fixes x y :: "'a::len word"
  assumes "0 < k"
  shows "x XOR drop_bit k x = y XOR drop_bit k y \<longleftrightarrow> x = y"
proof
  assume eq: "x XOR drop_bit k x = y XOR drop_bit k y"
  have "bit x n = bit y n" for n
  proof (induction "LENGTH('a) - n" arbitrary: n rule: less_induct)
    case less
    show ?case
    proof (cases "n < LENGTH('a)")
      case True
      then have "LENGTH('a) - (k + n) < LENGTH('a) - n" using assms by simp
      then have "bit x (k + n) = bit y (k + n)" by (rule less.hyps)
      moreover have "bit (x XOR drop_bit k x) n = bit (y XOR drop_bit k y) n"
        using eq by simp
      ultimately show ?thesis by (auto simp: bit_xor_iff bit_drop_bit_eq)
    next
      case False
      then show ?thesis by (simp add: impossible_bit)
    qed
  qed
  then show "x = y" by (simp add: bit_eq_iff)
qed simp

lemma xor_left_inj [word_inj]:
  fixes x y z :: "'a::len word"
  shows "x XOR z = y XOR z \<longleftrightarrow> x = y" and "z XOR x = z XOR y \<longleftrightarrow> x = y"
  by (metis xor.assoc xor_self_eq xor.right_neutral, metis xor.assoc xor_self_eq xor.left_neutral)

lemma split_mix_inj [word_inj]: "split_mix x = split_mix y \<longleftrightarrow> x = y"
  by (simp add: split_mix_def Let_def word_inj)

lemma ucast_byte_inj [word_inj]: "(ucast (a :: 8 word) :: 64 word) = ucast b \<longleftrightarrow> a = b"
proof
  assume eq: "(ucast a :: 64 word) = ucast b"
  show "a = b"
  proof (rule bit_word_eqI)
    fix n assume "n < LENGTH(8)"
    moreover have "bit (ucast a :: 64 word) n = bit (ucast b :: 64 word) n" using eq by simp
    ultimately show "bit a n = bit b n" by (simp add: bit_ucast_iff)
  qed
qed simp

lemma update_byte_inj_state:
  "update_byte g b = update_byte h b \<longleftrightarrow> g = h"
  by (cases g; cases h) (simp add: update_byte_def word_inj)

lemma update_byte_inj_byte:
  "update_byte h a = update_byte h b \<longleftrightarrow> a = b"
  by (simp add: update_byte_def word_inj)

lemma update_bytes_inj_state:
  "foldl update_byte g bs = foldl update_byte h bs \<longleftrightarrow> g = h"
  by (induction bs arbitrary: g h) (simp_all add: update_byte_inj_state)

lemma update_inj_state: "update g data = update h data \<longleftrightarrow> g = h"
  by (simp add: update_frame update_bytes_inj_state)

section \<open>Injectivity of the digest\<close>

lemma hex_digit_inj: "i < 16 \<Longrightarrow> j < 16 \<Longrightarrow> hex_digit i = hex_digit j \<longleftrightarrow> i = j"
  unfolding hex_digit_def by (rule nth_eq_iff_index_eq) simp_all

lemma nibble_bound: "unat (w AND (15 :: 64 word)) < 16"
proof -
  have "unat (w AND (15 :: 64 word)) \<le> unat (15 :: 64 word)"
    by (rule word_and_le1 [THEN word_le_nat_alt [THEN iffD1]])
  then show ?thesis by simp
qed

lemma length_hex16 [simp]: "length (hex16 w) = 16"
  by (simp add: hex16_def)

lemma hex16_inj [word_inj]: "hex16 v = hex16 w \<longleftrightarrow> v = w"
proof
  assume eq: "hex16 v = hex16 w"
  show "v = w"
  proof (rule bit_word_eqI)
    fix n assume n: "n < LENGTH(64)"
    define i where "i = 15 - n div 4"
    have i: "i < 16" "4 * (15 - i) + n mod 4 = n" using n by (auto simp: i_def)
    have "hex16 v ! i = hex16 w ! i" using eq by simp
    then have "drop_bit (4 * (15 - i)) v AND 15 = drop_bit (4 * (15 - i)) w AND 15"
      using i(1) nibble_bound by (simp add: hex16_def hex_digit_inj word_unat_eq_iff)
    then have "bit (drop_bit (4 * (15 - i)) v AND 15) (n mod 4) =
        bit (drop_bit (4 * (15 - i)) w AND 15) (n mod 4)" by simp
    moreover have "bit (15 :: 64 word) (n mod 4)"
    proof -
      have "(15 :: 64 word) = mask 4" by (simp add: mask_eq_exp_minus_1)
      then show ?thesis by (simp only: bit_mask_iff) simp
    qed
    ultimately show "bit v n = bit w n"
      using i(2) by (simp add: bit_and_iff bit_drop_bit_eq)
  qed
qed simp

lemma get_hex_digest_inj: "get_hex_digest g = get_hex_digest h \<longleftrightarrow> g = h"
  by (cases g; cases h) (simp add: get_hex_digest_def word_inj)

lemma length_get_hex_digest [simp]: "length (get_hex_digest h) = 32"
  by (simp add: get_hex_digest_def)

lemma set_hex16: "set (hex16 w) \<subseteq> set ''0123456789abcdef''"
proof -
  have "hex_digit d \<in> set ''0123456789abcdef''" if "d < 16" for d
    using that unfolding hex_digit_def by (intro nth_mem) simp
  then show ?thesis using nibble_bound by (auto simp: hex16_def)
qed

section \<open>Properties\<close>

text \<open>C20: The bytes that a chain of \<^verbatim>\<open>update\<close> calls feeds to the two states are the
  concatenated frames of its inputs, and different chains of inputs (of at most
  $2^{64}-1$ bytes each) have different byte streams: no two cache keys that hash
  different fields collide because the boundaries of the fields moved.\<close>

theorem chained_updates_unambiguous:
  assumes "\<forall>x \<in> set (xs @ ys). length x < 2 ^ 64"
  shows "foldl update h xs = foldl update_byte h (stream xs) \<and>
    foldl update h ys = foldl update_byte h (stream ys) \<and>
    (stream xs = stream ys \<longleftrightarrow> xs = ys)"
  using assms stream_inj[of xs ys] by (auto simp: updates_stream)

theorem chained_updates_unambiguous_witness:
  "stream [''ab'', ''c''] = stream [''a'', ''bc''] \<longleftrightarrow> [''ab'', ''c''] = [''a'', ''bc'']"
  using chained_updates_unambiguous[of "[''ab'', ''c'']" "[''a'', ''bc'']" fnv_new] by simp

text \<open>Changing one byte anywhere in one of the chained inputs always changes the
  digest, whatever is hashed before and after it: no collision of one-byte edits.\<close>

theorem digest_detects_byte_change:
  "get_hex_digest (foldl update h (as @ (p @ c # q) # bs)) =
   get_hex_digest (foldl update h (as @ (p @ d # q) # bs)) \<longleftrightarrow> c = d"
proof -
  have frames: "frame (p @ x # q) = (size_bytes (length p + Suc (length q)) @ map byte_of p) @
      byte_of x # map byte_of q" for x
    by (simp add: frame_def)
  have "byte_of c = byte_of d \<longleftrightarrow> c = d"
    using map_byte_of_inj[of "[c]" "[d]"] by auto
  then show ?thesis
    by (simp add: get_hex_digest_inj updates_stream update_frame frames update_bytes_inj_state
        update_byte_inj_byte)
qed

text \<open>A digest is 32 lower-case hexadecimal characters and determines both states, so
  it loses none of the 128 bits of the hash.\<close>

theorem digest_faithful:
  "length (get_hex_digest g) = 32 \<and> set (get_hex_digest g) \<subseteq> set ''0123456789abcdef'' \<and>
   (get_hex_digest g = get_hex_digest h \<longleftrightarrow> g = h)"
proof (intro conjI)
  show "set (get_hex_digest g) \<subseteq> set ''0123456789abcdef''"
    unfolding get_hex_digest_def set_append using set_hex16 by blast
qed (simp_all add: get_hex_digest_inj)

end
