(* ===== verification/Env_Vars.thy ===== *)
theory Env_Vars
  imports Prelude
begin

text \<open>
  Environment variables (\<^verbatim>\<open>utils/env.hpp\<close>): parsing of integers and booleans with
  \<^verbatim>\<open>std::from_chars\<close>, and the lookup order of a library prefix before the global
  prefix \<^verbatim>\<open>DJ\<close>. The process environment is a map from names to values.
\<close>

type_synonym environ = "string \<rightharpoonup> string"

section \<open>Parsing integers\<close>

text \<open>
  \<^verbatim>\<open>std::from_chars(raw, end, value)\<close> for a signed (\<open>sgn\<close>) or unsigned type with the
  bounds \<open>lo\<close> and \<open>hi\<close>: an optional minus sign for the signed types only, then the
  longest run of decimal digits. \<open>None\<close> is a nonzero \<^verbatim>\<open>std::errc\<close> (no digits, or
  out of range); otherwise the value and what follows the last character read.
\<close>

datatype int_type = Int_type (ity_signed: bool) (ity_lo: int) (ity_hi: int)

definition int32_t :: int_type where
  "int32_t = Int_type True (- (2 ^ 31)) (2 ^ 31 - 1)"

definition int64_t :: int_type where
  "int64_t = Int_type True (- (2 ^ 63)) (2 ^ 63 - 1)"

definition from_chars :: "int_type \<Rightarrow> string \<Rightarrow> (int \<times> string) option" where
  "from_chars t raw =
     (let neg = (ity_signed t \<and> raw \<noteq> [] \<and> hd raw = CHR ''-'');
          body = (if neg then tl raw else raw);
          digits = takeWhile is_digit body;
          rest = dropWhile is_digit body;
          value = (if neg then - int (read_nat digits) else int (read_nat digits))
      in if digits = [] then None
         else if ity_lo t \<le> value \<and> value \<le> ity_hi t then Some (value, rest) else None)"

definition parse_integer :: "int_type \<Rightarrow> string \<Rightarrow> string \<Rightarrow> int result" where
  "parse_integer t raw name =
     (case from_chars t raw of
        Some (value, []) \<Rightarrow> Inr value
      | _ \<Rightarrow> Inl (Panic (''invalid value for '' @ name @ '': '' @ raw)))"

section \<open>Typed reads\<close>

text \<open>\<^verbatim>\<open>std::tolower(c, std::locale::classic())\<close>: the ASCII letters only.\<close>

definition to_lower :: "char \<Rightarrow> char" where
  "to_lower c =
     (let n = of_char c :: nat in if 65 \<le> n \<and> n \<le> 90 then char_of (n + 32) else c)"

definition parse_bool :: "string \<Rightarrow> string \<Rightarrow> bool result" where
  "parse_bool raw name =
     (let value = map to_lower raw
      in if value = ''true'' \<or> value = ''yes'' then Inr True
         else if value = ''false'' \<or> value = ''no'' then Inr False
         else bind_result (parse_integer int64_t raw name) (\<lambda>n. Inr (n \<noteq> 0)))"

text \<open>\<^verbatim>\<open>get_env<T>\<close>, one definition for each \<^verbatim>\<open>T\<close> the code uses.\<close>

definition get_env :: "(string \<Rightarrow> string \<Rightarrow> 'a result) \<Rightarrow> environ \<Rightarrow> string \<Rightarrow> 'a \<Rightarrow> 'a result" where
  "get_env parse e name default_value =
     (case e name of None \<Rightarrow> Inr default_value | Some raw \<Rightarrow> parse raw name)"

definition get_env_string :: "environ \<Rightarrow> string \<Rightarrow> string result" where
  "get_env_string e name = get_env (\<lambda>raw _. Inr raw) e name []"

definition get_env_bool :: "environ \<Rightarrow> string \<Rightarrow> bool \<Rightarrow> bool result" where
  "get_env_bool = get_env parse_bool"

definition get_env_int :: "environ \<Rightarrow> string \<Rightarrow> int \<Rightarrow> int result" where
  "get_env_int = get_env (parse_integer int32_t)"

section \<open>The prefixed environment\<close>

record env =
  env_prefix :: string
  environ :: environ

text \<open>The constructor of \<^verbatim>\<open>Env\<close>.\<close>

definition make_env :: "string \<Rightarrow> environ \<Rightarrow> env result" where
  "make_env pre e =
     bind_result (dj_host_assert (pre \<noteq> []) ''environment variable prefix must not be empty'') (\<lambda>_.
     bind_result (dj_host_assert (pre \<noteq> ''DJ'') ''DJ is reserved for global environment variables'') (\<lambda>_.
     Inr \<lparr>env_prefix = pre, environ = e\<rparr>))"

definition var_name :: "string \<Rightarrow> string \<Rightarrow> string" where
  "var_name pre suf = pre @ ''_'' @ suf"

definition get_with_prefix ::
  "(string \<Rightarrow> string \<Rightarrow> 'a result) \<Rightarrow> environ \<Rightarrow> string \<Rightarrow> string \<Rightarrow> 'a option result" where
  "get_with_prefix parse e pre suf =
     (let name = var_name pre suf
      in case e name of
           None \<Rightarrow> Inr None
         | Some raw \<Rightarrow> bind_result (parse raw name) (\<lambda>v. Inr (Some v)))"

definition env_get ::
  "(string \<Rightarrow> string \<Rightarrow> 'a result) \<Rightarrow> env \<Rightarrow> string \<Rightarrow> 'a option result" where
  "env_get parse v suf =
     bind_result (get_with_prefix parse (environ v) (env_prefix v) suf) (\<lambda>value.
       case value of
         Some x \<Rightarrow> Inr (Some x)
       | None \<Rightarrow> get_with_prefix parse (environ v) ''DJ'' suf)"

definition env_get_or ::
  "(string \<Rightarrow> string \<Rightarrow> 'a result) \<Rightarrow> env \<Rightarrow> string \<Rightarrow> 'a \<Rightarrow> 'a result" where
  "env_get_or parse v suf default_value =
     bind_result (env_get parse v suf) (\<lambda>value.
       Inr (case value of Some x \<Rightarrow> x | None \<Rightarrow> default_value))"

definition env_bool :: "env \<Rightarrow> string \<Rightarrow> bool \<Rightarrow> bool result" where
  "env_bool = env_get_or parse_bool"

definition env_int :: "env \<Rightarrow> string \<Rightarrow> int \<Rightarrow> int result" where
  "env_int = env_get_or (parse_integer int32_t)"

definition env_string :: "env \<Rightarrow> string \<Rightarrow> string option result" where
  "env_string = env_get (\<lambda>raw _. Inr raw)"

text \<open>The shortcut \<^verbatim>\<open>debug or env.get<bool>(...)\<close> does not read the variable when \<open>debug\<close> is set.\<close>

definition or_env :: "bool \<Rightarrow> env \<Rightarrow> string \<Rightarrow> bool result" where
  "or_env b env suf = (if b then Inr True else env_bool env suf False)"

section \<open>Lemmas\<close>

lemma from_chars_show_int:
  assumes "ity_signed t \<or> 0 \<le> n" and "ity_lo t \<le> n" and "n \<le> ity_hi t"
    and "r = [] \<or> \<not> is_digit (hd r)"
  shows "from_chars t (show_int n @ r) = Some (n, r)"
proof -
  have r: "takeWhile is_digit r = []" "dropWhile is_digit r = r"
    using assms(4) by (cases r; simp)+
  have hd: "hd (show_nat m @ r) \<noteq> CHR ''-''" for m
    using hd_show_nat_neq_minus [of m] show_nat_nonempty [of m] by (cases "show_nat m") auto
  show ?thesis
    using assms(1-3) r hd
    by (auto simp: from_chars_def show_int_def Let_def dec_simps)
qed

lemma from_chars_Some_parts:
  assumes "from_chars t raw = Some (v, rest)"
  shows "\<exists>digits. digits \<noteq> [] \<and> list_all is_digit digits \<and>
    (raw = digits @ rest \<and> v = int (read_nat digits) \<or>
     ity_signed t \<and> raw = CHR ''-'' # digits @ rest \<and> v = - int (read_nat digits)) \<and>
    ity_lo t \<le> v \<and> v \<le> ity_hi t"
proof -
  have all: "list_all is_digit (takeWhile is_digit b)" for b
    by (auto simp: list_all_iff dest: set_takeWhileD)
  define neg where "neg = (ity_signed t \<and> raw \<noteq> [] \<and> hd raw = CHR ''-'')"
  define body where "body = (if neg then tl raw else raw)"
  define ds where "ds = takeWhile is_digit body"
  define v' where "v' = (if neg then - int (read_nat ds) else int (read_nat ds))"
  have "from_chars t raw =
      (if ds = [] then None
       else if ity_lo t \<le> v' \<and> v' \<le> ity_hi t then Some (v', dropWhile is_digit body) else None)"
    by (simp only: from_chars_def neg_def body_def ds_def v'_def Let_def)
  with assms have facts: "ds \<noteq> []" "v = v'" "ity_lo t \<le> v" "v \<le> ity_hi t"
    and "rest = dropWhile is_digit body"
    by (auto split: if_splits)
  then have body: "body = ds @ rest" by (simp add: ds_def)
  have ds: "list_all is_digit ds" by (simp add: ds_def all)
  show ?thesis
  proof (cases neg)
    case True
    then have "ity_signed t" and "raw = CHR ''-'' # body"
      by (cases raw; simp add: neg_def body_def)+
    with True facts ds body show ?thesis by (intro exI [of _ ds]) (simp add: v'_def)
  next
    case False
    then have "raw = ds @ rest" using body by (simp add: body_def)
    with False facts ds show ?thesis by (intro exI [of _ ds]) (simp add: v'_def)
  qed
qed

lemma from_chars_in_range:
  "from_chars t raw = Some (v, rest) \<Longrightarrow> ity_lo t \<le> v \<and> v \<le> ity_hi t"
  by (auto dest: from_chars_Some_parts)

lemma parse_integer_Inr_iff:
  "parse_integer t raw name = Inr v \<longleftrightarrow> from_chars t raw = Some (v, [])"
  by (auto simp: parse_integer_def split: option.splits prod.splits list.splits)

lemma parse_integer_Inl:
  "parse_integer t raw name = Inl e \<Longrightarrow> e = Panic (''invalid value for '' @ name @ '': '' @ raw)"
  by (auto simp: parse_integer_def split: option.splits prod.splits list.splits)

lemma var_name_inj_prefix:
  "var_name p s = var_name q s \<longleftrightarrow> p = q"
  by (simp add: var_name_def)

lemma make_env_Inr:
  "make_env pre e = Inr v \<longleftrightarrow> pre \<noteq> [] \<and> pre \<noteq> ''DJ'' \<and> v = \<lparr>env_prefix = pre, environ = e\<rparr>"
  by (auto simp: make_env_def result_simps)

lemma env_get_cases:
  "env_get parse v suf =
     (case environ v (var_name (env_prefix v) suf) of
        Some raw \<Rightarrow> bind_result (parse raw (var_name (env_prefix v) suf)) (\<lambda>x. Inr (Some x))
      | None \<Rightarrow>
         (case environ v (var_name ''DJ'' suf) of
            Some raw \<Rightarrow> bind_result (parse raw (var_name ''DJ'' suf)) (\<lambda>x. Inr (Some x))
          | None \<Rightarrow> Inr None))"
  by (auto simp: env_get_def get_with_prefix_def Let_def bind_result_def
      split: option.splits sum.splits)

lemma env_get_or_cases:
  "env_get_or parse v suf d =
     (case environ v (var_name (env_prefix v) suf) of
        Some raw \<Rightarrow> parse raw (var_name (env_prefix v) suf)
      | None \<Rightarrow>
         (case environ v (var_name ''DJ'' suf) of
            Some raw \<Rightarrow> parse raw (var_name ''DJ'' suf)
          | None \<Rightarrow> Inr d))"
  by (auto simp: env_get_or_def env_get_cases bind_result_def split: option.splits sum.splits)

section \<open>Properties\<close>

text \<open>A typed lookup reads the library's own variable first, falls back to the global
  \<^verbatim>\<open>DJ\<close> variable only when the first one is not in the environment (an empty or
  malformed value does not fall through), and uses the default only when neither is there;
  an error names the variable that was read.\<close>

theorem env_lookup_precedence:
  "env_get_or (parse_integer int32_t) v suf d = Inr n \<longleftrightarrow>
     (\<exists>raw. environ v (env_prefix v @ ''_'' @ suf) = Some raw \<and> from_chars int32_t raw = Some (n, [])) \<or>
     environ v (env_prefix v @ ''_'' @ suf) = None \<and>
       ((\<exists>raw. environ v (''DJ_'' @ suf) = Some raw \<and> from_chars int32_t raw = Some (n, [])) \<or>
        environ v (''DJ_'' @ suf) = None \<and> n = d)"
  by (auto simp: env_get_or_cases var_name_def parse_integer_Inr_iff split: option.splits)

text \<open>The integer parser accepts exactly the whole-string decimal literals that fit the
  type: every value in range is read back from its decimal text, and whatever is accepted
  is nothing but an optional minus sign (signed types only) and digits, with a value in
  range; everything else is the error that names the variable and its text.\<close>

theorem parse_integer_exact:
  "(ity_lo int64_t \<le> n \<and> n \<le> ity_hi int64_t \<longrightarrow> parse_integer int64_t (show_int n) name = Inr n) \<and>
   (\<forall>v. parse_integer int64_t raw name = Inr v \<longrightarrow> ity_lo int64_t \<le> v \<and> v \<le> ity_hi int64_t \<and>
      (\<exists>digits. digits \<noteq> [] \<and> list_all is_digit digits \<and>
         (raw = digits \<and> v = int (read_nat digits) \<or> raw = ''-'' @ digits \<and> v = - int (read_nat digits)))) \<and>
   (\<forall>e. parse_integer int64_t raw name = Inl e \<longrightarrow>
      e = Panic (''invalid value for '' @ name @ '': '' @ raw))"
proof (intro conjI allI impI)
  assume "ity_lo int64_t \<le> n \<and> n \<le> ity_hi int64_t"
  then show "parse_integer int64_t (show_int n) name = Inr n"
    using from_chars_show_int[of int64_t n "[]"] by (simp add: parse_integer_Inr_iff int64_t_def)
next
  fix v assume "parse_integer int64_t raw name = Inr v"
  then have fc: "from_chars int64_t raw = Some (v, [])" by (simp add: parse_integer_Inr_iff)
  from from_chars_in_range[OF fc] show "ity_lo int64_t \<le> v" "v \<le> ity_hi int64_t" by simp_all
  from from_chars_Some_parts[OF fc]
  show "\<exists>digits. digits \<noteq> [] \<and> list_all is_digit digits \<and>
      (raw = digits \<and> v = int (read_nat digits) \<or> raw = ''-'' @ digits \<and> v = - int (read_nat digits))"
    by auto
qed (rule parse_integer_Inl)

theorem parse_integer_exact_witness:
  "parse_integer int64_t (show_int (- 42)) ''DJ_N'' = Inr (- 42)"
  using parse_integer_exact[of "- 42" "''DJ_N''" "[]", THEN conjunct1] by (simp add: int64_t_def)

end
