(* ===== verification/Str_Join.thy ===== *)
theory Str_Join
  imports Prelude
begin

text \<open>
  \<^verbatim>\<open>str::join\<close> (\<^verbatim>\<open>utils/str.hpp\<close>), the list separation it inverts, and when a joined
  list can be told apart from another one: the command lines and the flag part of the
  cache key are built with it.
\<close>

text \<open>The loop of \<^verbatim>\<open>join\<close> appends the separator and the next value to the result.\<close>

definition join :: "string list \<Rightarrow> string \<Rightarrow> string" where
  "join values separator =
     (case values of
        [] \<Rightarrow> []
      | v # vs \<Rightarrow> foldl (\<lambda>result value. result @ separator @ value) v vs)"

text \<open>The size that is reserved for the result.\<close>

definition join_reserve :: "string list \<Rightarrow> string \<Rightarrow> nat" where
  "join_reserve values separator =
     foldl (\<lambda>size value. size + length value) (length separator * (length values - 1)) values"

text \<open>The elements between the occurrences of a character.\<close>

function split_on :: "char \<Rightarrow> string \<Rightarrow> string list" where
  "split_on c s =
     (case split_at_char c s of
        (a, None) \<Rightarrow> [a]
      | (a, Some b) \<Rightarrow> a # split_on c b)"
  by pat_completeness auto
termination
  by (relation "measure (\<lambda>(c, s). length s)") (auto dest: split_at_char_length [OF sym])

declare split_on.simps [simp del]

lemma join_foldl:
  "foldl (\<lambda>r v. r @ sep @ v) (p @ a) vs = p @ foldl (\<lambda>r v. r @ sep @ v) a vs"
  by (induction vs arbitrary: a) simp_all

lemma join_simps [simp]:
  "join [] sep = []"
  "join [v] sep = v"
  "join (v # w # vs) sep = v @ sep @ join (w # vs) sep"
proof -
  show "join (v # w # vs) sep = v @ sep @ join (w # vs) sep"
    using join_foldl [of sep "v @ sep" w vs] by (simp add: join_def)
qed (simp_all add: join_def)

lemma join_Cons: "vs \<noteq> [] \<Longrightarrow> join (v # vs) sep = v @ sep @ join vs sep"
  by (cases vs) simp_all

lemma join_append:
  "xs \<noteq> [] \<Longrightarrow> ys \<noteq> [] \<Longrightarrow> join (xs @ ys) sep = join xs sep @ sep @ join ys sep"
proof (induction xs)
  case (Cons x xs)
  then show ?case by (cases "xs = []") (simp_all add: join_Cons)
qed simp

lemma foldl_add_length:
  "foldl (\<lambda>n v. n + length v) k vs = k + length (concat vs)"
  by (induction vs arbitrary: k) simp_all

lemma length_join: "length (join ws sep) = join_reserve ws sep"
proof (induction ws)
  case (Cons v vs)
  then show ?case
    by (cases vs) (simp_all add: join_reserve_def foldl_add_length algebra_simps)
qed (simp add: join_reserve_def)

lemma split_on_notin [simp]: "c \<notin> set s \<Longrightarrow> split_on c s = [s]"
  by (subst split_on.simps) simp

lemma split_on_append [simp]: "c \<notin> set a \<Longrightarrow> split_on c (a @ c # b) = a # split_on c b"
  by (subst split_on.simps) simp

lemma split_on_nonempty [simp]: "split_on c s \<noteq> []"
  by (subst split_on.simps) (simp split: prod.splits option.splits)

lemma split_on_no_sep: "x \<in> set (split_on c s) \<Longrightarrow> c \<notin> set x"
proof (induction c s rule: split_on.induct)
  case (1 c s)
  obtain a r where ar: "split_at_char c s = (a, r)" by fastforce
  show ?case
  proof (cases r)
    case None
    with ar have "a = s" "c \<notin> set s" by (simp_all add: split_at_char_None)
    with "1.prems" show ?thesis by simp
  next
    case (Some b)
    with ar have "s = a @ c # b" "c \<notin> set a" by (simp_all add: split_at_char_Some)
    with "1.prems" "1.IH" [OF ar [symmetric] Some] show ?thesis by auto
  qed
qed

lemma join_split_on: "join (split_on c s) [c] = s"
proof (induction c s rule: split_on.induct)
  case (1 c s)
  obtain a r where ar: "split_at_char c s = (a, r)" by fastforce
  show ?case
  proof (cases r)
    case None
    with ar have "c \<notin> set s" by (simp add: split_at_char_None)
    then show ?thesis by simp
  next
    case (Some b)
    with ar have "s = a @ c # b" "c \<notin> set a" by (simp_all add: split_at_char_Some)
    with "1.IH" [OF ar [symmetric] Some] show ?thesis by (simp add: join_Cons)
  qed
qed

lemma split_on_join:
  "xs \<noteq> [] \<Longrightarrow> \<forall>x \<in> set xs. c \<notin> set x \<Longrightarrow> split_on c (join xs [c]) = xs"
proof (induction xs)
  case (Cons x xs)
  then show ?case by (cases "xs = []") (simp_all add: join_Cons)
qed simp

lemma join_inj:
  assumes "xs \<noteq> []" "ys \<noteq> []"
    and "\<forall>x \<in> set xs. c \<notin> set x" "\<forall>y \<in> set ys. c \<notin> set y"
    and "join xs [c] = join ys [c]"
  shows "xs = ys"
  using assms split_on_join by metis

end
