(* ===== verification/Json.thy ===== *)
theory Json
  imports Str_Join
begin

text \<open>
  The JSON writer of \<^verbatim>\<open>utils/json.hpp\<close>, which writes the \<^verbatim>\<open>meta.json\<close> of every
  artifact, and a reader for compact JSON text (RFC 8259 without insignificant
  whitespace, over bytes) that the writer is proved correct against.
\<close>

section \<open>Values\<close>

datatype json =
    Null
  | Bool bool
  | Int64 "64 word"
  | Uint64 "64 word"
  | Str string
  | Array "json list"
  | Object "(string \<times> json) list"

text \<open>The constructors from \<^verbatim>\<open>std::optional\<close> and \<^verbatim>\<open>std::vector\<close>.\<close>

definition json_optional :: "('a \<Rightarrow> json) \<Rightarrow> 'a option \<Rightarrow> json" where
  "json_optional conv value = (case value of Some v \<Rightarrow> conv v | None \<Rightarrow> Null)"

definition json_vector :: "('a \<Rightarrow> json) \<Rightarrow> 'a list \<Rightarrow> json" where
  "json_vector conv values = Array (map conv values)"

definition json_of_int :: "int \<Rightarrow> json" where
  "json_of_int i = Int64 (word_of_int i)"

section \<open>The writer\<close>

definition lower_hex :: "nat \<Rightarrow> char" where
  "lower_hex d = ''0123456789abcdef'' ! d"

definition escape_char :: "char \<Rightarrow> string" where
  "escape_char c =
     (let n = of_char c :: nat
      in if n = 34 then [char_of (92 :: nat), char_of (34 :: nat)]
         else if n = 92 then [char_of (92 :: nat), char_of (92 :: nat)]
         else if n = 8 then [char_of (92 :: nat), CHR ''b'']
         else if n = 12 then [char_of (92 :: nat), CHR ''f'']
         else if n = 10 then [char_of (92 :: nat), CHR ''n'']
         else if n = 13 then [char_of (92 :: nat), CHR ''r'']
         else if n = 9 then [char_of (92 :: nat), CHR ''t'']
         else if n < 32
           then [char_of (92 :: nat), CHR ''u'', CHR ''0'', CHR ''0'', lower_hex (n div 16), lower_hex (n mod 16)]
         else [c])"

definition dump_string :: "string \<Rightarrow> string \<Rightarrow> string" where
  "dump_string output value =
     foldl (\<lambda>out c. out @ escape_char c) (output @ [char_of (34 :: nat)]) value @ [char_of (34 :: nat)]"

fun dump_to :: "json \<Rightarrow> string \<Rightarrow> string"
  and dump_items :: "json list \<Rightarrow> bool \<Rightarrow> string \<Rightarrow> string"
  and dump_fields :: "(string \<times> json) list \<Rightarrow> bool \<Rightarrow> string \<Rightarrow> string" where
  "dump_to Null output = output @ ''null''"
| "dump_to (Bool b) output = output @ (if b then ''true'' else ''false'')"
| "dump_to (Int64 w) output = output @ show_int (sint w)"
| "dump_to (Uint64 w) output = output @ show_int (uint w)"
| "dump_to (Str s) output = dump_string output s"
| "dump_to (Array xs) output = dump_items xs True (output @ ''['') @ '']''"
| "dump_to (Object fs) output = dump_fields fs True (output @ ''{'') @ ''}''"
| "dump_items [] first output = output"
| "dump_items (x # xs) first output =
     dump_items xs False (dump_to x (if first then output else output @ '',''))"
| "dump_fields [] first output = output"
| "dump_fields ((key, x) # fs) first output =
     dump_fields fs False
       (dump_to x (dump_string (if first then output else output @ '','') key @ '':''))"

definition dump :: "json \<Rightarrow> string" where
  "dump j = dump_to j []"

section \<open>A reader\<close>

text \<open>The two integer alternatives denote the same JSON numbers.\<close>

datatype jval =
    VNull
  | VBool bool
  | VNum int
  | VStr string
  | VArr "jval list"
  | VObj "(string \<times> jval) list"

fun meaning :: "json \<Rightarrow> jval" where
  "meaning Null = VNull"
| "meaning (Bool b) = VBool b"
| "meaning (Int64 w) = VNum (sint w)"
| "meaning (Uint64 w) = VNum (uint w)"
| "meaning (Str s) = VStr s"
| "meaning (Array xs) = VArr (map meaning xs)"
| "meaning (Object fs) = VObj (map (\<lambda>(k, x). (k, meaning x)) fs)"

definition hex_value :: "char \<Rightarrow> nat option" where
  "hex_value c =
     (if is_digit c then Some (digit_val c)
      else let n = of_char c :: nat
           in if 97 \<le> n \<and> n \<le> 102 then Some (n - 87)
              else if 65 \<le> n \<and> n \<le> 70 then Some (n - 55) else None)"

definition read_simple_escape :: "char \<Rightarrow> char option" where
  "read_simple_escape e =
     map_of [(char_of (34 :: nat), char_of (34 :: nat)), (char_of (92 :: nat), char_of (92 :: nat)),
             (CHR ''/'', CHR ''/''),
             (CHR ''b'', char_of (8 :: nat)), (CHR ''f'', char_of (12 :: nat)),
             (CHR ''n'', char_of (10 :: nat)), (CHR ''r'', char_of (13 :: nat)),
             (CHR ''t'', char_of (9 :: nat))] e"

definition read_unicode :: "char \<Rightarrow> char \<Rightarrow> char \<Rightarrow> char \<Rightarrow> char option" where
  "read_unicode a b c d =
     (case (hex_value a, hex_value b, hex_value c, hex_value d) of
        (Some 0, Some 0, Some h, Some l) \<Rightarrow> Some (char_of (16 * h + l))
      | _ \<Rightarrow> None)"

text \<open>One character of a string literal, escaped or not, that is not the closing quote.\<close>

definition read_char :: "string \<Rightarrow> (char \<times> string) option" where
  "read_char s =
     (case s of
        [] \<Rightarrow> None
      | c # r \<Rightarrow>
          if c = char_of (92 :: nat) then
            (case r of
               e # r' \<Rightarrow>
                 if e = CHR ''u'' then
                   (case r' of
                      h1 # h2 # h3 # h4 # r'' \<Rightarrow>
                        map_option (\<lambda>x. (x, r'')) (read_unicode h1 h2 h3 h4)
                    | _ \<Rightarrow> None)
                 else map_option (\<lambda>x. (x, r')) (read_simple_escape e)
             | [] \<Rightarrow> None)
          else if (of_char c :: nat) < 32 \<or> c = char_of (34 :: nat) then None
          else Some (c, r))"

fun read_chars :: "nat \<Rightarrow> string \<Rightarrow> (string \<times> string) option" where
  "read_chars 0 s = None"
| "read_chars (Suc n) s =
     (case s of
        [] \<Rightarrow> None
      | c # r \<Rightarrow>
          if c = char_of (34 :: nat) then Some ([], r)
          else (case read_char s of
                  None \<Rightarrow> None
                | Some (x, r') \<Rightarrow> map_option (\<lambda>(xs, r''). (x # xs, r'')) (read_chars n r')))"

definition read_string :: "string \<Rightarrow> (string \<times> string) option" where
  "read_string s =
     (case s of
        [] \<Rightarrow> None
      | c # r \<Rightarrow> if c = char_of (34 :: nat) then read_chars (length r) r else None)"

definition read_number :: "string \<Rightarrow> (int \<times> string) option" where
  "read_number s =
     (let neg = (s \<noteq> [] \<and> hd s = CHR ''-''); body = (if neg then tl s else s);
          ds = takeWhile is_digit body
      in if ds = [] then None
         else Some (if neg then - int (read_nat ds) else int (read_nat ds), dropWhile is_digit body))"

fun read_value :: "nat \<Rightarrow> string \<Rightarrow> (jval \<times> string) option"
  and read_items :: "nat \<Rightarrow> string \<Rightarrow> (jval list \<times> string) option"
  and read_fields :: "nat \<Rightarrow> string \<Rightarrow> ((string \<times> jval) list \<times> string) option" where
  "read_value 0 s = None"
| "read_value (Suc n) s =
     (if prefix ''null'' s then Some (VNull, drop 4 s)
      else if prefix ''true'' s then Some (VBool True, drop 4 s)
      else if prefix ''false'' s then Some (VBool False, drop 5 s)
      else if prefix ''[]'' s then Some (VArr [], drop 2 s)
      else if prefix ''{}'' s then Some (VObj [], drop 2 s)
      else if prefix ''['' s then map_option (\<lambda>(xs, r). (VArr xs, r)) (read_items n (tl s))
      else if prefix ''{'' s then map_option (\<lambda>(fs, r). (VObj fs, r)) (read_fields n (tl s))
      else if prefix [char_of (34 :: nat)] s then map_option (\<lambda>(x, r). (VStr x, r)) (read_string s)
      else map_option (\<lambda>(x, r). (VNum x, r)) (read_number s))"
| "read_items 0 s = None"
| "read_items (Suc n) s =
     (case read_value n s of
        None \<Rightarrow> None
      | Some (x, r) \<Rightarrow>
          if prefix '','' r then map_option (\<lambda>(xs, r'). (x # xs, r')) (read_items n (tl r))
          else if prefix '']'' r then Some ([x], tl r) else None)"
| "read_fields 0 s = None"
| "read_fields (Suc n) s =
     (case read_string s of
        None \<Rightarrow> None
      | Some (k, r) \<Rightarrow>
          if prefix '':'' r then
            (case read_value n (tl r) of
               None \<Rightarrow> None
             | Some (x, r') \<Rightarrow>
                 if prefix '','' r' then map_option (\<lambda>(fs, r''). ((k, x) # fs, r'')) (read_fields n (tl r'))
                 else if prefix ''}'' r' then Some ([(k, x)], tl r') else None)
          else None)"

definition read_json :: "string \<Rightarrow> jval option" where
  "read_json s =
     (case read_value (length s) s of Some (v, []) \<Rightarrow> Some v | _ \<Rightarrow> None)"

section \<open>The text of a value\<close>

lemma dump_string_eq:
  "dump_string out v = out @ char_of (34 :: nat) # concat (map escape_char v) @ [char_of (34 :: nat)]"
proof -
  have "foldl (\<lambda>o' c. o' @ escape_char c) p v = p @ concat (map escape_char v)" for p
    by (induction v arbitrary: p) simp_all
  then show ?thesis by (simp add: dump_string_def)
qed

lemma dump_to_append:
  "dump_to j (p @ out) = p @ dump_to j out"
  "dump_items xs first (p @ out) = p @ dump_items xs first out"
  "dump_fields fs first (p @ out) = p @ dump_fields fs first out"
proof (induction j out and xs first out and fs first out
    rule: dump_to_dump_items_dump_fields.induct)
  case (9 x xs first out')
  then show ?case by (cases first) simp_all
next
  case (11 key x fs first out')
  have "dump_string (p @ o') key = p @ dump_string o' key" for o' by (simp add: dump_string_eq)
  with 11 show ?case by (cases first) simp_all
qed (simp_all add: dump_string_eq)

lemma dump_to_eq: "dump_to j out = out @ dump j"
  using dump_to_append(1) [of j out "[]"] by (simp add: dump_def)

lemma dump_items_eq:
  "dump_items xs first out = out @ (if first \<or> xs = [] then [] else '','') @ join (map dump xs) '',''"
  by (induction xs arbitrary: first out) (auto simp: dump_to_eq join_Cons)

definition field_text :: "string \<times> json \<Rightarrow> string" where
  "field_text f = dump_string [] (fst f) @ '':'' @ dump (snd f)"

lemma field_text_pair: "field_text (k, x) = dump_string [] k @ '':'' @ dump x"
  by (simp add: field_text_def)

lemma dump_fields_eq:
  "dump_fields fs first out = out @ (if first \<or> fs = [] then [] else '','') @ join (map field_text fs) '',''"
proof (induction fs arbitrary: first out)
  case (Cons f fs)
  then show ?case
    by (cases f) (auto simp: dump_to_eq join_Cons field_text_def dump_string_eq)
qed simp

lemma dump_simps [simp]:
  "dump Null = ''null''"
  "dump (Bool b) = (if b then ''true'' else ''false'')"
  "dump (Int64 w) = show_int (sint w)"
  "dump (Uint64 w) = show_int (uint w)"
  "dump (Str s) = dump_string [] s"
  "dump (Array xs) = ''['' @ join (map dump xs) '','' @ '']''"
  "dump (Object fs) = ''{'' @ join (map field_text fs) '','' @ ''}''"
  by (simp_all add: dump_def dump_items_eq dump_fields_eq)

section \<open>Reading strings and numbers back\<close>

lemma of_char_eqD: "(of_char c :: nat) = n \<Longrightarrow> c = char_of n"
  by (metis char_of_char)

lemma hex_value_lower_hex:
  assumes "d < 16"
  shows "hex_value (lower_hex d) = Some d"
proof -
  have "\<forall>d \<in> set [0..<16]. hex_value (lower_hex d) = Some d"
    by code_simp
  with assms show ?thesis by simp
qed

lemma read_unicode_lower_hex:
  assumes "n < 256"
  shows "read_unicode CHR ''0'' CHR ''0'' (lower_hex (n div 16)) (lower_hex (n mod 16)) = Some (char_of n)"
proof -
  have "hex_value CHR ''0'' = Some 0" by code_simp
  moreover have "n div 16 < 16" using assms by simp
  ultimately show ?thesis
    by (simp add: read_unicode_def hex_value_lower_hex)
qed

lemma read_simple_escape_values:
  "read_simple_escape (char_of (34 :: nat)) = Some (char_of (34 :: nat))"
  "read_simple_escape (char_of (92 :: nat)) = Some (char_of (92 :: nat))"
  "read_simple_escape CHR ''b'' = Some (char_of (8 :: nat))"
  "read_simple_escape CHR ''f'' = Some (char_of (12 :: nat))"
  "read_simple_escape CHR ''n'' = Some (char_of (10 :: nat))"
  "read_simple_escape CHR ''r'' = Some (char_of (13 :: nat))"
  "read_simple_escape CHR ''t'' = Some (char_of (9 :: nat))"
  by code_simp+

lemma quote_backslash_neq:
  "char_of (34 :: nat) \<noteq> CHR ''u''" "char_of (92 :: nat) \<noteq> CHR ''u''"
  by code_simp+

lemma read_char_simple:
  "read_char (char_of (92 :: nat) # char_of (34 :: nat) # r) = Some (char_of (34 :: nat), r)"
  "read_char (char_of (92 :: nat) # char_of (92 :: nat) # r) = Some (char_of (92 :: nat), r)"
  "read_char (char_of (92 :: nat) # CHR ''b'' # r) = Some (char_of (8 :: nat), r)"
  "read_char (char_of (92 :: nat) # CHR ''f'' # r) = Some (char_of (12 :: nat), r)"
  "read_char (char_of (92 :: nat) # CHR ''n'' # r) = Some (char_of (10 :: nat), r)"
  "read_char (char_of (92 :: nat) # CHR ''r'' # r) = Some (char_of (13 :: nat), r)"
  "read_char (char_of (92 :: nat) # CHR ''t'' # r) = Some (char_of (9 :: nat), r)"
  by (simp_all only: read_char_def list.case if_True if_False refl quote_backslash_neq
      read_simple_escape_values option.map char.inject simp_thms)

lemma read_char_escape: "read_char (escape_char c @ r) = Some (c, r)"
proof -
  define n where "n = (of_char c :: nat)"
  have c: "c = char_of n" and n: "n < 256"
    unfolding n_def using of_char_less_256 [of c] by (simp_all only: char_of_char)
  consider (simple) "n \<in> {34, 92, 8, 12, 10, 13, 9}"
    | (control) "n \<notin> {34, 92, 8, 12, 10, 13, 9}" "n < 32"
    | (plain) "n \<notin> {34, 92, 8, 12, 10, 13, 9}" "\<not> n < 32" by blast
  then show ?thesis
  proof cases
    case simple
    then show ?thesis
      unfolding escape_char_def Let_def n_def [symmetric]
      by (elim insertE emptyE; simp add: c read_char_simple)
  next
    case control
    then show ?thesis
      using read_unicode_lower_hex [OF n] c
      unfolding escape_char_def Let_def n_def [symmetric] by (simp add: read_char_def)
  next
    case plain
    then have "c \<noteq> char_of (34 :: nat)" "c \<noteq> char_of (92 :: nat)"
      unfolding n_def by auto
    with plain show ?thesis
      unfolding escape_char_def Let_def n_def [symmetric]
      by (simp add: read_char_def n_def [symmetric])
  qed
qed

lemma escape_char_head: "\<exists>e t. escape_char c = e # t \<and> e \<noteq> char_of (34 :: nat)"
proof (cases "(of_char c :: nat) = 34")
  case True
  moreover have "char_of (92 :: nat) \<noteq> (char_of (34 :: nat) :: char)" by code_simp
  ultimately show ?thesis by (simp add: escape_char_def Let_def)
next
  case False
  then have "c \<noteq> char_of (34 :: nat)" by auto
  moreover have "char_of (92 :: nat) \<noteq> (char_of (34 :: nat) :: char)" by code_simp
  ultimately show ?thesis by (simp add: escape_char_def Let_def)
qed

lemma read_chars_escape:
  "length v < n \<Longrightarrow>
   read_chars n (concat (map escape_char v) @ char_of (34 :: nat) # r) = Some (v, r)"
proof (induction v arbitrary: n)
  case Nil
  then show ?case by (cases n) simp_all
next
  case (Cons c v)
  then obtain m where n: "n = Suc m" "length v < m" by (cases n) auto
  define t where "t = concat (map escape_char v) @ char_of (34 :: nat) # r"
  obtain e t' where e: "escape_char c = e # t'" "e \<noteq> char_of (34 :: nat)"
    using escape_char_head by blast
  have "read_char (e # t' @ t) = Some (c, t)"
    using read_char_escape [of c t] e(1) by simp
  moreover have "read_chars m t = Some (v, r)"
    using Cons.IH [OF n(2)] by (simp add: t_def)
  ultimately have "read_chars n (e # t' @ t) = Some (c # v, r)"
    using e(2) by (simp add: n(1))
  then show ?case by (simp add: e(1) t_def)
qed

lemma length_escape: "length v \<le> length (concat (map escape_char v))"
proof (induction v)
  case (Cons c v)
  obtain e t where "escape_char c = e # t" using escape_char_head by blast
  with Cons show ?case by simp
qed simp

lemma read_string_dump: "read_string (dump_string [] v @ r) = Some (v, r)"
  using length_escape [of v] by (simp add: read_string_def dump_string_eq read_chars_escape del: read_chars.simps)

definition no_digit :: "string \<Rightarrow> bool" where
  "no_digit r \<longleftrightarrow> r = [] \<or> \<not> is_digit (hd r)"

lemma read_number_show_int:
  assumes "no_digit r"
  shows "read_number (show_int i @ r) = Some (i, r)"
proof -
  have r: "takeWhile is_digit r = []" "dropWhile is_digit r = r"
    using assms unfolding no_digit_def by (cases r; simp)+
  have hd: "hd (show_nat m @ r) \<noteq> CHR ''-''" for m
    using hd_show_nat_neq_minus [of m] show_nat_nonempty [of m] by (cases "show_nat m") auto
  show ?thesis
    using r hd by (auto simp: read_number_def show_int_def Let_def dec_simps takeWhile_is_digit_show_nat)
qed

section \<open>The round trip\<close>

definition number_head :: "char \<Rightarrow> bool" where
  "number_head c \<longleftrightarrow> is_digit c \<or> c = CHR ''-''"

lemma show_int_head: "\<exists>c t. show_int i = c # t \<and> number_head c"
proof (cases "i < 0")
  case False
  then show ?thesis
    using show_nat_nonempty [of "nat i"] show_nat_digits [of "nat i"]
    by (cases "show_nat (nat i)") (auto simp: show_int_def number_head_def)
qed (simp add: show_int_def number_head_def)

lemma quote_neq:
  "char_of (34 :: nat) \<noteq> CHR ''n''" "char_of (34 :: nat) \<noteq> CHR ''t''"
  "char_of (34 :: nat) \<noteq> CHR ''f''" "char_of (34 :: nat) \<noteq> CHR ''[''"
  "char_of (34 :: nat) \<noteq> CHR ''{''" "char_of (34 :: nat) \<noteq> CHR '']''"
  "char_of (34 :: nat) \<noteq> CHR ''}''" "char_of (34 :: nat) \<noteq> CHR ''-''"
  by code_simp+

lemma number_head_neq:
  assumes "number_head c"
  shows "c \<noteq> CHR ''n''" "c \<noteq> CHR ''t''" "c \<noteq> CHR ''f''" "c \<noteq> CHR ''[''"
    "c \<noteq> CHR ''{''" "c \<noteq> char_of (34 :: nat)" "c \<noteq> CHR '']''" "c \<noteq> CHR ''}''"
  using assms quote_neq by (auto simp: number_head_def is_digit_def)

lemma read_value_number:
  assumes "no_digit r"
  shows "read_value (Suc n) (show_int i @ r) = Some (VNum i, r)"
proof -
  obtain c t where ct: "show_int i = c # t" "number_head c" using show_int_head by blast
  show ?thesis
    using read_number_show_int [OF assms, of i] number_head_neq [OF ct(2)] by (simp add: ct(1))
qed

lemma read_value_string: "read_value (Suc n) (dump_string [] v @ r) = Some (VStr v, r)"
proof -
  obtain t where t: "dump_string [] v = char_of (34 :: nat) # t" by (simp add: dump_string_eq)
  show ?thesis
    using read_string_dump [of v r] quote_neq [symmetric] by (simp add: t)
qed

lemma dump_head: "\<exists>c t. dump j = c # t \<and> c \<noteq> CHR '']'' \<and> c \<noteq> CHR ''}''"
proof (cases j)
  case (Int64 w)
  then show ?thesis using show_int_head [of "sint w"] number_head_neq by fastforce
next
  case (Uint64 w)
  then show ?thesis using show_int_head [of "uint w"] number_head_neq by fastforce
next
  case (Str v)
  then show ?thesis using quote_neq by (simp add: dump_string_eq)
qed auto

lemma length_dump_pos: "0 < length (dump j)"
  using dump_head [of j] by auto

lemma comma_no_digit: "no_digit (CHR '','' # r)" "no_digit (CHR '']'' # r)" "no_digit (CHR ''}'' # r)"
  by (simp_all add: no_digit_def is_digit_def)

lemma read_items_join:
  assumes "\<And>x n r. x \<in> set xs \<Longrightarrow> length (dump x) \<le> n \<Longrightarrow> no_digit r \<Longrightarrow>
      read_value n (dump x @ r) = Some (meaning x, r)"
    and "xs \<noteq> []" and "length (join (map dump xs) '','') < n"
  shows "read_items n (join (map dump xs) '','' @ CHR '']'' # r) = Some (map meaning xs, r)"
  using assms
proof (induction xs arbitrary: n)
  case (Cons x xs)
  obtain m where n: "n = Suc m" using Cons.prems(3) by (cases n) auto
  show ?case
  proof (cases "xs = []")
    case True
    have "length (dump x) \<le> m" using Cons.prems(3) True n by simp
    with Cons.prems(1) [of x m "CHR '']'' # r"] True show ?thesis
      by (simp add: n comma_no_digit)
  next
    case False
    have "length (dump x) \<le> m" and m: "length (join (map dump xs) '','') < m"
      using Cons.prems(3) False n by (simp_all add: join_Cons)
    moreover have "read_items m (join (map dump xs) '','' @ CHR '']'' # r) = Some (map meaning xs, r)"
      using Cons.prems(1) False m by (intro Cons.IH) auto
    ultimately show ?thesis
      using Cons.prems(1) [of x m "CHR '','' # join (map dump xs) '','' @ CHR '']'' # r"] False
      by (simp add: n comma_no_digit join_Cons)
  qed
qed simp

lemma read_fields_join:
  assumes "\<And>k x n r. (k, x) \<in> set fs \<Longrightarrow> length (dump x) \<le> n \<Longrightarrow> no_digit r \<Longrightarrow>
      read_value n (dump x @ r) = Some (meaning x, r)"
    and "fs \<noteq> []" and "length (join (map field_text fs) '','') < n"
  shows "read_fields n (join (map field_text fs) '','' @ CHR ''}'' # r) =
    Some (map (\<lambda>(k, x). (k, meaning x)) fs, r)"
  using assms
proof (induction fs arbitrary: n)
  case (Cons f fs)
  obtain m where n: "n = Suc m" using Cons.prems(3) by (cases n) auto
  obtain k x where f: "f = (k, x)" by fastforce
  have len: "length (dump x) \<le> length (field_text f)" by (simp add: f field_text_def)
  show ?case
  proof (cases "fs = []")
    case True
    have "length (dump x) \<le> m" using Cons.prems(3) len True n by simp
    with Cons.prems(1) [of k x m "CHR ''}'' # r"] True show ?thesis
      by (simp add: n f field_text_pair read_string_dump comma_no_digit)
  next
    case False
    have "length (dump x) \<le> m" and m: "length (join (map field_text fs) '','') < m"
      using Cons.prems(3) len False n by (simp_all add: join_Cons)
    moreover have "read_fields m (join (map field_text fs) '','' @ CHR ''}'' # r) =
        Some (map (\<lambda>(k, x). (k, meaning x)) fs, r)"
      using Cons.prems(1) False m by (intro Cons.IH) auto
    ultimately show ?thesis
      using Cons.prems(1) [of k x m "CHR '','' # join (map field_text fs) '','' @ CHR ''}'' # r"] False
      by (simp add: n f field_text_pair read_string_dump comma_no_digit join_Cons)
  qed
qed simp

lemma join_dump_head:
  assumes "xs \<noteq> []"
  shows "\<exists>c t. join (map dump xs) '','' = c # t \<and> c \<noteq> CHR '']''"
proof -
  obtain y ys where xs: "xs = y # ys" using assms by (cases xs) auto
  obtain c t where "dump y = c # t" "c \<noteq> CHR '']''" using dump_head by blast
  then show ?thesis by (cases "ys = []") (simp_all add: xs join_Cons)
qed

lemma join_field_head:
  assumes "fs \<noteq> []"
  shows "\<exists>t. join (map field_text fs) '','' = char_of (34 :: nat) # t"
proof -
  obtain y ys where fs: "fs = y # ys" using assms by (cases fs) auto
  then show ?thesis by (cases "ys = []") (simp_all add: join_Cons field_text_def dump_string_eq)
qed

lemma read_value_dump:
  "length (dump j) \<le> n \<Longrightarrow> no_digit r \<Longrightarrow> read_value n (dump j @ r) = Some (meaning j, r)"
proof (induction j arbitrary: n r)
  case (Int64 w)
  then show ?case using length_dump_pos [of "Int64 w"] by (cases n) (simp_all add: read_value_number del: read_value.simps)
next
  case (Uint64 w)
  then show ?case using length_dump_pos [of "Uint64 w"] by (cases n) (simp_all add: read_value_number del: read_value.simps)
next
  case (Str v)
  then show ?case using length_dump_pos [of "Str v"] by (cases n) (simp_all add: read_value_string del: read_value.simps)
next
  case (Array xs)
  then obtain m where n: "n = Suc m" using length_dump_pos [of "Array xs"] by (cases n) auto
  show ?case
  proof (cases "xs = []")
    case False
    obtain c t where ct: "join (map dump xs) '','' = c # t" "c \<noteq> CHR '']''"
      using join_dump_head [OF False] by blast
    have "read_items m (join (map dump xs) '','' @ CHR '']'' # r) = Some (map meaning xs, r)"
      using Array False n by (intro read_items_join) simp_all
    with ct show ?thesis by (simp add: n)
  qed (simp add: n)
next
  case (Object fs)
  then obtain m where n: "n = Suc m" using length_dump_pos [of "Object fs"] by (cases n) auto
  show ?case
  proof (cases "fs = []")
    case False
    obtain t where t: "join (map field_text fs) '','' = char_of (34 :: nat) # t"
      using join_field_head [OF False] by blast
    have "read_fields m (join (map field_text fs) '','' @ CHR ''}'' # r) =
        Some (map (\<lambda>(k, x). (k, meaning x)) fs, r)"
    proof (rule read_fields_join)
      fix k x n' r'
      assume kx: "(k, x) \<in> set fs" and "length (dump x) \<le> n'" "no_digit r'"
      then show "read_value n' (dump x @ r') = Some (meaning x, r')"
        by (intro Object.IH [of "(k, x)"]) auto
    qed (use Object.prems False n in simp_all)
    with t quote_neq show ?thesis by (simp add: n)
  qed (simp add: n)
next
  case Null
  then show ?case by (cases n) simp_all
next
  case (Bool b)
  then show ?case by (cases n; cases b) simp_all
qed

lemma read_json_dump: "read_json (dump j) = Some (meaning j)"
  using read_value_dump [of j "length (dump j)" "[]"] by (simp add: read_json_def no_digit_def)

lemma escape_char_printable: "e \<in> set (escape_char c) \<Longrightarrow> 32 \<le> (of_char e :: nat)"
proof -
  have hex: "32 \<le> (of_char (lower_hex d) :: nat)" if "d < 16" for d
  proof -
    have "\<forall>d \<in> set [0..<16]. 32 \<le> (of_char (lower_hex d) :: nat)" by code_simp
    with that show ?thesis by simp
  qed
  assume "e \<in> set (escape_char c)"
  then show ?thesis
    using hex [of "of_char c div 16"] hex [of "of_char c mod 16"]
    by (auto simp: escape_char_def Let_def split: if_splits)
qed

section \<open>Properties\<close>

text \<open>C40: What \<^verbatim>\<open>dump\<close> writes is JSON for the value it was given: a JSON reader accepts
  the whole text and returns the same value, with every string (quotes, backslashes and
  control characters included) and every 64-bit integer intact.\<close>

theorem dump_round_trip: "read_json (dump j) = Some (meaning j)"
  by (rule read_json_dump)

text \<open>The text of a string is one line of printable characters between two quotes: no
  byte below the space is left in it.\<close>

theorem dump_string_printable:
  "\<forall>c \<in> set (dump (Str s)). 32 \<le> (of_char c :: nat)"
  using escape_char_printable by (auto simp: dump_simps dump_string_eq)

theorem dump_string_printable_witness:
  "32 \<le> (of_char (hd (dump (Str [char_of (10 :: nat)]))) :: nat)"
proof -
  have "dump (Str s) \<noteq> []" for s by (simp add: dump_simps dump_string_eq)
  then show ?thesis using dump_string_printable[of "[char_of (10 :: nat)]"] hd_in_set by blast
qed

end
