(* ===== verification/Paths.thy ===== *)
theory Paths
  imports Str_Join
begin

text \<open>
  The lexical operations of \<^verbatim>\<open>std::filesystem::path\<close> on POSIX that the code uses. A
  path is its native string; \<^verbatim>\<open>path.string()\<close> is the identity. The normal form of
  \<^verbatim>\<open>lexically_normal\<close> is proved to be one: normalising twice changes nothing.
\<close>

type_synonym path = string

definition slash :: char where
  "slash = CHR ''/''"

definition is_absolute :: "path \<Rightarrow> bool" where
  "is_absolute p \<longleftrightarrow> prefix [slash] p"

definition has_filename :: "path \<Rightarrow> bool" where
  "has_filename p \<longleftrightarrow> p \<noteq> [] \<and> last p \<noteq> slash"

text \<open>\<^verbatim>\<open>p / q\<close>\<close>

definition path_append :: "path \<Rightarrow> path \<Rightarrow> path" where
  "path_append p q =
     (if is_absolute q then q
      else if has_filename p then p @ slash # q
      else p @ q)"

text \<open>The nonempty elements between the separators.\<close>

definition path_names :: "path \<Rightarrow> string list" where
  "path_names p = filter (\<lambda>x. x \<noteq> []) (split_on slash p)"

text \<open>
  \<^verbatim>\<open>lexically_normal\<close>: a dot is dropped, a dot-dot removes the name before it or, under
  the root directory, is dropped. The flag says whether the last element left a
  trailing separator behind.
\<close>

definition norm_step :: "bool \<Rightarrow> string list \<times> bool \<Rightarrow> string \<Rightarrow> string list \<times> bool" where
  "norm_step absolute st x =
     (case st of (names, _) \<Rightarrow>
        if x = ''.'' then (names, True)
        else if x = ''..'' then
          (if names \<noteq> [] \<and> last names \<noteq> ''..'' then (butlast names, True)
           else if absolute then (names, True)
           else (names @ [x], False))
        else (names @ [x], False))"

definition norm_names :: "bool \<Rightarrow> string list \<Rightarrow> string list \<times> bool" where
  "norm_names absolute xs = foldl (norm_step absolute) ([], False) xs"

definition path_text :: "bool \<Rightarrow> string list \<Rightarrow> bool \<Rightarrow> path" where
  "path_text absolute names trailing =
     (let p = (if absolute then [slash] else []) @ join names [slash] @
              (if trailing \<and> names \<noteq> [] \<and> last names \<noteq> ''..'' then [slash] else [])
      in if p = [] then ''.'' else p)"

definition lexically_normal :: "path \<Rightarrow> path" where
  "lexically_normal p =
     (if p = [] then []
      else let (names, trailing) = norm_names (is_absolute p) (path_names p)
           in path_text (is_absolute p) names (trailing \<or> last p = slash))"

definition parent_path :: "path \<Rightarrow> path" where
  "parent_path p =
     (if \<forall>c \<in> set p. c = slash then p
      else let q = rev (dropWhile (\<lambda>c. c = slash) (dropWhile (\<lambda>c. c \<noteq> slash) (rev p)))
           in if q = [] \<and> is_absolute p then [slash] else q)"

text \<open>\<^verbatim>\<open>std::filesystem::absolute\<close>, relative to the working directory.\<close>

definition absolute_path :: "path \<Rightarrow> path \<Rightarrow> path" where
  "absolute_path cwd p = (if p = [] then [] else path_append cwd p)"

text \<open>\<^verbatim>\<open>normalize_path\<close> of \<^verbatim>\<open>utils/filesystem.hpp\<close>.\<close>

definition normalize_path :: "path \<Rightarrow> path option \<Rightarrow> path option" where
  "normalize_path cwd p =
     (case p of
        None \<Rightarrow> None
      | Some q \<Rightarrow> if q = [] then None else Some (lexically_normal (absolute_path cwd q)))"

section \<open>Joining paths\<close>

lemma path_append_absolute: "is_absolute q \<Longrightarrow> path_append p q = q"
  by (simp add: path_append_def)

lemma is_absolute_append: "is_absolute p \<Longrightarrow> is_absolute (path_append p q)"
  by (auto simp: path_append_def is_absolute_def)

lemma is_absolute_append_left: "p \<noteq> [] \<Longrightarrow> is_absolute (p @ q) = is_absolute p"
  by (cases p) (simp_all add: is_absolute_def)

lemma is_absolute_path_append_iff:
  "is_absolute (path_append p q) \<longleftrightarrow> is_absolute q \<or> is_absolute p"
  by (cases p) (auto simp: path_append_def is_absolute_def has_filename_def)

lemma path_names_Nil [simp]: "path_names [] = []"
  by (simp add: path_names_def)

lemma split_on_append_sep: "split_on c (a @ c # b) = split_on c a @ split_on c b"
proof (induction c a rule: split_on.induct)
  case (1 c a)
  obtain x r where xr: "split_at_char c a = (x, r)" by fastforce
  show ?case
  proof (cases r)
    case None
    with xr have "c \<notin> set a" by (simp add: split_at_char_None)
    then show ?thesis by simp
  next
    case (Some b')
    with xr have "a = x @ c # b'" "c \<notin> set x" by (simp_all add: split_at_char_Some)
    with "1.IH" [OF xr [symmetric] Some] show ?thesis by simp
  qed
qed

lemma path_names_append:
  assumes "\<not> is_absolute q"
  shows "path_names (path_append p q) = path_names p @ path_names q"
proof (cases "has_filename p")
  case True
  with assms show ?thesis by (simp add: path_append_def path_names_def split_on_append_sep)
next
  case False
  then consider "p = []" | p' where "p = p' @ [slash]"
    by (cases p rule: rev_cases) (auto simp: has_filename_def)
  then show ?thesis
  proof cases
    case 2
    then have "path_append p q = p' @ slash # q" using assms False by (simp add: path_append_def)
    then show ?thesis by (simp add: 2 path_names_def split_on_append_sep)
  qed (use assms in \<open>simp add: path_append_def has_filename_def\<close>)
qed

lemma path_names_plain: "slash \<notin> set x \<Longrightarrow> x \<noteq> [] \<Longrightarrow> path_names x = [x]"
  by (simp add: path_names_def)

lemma path_names_no_slash: "x \<in> set (path_names p) \<Longrightarrow> slash \<notin> set x \<and> x \<noteq> []"
  by (auto simp: path_names_def dest: split_on_no_sep)

section \<open>Normal forms\<close>

text \<open>Names that normalisation leaves alone: no dot, and dot-dots only at the front.\<close>

definition norm_form :: "bool \<Rightarrow> string list \<Rightarrow> bool" where
  "norm_form absolute names \<longleftrightarrow>
     (\<forall>x \<in> set names. x \<noteq> [] \<and> slash \<notin> set x \<and> x \<noteq> ''.'') \<and>
     (absolute \<longrightarrow> ''..'' \<notin> set names) \<and>
     (\<forall>i. Suc i < length names \<longrightarrow> names ! Suc i = ''..'' \<longrightarrow> names ! i = ''..'')"

lemma norm_form_Nil [simp]: "norm_form b []"
  by (simp add: norm_form_def)

lemma norm_form_snoc:
  "norm_form b (xs @ [x]) \<longleftrightarrow>
     norm_form b xs \<and> x \<noteq> [] \<and> slash \<notin> set x \<and> x \<noteq> ''.'' \<and>
     (b \<longrightarrow> x \<noteq> ''..'') \<and> (x = ''..'' \<longrightarrow> xs = [] \<or> last xs = ''..'')"
proof -
  have "(\<forall>i. Suc i < length (xs @ [x]) \<longrightarrow> (xs @ [x]) ! Suc i = ''..'' \<longrightarrow> (xs @ [x]) ! i = ''..'') \<longleftrightarrow>
    (\<forall>i. Suc i < length xs \<longrightarrow> xs ! Suc i = ''..'' \<longrightarrow> xs ! i = ''..'') \<and>
    (x = ''..'' \<longrightarrow> xs = [] \<or> last xs = ''..'')"
    (is "?L \<longleftrightarrow> ?A \<and> ?B")
  proof
    assume L: ?L
    have ?A
    proof (intro allI impI)
      fix i assume "Suc i < length xs" "xs ! Suc i = ''..''"
      with L [rule_format, of i] show "xs ! i = ''..''" by (simp add: nth_append)
    qed
    moreover have ?B
      using L [rule_format, of "length xs - 1"]
      by (cases "xs = []") (auto simp: nth_append last_conv_nth)
    ultimately show "?A \<and> ?B" ..
  next
    assume AB: "?A \<and> ?B"
    show ?L
    proof (intro allI impI)
      fix i assume i: "Suc i < length (xs @ [x])" "(xs @ [x]) ! Suc i = ''..''"
      show "(xs @ [x]) ! i = ''..''"
      proof (cases "Suc i < length xs")
        case True
        with AB i show ?thesis by (simp add: nth_append)
      next
        case False
        then have "Suc i = length xs" using i(1) by simp
        moreover from this have "xs \<noteq> []" by auto
        ultimately show ?thesis
          using AB i(2) by (auto simp: nth_append last_conv_nth dest: sym)
      qed
    qed
  qed
  then show ?thesis by (auto simp: norm_form_def)
qed

lemma norm_form_butlast: "norm_form b xs \<Longrightarrow> norm_form b (butlast xs)"
  by (cases xs rule: rev_cases) (simp_all add: norm_form_snoc)

lemma norm_step_form:
  assumes "norm_form b (fst st)" and "x \<noteq> []" and "slash \<notin> set x"
  shows "norm_form b (fst (norm_step b st x))"
  using assms norm_form_snoc [of b "[]" x]
  by (cases st) (auto simp: norm_step_def norm_form_snoc norm_form_butlast slash_def)

lemma norm_names_form:
  assumes "\<forall>x \<in> set xs. x \<noteq> [] \<and> slash \<notin> set x"
  shows "norm_form b (fst (norm_names b xs))"
proof -
  have "norm_form b (fst (foldl (norm_step b) st xs))" if "norm_form b (fst st)" for st
    using assms that
  proof (induction xs arbitrary: st)
    case (Cons x xs)
    then have "norm_form b (fst (norm_step b st x))" by (intro norm_step_form) auto
    with Cons show ?case by simp
  qed simp
  then show ?thesis by (simp add: norm_names_def)
qed

lemma norm_names_fixed: "norm_form b xs \<Longrightarrow> norm_names b xs = (xs, False)"
proof (induction xs rule: rev_induct)
  case (snoc x xs)
  then show ?case
    by (auto simp: norm_names_def norm_form_snoc norm_step_def)
qed (simp add: norm_names_def)

lemma path_names_join:
  assumes "\<forall>x \<in> set xs. x \<noteq> [] \<and> slash \<notin> set x"
  shows "path_names (join xs [slash]) = xs"
proof (cases "xs = []")
  case False
  with assms show ?thesis by (simp add: path_names_def split_on_join filter_id_conv)
qed simp

lemma path_names_snoc_slash: "path_names (p @ [slash]) = path_names p"
  using split_on_append_sep [of slash p "[]"] by (simp add: path_names_def)

lemma path_names_Cons_slash: "path_names (slash # p) = path_names p"
  using split_on_append_sep [of slash "[]" p] by (simp add: path_names_def)

lemma hd_join_not_slash:
  assumes "\<forall>x \<in> set xs. x \<noteq> [] \<and> slash \<notin> set x"
  shows "\<not> is_absolute (join xs [slash])"
proof (cases xs)
  case (Cons y ys)
  with assms show ?thesis
    by (cases y; cases ys) (auto simp: is_absolute_def)
qed (simp add: is_absolute_def)

lemma last_join_not_slash:
  assumes "\<forall>x \<in> set xs. x \<noteq> [] \<and> slash \<notin> set x" and "xs \<noteq> []"
  shows "join xs [slash] \<noteq> [] \<and> last (join xs [slash]) \<noteq> slash"
  using assms
proof (induction xs)
  case (Cons x xs)
  then have "last x \<in> set x" "slash \<notin> set x" by auto
  then have "last x \<noteq> slash" by metis
  with Cons show ?case by (cases "xs = []") (simp_all add: join_Cons)
qed simp

lemma path_text_facts:
  assumes form: "norm_form b xs" and p: "p = path_text b xs t"
  shows "is_absolute p = b" and "path_names p = (if xs = [] \<and> \<not> b then [''.''] else xs)"
    and "last p = slash \<longleftrightarrow> (if xs = [] then b else t \<and> last xs \<noteq> ''..'')" and "p \<noteq> []"
proof -
  have ok: "\<forall>x \<in> set xs. x \<noteq> [] \<and> slash \<notin> set x" using form by (simp add: norm_form_def)
  define tr where "tr = (if t \<and> xs \<noteq> [] \<and> last xs \<noteq> ''..'' then [slash] else [])"
  have tr_names: "path_names (q @ tr) = path_names q" for q
    by (simp add: tr_def path_names_snoc_slash)
  have p_eq: "p = (if \<not> b \<and> xs = [] then ''.'' else (if b then [slash] else []) @ join xs [slash] @ tr)"
    using last_join_not_slash [OF ok] by (auto simp: p path_text_def tr_def [symmetric] Let_def) (auto simp: tr_def)
  have dot: "path_names ''.'' = [''.'']" by (simp add: path_names_plain slash_def)
  show "p \<noteq> []" using last_join_not_slash [OF ok] by (auto simp: p_eq)
  show "is_absolute p = b"
  proof (cases "xs = []")
    case False
    have "is_absolute (join xs [slash] @ tr) = is_absolute (join xs [slash])"
      using last_join_not_slash [OF ok False] by (simp add: is_absolute_append_left)
    with False hd_join_not_slash [OF ok] show ?thesis
      by (auto simp: p_eq is_absolute_def)
  qed (auto simp: p_eq is_absolute_def slash_def tr_def)
  show "path_names p = (if xs = [] \<and> \<not> b then [''.''] else xs)"
    using tr_names [of "join xs [slash]"] path_names_join [OF ok] dot
    by (auto simp: p_eq path_names_Cons_slash)
  show "last p = slash \<longleftrightarrow> (if xs = [] then b else t \<and> last xs \<noteq> ''..'')"
    using last_join_not_slash [OF ok] by (auto simp: p_eq tr_def slash_def)
qed

lemma lexically_normal_form:
  assumes "p \<noteq> []"
  obtains xs t where "norm_form (is_absolute p) xs" and "lexically_normal p = path_text (is_absolute p) xs t"
proof -
  obtain xs t where xt: "norm_names (is_absolute p) (path_names p) = (xs, t)" by fastforce
  have "norm_form (is_absolute p) xs"
    using norm_names_form [of "path_names p" "is_absolute p"] path_names_no_slash xt by fastforce
  moreover have "lexically_normal p = path_text (is_absolute p) xs (t \<or> last p = slash)"
    using assms by (simp add: lexically_normal_def xt)
  ultimately show ?thesis by (rule that)
qed

lemma lexically_normal_text:
  assumes form: "norm_form b xs"
  shows "lexically_normal (path_text b xs t) = path_text b xs t"
proof -
  define p where "p = path_text b xs t"
  note facts = path_text_facts [OF form p_def]
  show ?thesis
  proof (cases "xs = [] \<and> \<not> b")
    case True
    then have "p = ''.''" by (simp add: p_def path_text_def)
    moreover have "lexically_normal ''.'' = ''.''"
      by (simp add: lexically_normal_def path_names_plain slash_def norm_names_def norm_step_def
          path_text_def is_absolute_def)
    ultimately show ?thesis by (simp add: p_def [symmetric])
  next
    case False
    then have "path_names p = xs" using facts(2) by auto
    then have "norm_names b (path_names p) = (xs, False)"
      using norm_names_fixed [OF form] by simp
    then have "lexically_normal p = path_text b xs (last p = slash)"
      using facts(1,4) by (simp add: lexically_normal_def)
    also have "\<dots> = p" using facts(3) by (auto simp: p_def path_text_def)
    finally show ?thesis by (simp add: p_def)
  qed
qed

lemma lexically_normal_idem: "lexically_normal (lexically_normal p) = lexically_normal p"
proof (cases "p = []")
  case False
  then show ?thesis by (metis lexically_normal_form lexically_normal_text)
qed (simp add: lexically_normal_def)

lemma lexically_normal_absolute: "is_absolute (lexically_normal p) = is_absolute p"
proof (cases "p = []")
  case False
  then obtain xs t where "norm_form (is_absolute p) xs" "lexically_normal p = path_text (is_absolute p) xs t"
    by (rule lexically_normal_form)
  then show ?thesis using path_text_facts(1) by blast
qed (simp add: lexically_normal_def)

lemma lexically_normal_no_dotdot:
  assumes "is_absolute p"
  shows "''..'' \<notin> set (path_names (lexically_normal p))"
    and "''.'' \<notin> set (path_names (lexically_normal p))"
proof -
  have "p \<noteq> []" using assms by (auto simp: is_absolute_def)
  then obtain xs t where xs: "norm_form (is_absolute p) xs"
    "lexically_normal p = path_text (is_absolute p) xs t"
    by (rule lexically_normal_form)
  then have "path_names (lexically_normal p) = xs"
    using path_text_facts(2) [OF xs] assms by simp
  then show "''..'' \<notin> set (path_names (lexically_normal p))"
    and "''.'' \<notin> set (path_names (lexically_normal p))"
    using xs(1) assms by (auto simp: norm_form_def)
qed

section \<open>Properties\<close>

text \<open>Path normalisation is a normal form: normalising a second time changes nothing,
  it keeps a path absolute or relative, and a normalised absolute path has no dot-dot
  left, so it stays under the root that it names.\<close>

theorem normal_form:
  "lexically_normal (lexically_normal p) = lexically_normal p \<and>
   is_absolute (lexically_normal p) = is_absolute p"
  by (simp add: lexically_normal_idem lexically_normal_absolute)

end
