(* ===== verification/Config.thy ===== *)
theory Config
  imports Paths Json
begin

text \<open>
  \<^verbatim>\<open>runtime/config.hpp\<close>: the checked configuration of a runtime. The constructor
  either throws the assertion of the first check that fails or yields a configuration
  whose root and include directories are absolute and in normal form.
\<close>

record config =
  python_library_root :: path
  cfg_env_prefix :: string
  extra_signature :: string
  include_dirs :: "path list"
  include_prefixes :: "string list"

text \<open>The loop over the include directories, which normalises them in place.\<close>

fun check_include_dirs :: "path list \<Rightarrow> path list result" where
  "check_include_dirs [] = Inr []"
| "check_include_dirs (d # ds) =
     bind_result (dj_host_assert (d \<noteq> []) ''JIT include directory must not be empty'') (\<lambda>_.
     bind_result (dj_host_assert (is_absolute d) (''JIT include directory must be absolute: '' @ d)) (\<lambda>_.
     bind_result (check_include_dirs ds) (\<lambda>ds'. Inr (lexically_normal d # ds'))))"

definition make_config ::
  "path \<Rightarrow> string \<Rightarrow> string \<Rightarrow> path list \<Rightarrow> string list \<Rightarrow> config result" where
  "make_config root pre sig dirs pfxs =
     bind_result (dj_host_assert (root \<noteq> []) ''Python library root must not be empty'') (\<lambda>_.
     bind_result (dj_host_assert (is_absolute root) (''Python library root must be absolute: '' @ root)) (\<lambda>_.
     bind_result (dj_host_assert (pre \<noteq> []) ''environment variable prefix must not be empty'') (\<lambda>_.
     bind_result (dj_host_assert (pre \<noteq> ''DJ'') ''DJ is reserved for global environment variables'') (\<lambda>_.
     bind_result (check_include_dirs dirs) (\<lambda>dirs'.
     Inr \<lparr>python_library_root = lexically_normal root, cfg_env_prefix = pre,
          extra_signature = sig, include_dirs = dirs', include_prefixes = pfxs\<rparr>)))))"

definition get_python_path :: "config \<Rightarrow> string \<Rightarrow> path" where
  "get_python_path c rel_path = path_append (python_library_root c) (lexically_normal rel_path)"

definition config_to_json :: "config \<Rightarrow> json" where
  "config_to_json c = Object
     [(''python_library_root'', Str (python_library_root c)),
      (''extra_signature'', Str (extra_signature c)),
      (''include_dirs'', json_vector Str (include_dirs c)),
      (''include_prefixes'', json_vector Str (include_prefixes c))]"

section \<open>The invariant of a configuration\<close>

definition config_ok :: "config \<Rightarrow> bool" where
  "config_ok c \<longleftrightarrow>
     is_absolute (python_library_root c) \<and>
     lexically_normal (python_library_root c) = python_library_root c \<and>
     cfg_env_prefix c \<noteq> [] \<and> cfg_env_prefix c \<noteq> ''DJ'' \<and>
     (\<forall>d \<in> set (include_dirs c). is_absolute d \<and> lexically_normal d = d)"

lemma check_include_dirs_Inr:
  "check_include_dirs ds = Inr ds' \<longleftrightarrow>
     (\<forall>d \<in> set ds. is_absolute d) \<and> ds' = map lexically_normal ds"
  by (induction ds arbitrary: ds') (auto simp: result_simps is_absolute_def)

lemma make_config_Inr:
  "make_config root pre sig dirs pfxs = Inr c \<longleftrightarrow>
     is_absolute root \<and> pre \<noteq> [] \<and> pre \<noteq> ''DJ'' \<and> (\<forall>d \<in> set dirs. is_absolute d) \<and>
     c = \<lparr>python_library_root = lexically_normal root, cfg_env_prefix = pre, extra_signature = sig,
          include_dirs = map lexically_normal dirs, include_prefixes = pfxs\<rparr>"
  by (auto simp: make_config_def result_simps check_include_dirs_Inr is_absolute_def)

lemma make_config_ok: "make_config root pre sig dirs pfxs = Inr c \<Longrightarrow> config_ok c"
  by (auto simp: make_config_Inr config_ok_def lexically_normal_idem lexically_normal_absolute)

lemma get_python_path_absolute: "config_ok c \<Longrightarrow> is_absolute (get_python_path c rel)"
  by (simp add: get_python_path_def config_ok_def is_absolute_append)

section \<open>Properties\<close>

text \<open>The constructor of a configuration accepts exactly the arguments with an absolute
  library root, a prefix that is neither empty nor the reserved \<^verbatim>\<open>DJ\<close>, and absolute
  include directories, and what it builds satisfies the invariant of a configuration: all
  directories are absolute and normalised.\<close>

theorem make_config_exact:
  "(\<exists>c. make_config root pre sig dirs pfxs = Inr c) =
     (is_absolute root \<and> pre \<notin> {[], ''DJ''} \<and> (\<forall>d \<in> set dirs. is_absolute d)) \<and>
   (make_config root pre sig dirs pfxs = Inr c \<longrightarrow>
      config_ok c \<and> length (include_dirs c) = length dirs \<and> include_prefixes c = pfxs \<and>
      is_absolute (get_python_path c rel))"
  using make_config_ok get_python_path_absolute by (auto simp: make_config_Inr)

theorem make_config_exact_witness:
  "is_absolute (get_python_path \<lparr>python_library_root = ''/x'', cfg_env_prefix = ''A'',
      extra_signature = [], include_dirs = [], include_prefixes = []\<rparr> ''hook.py'')"
proof -
  have "path_names ''/x'' = [''x'']"
    using split_on_append[of slash "[]" "''x''"] by (simp add: path_names_def slash_def)
  then have "make_config ''/x'' ''A'' [] [] [] = Inr \<lparr>python_library_root = ''/x'', cfg_env_prefix = ''A'',
      extra_signature = [], include_dirs = [], include_prefixes = []\<rparr>"
    by (simp add: make_config_Inr is_absolute_def slash_def lexically_normal_def
        norm_names_def norm_step_def path_text_def)
  with make_config_exact[of "''/x''" "''A''" "[]" "[]" "[]"] show ?thesis by blast
qed

end
