(* ===== verification/Override.thy ===== *)
theory Override
  imports Prelude
begin

text \<open>
  The contract of \<^verbatim>\<open>override_with\<close>, which every option structure implements: unset
  fields inherit, later settings win. The runtime calls it once per compile and once per
  launch, on its defaults and the caller's options; the laws say that options can be
  layered in any grouping.
\<close>

text \<open>\<^verbatim>\<open>optional.value_or(false)\<close>\<close>

definition value_or_false :: "bool option \<Rightarrow> bool" where
  "value_or_false v = (case v of Some b \<Rightarrow> b | None \<Rightarrow> False)"

text \<open>\<^verbatim>\<open>if (overrides.f) result.f = overrides.f;\<close> for an optional field.\<close>

definition override_field :: "'a option \<Rightarrow> 'a option \<Rightarrow> 'a option" where
  "override_field base overrides = (if overrides \<noteq> None then overrides else base)"

lemma override_field_simps [simp]:
  "override_field base (Some x) = Some x"
  "override_field base None = base"
  "override_field None opt = opt"
  by (simp_all add: override_field_def)

lemma override_field_assoc [simp]:
  "override_field (override_field a b) c = override_field a (override_field b c)"
  by (cases c) simp_all

lemma override_field_None_iff [simp]:
  "override_field a b = None \<longleftrightarrow> a = None \<and> b = None"
  by (cases b) simp_all

lemma override_field_cases: "override_field a b = (case b of Some x \<Rightarrow> Some x | None \<Rightarrow> a)"
  by (cases b) simp_all

locale override_contract =
  fixes override :: "'o \<Rightarrow> 'o \<Rightarrow> 'o"
    and unset :: "'o"
  assumes override_unset: "override base unset = base"
    and unset_override: "override unset opts = opts"
    and override_assoc: "override (override a b) c = override a (override b c)"
begin

lemma layers_append:
  "foldl override base (xs @ ys) = override (foldl override base xs) (foldl override unset ys)"
proof (induction ys rule: rev_induct)
  case Nil
  show ?case by (simp add: override_unset)
next
  case (snoc y ys)
  then show ?case
    by (metis append_assoc foldl_append foldl_Cons foldl_Nil override_assoc)
qed

lemma layers_from_unset: "foldl override base xs = override base (foldl override unset xs)"
  using layers_append [of base "[]" xs] by simp

lemma unset_layer: "foldl override base (xs @ unset # ys) = foldl override base (xs @ ys)"
  by (simp add: override_unset)

end

end
