(* ===== verification/Include_Parser.thy ===== *)
theory Include_Parser
  imports Hash_FNV Paths
begin

text \<open>
  The include scanner of \<^verbatim>\<open>utils/parser.hpp\<close>. The recursion over tracked includes, with its
  digest cache and its set of files being visited, is related to a plain recursive
  definition of the digest of a source: the two agree on every result and every error,
  and the scanner reports a circular include exactly when the plain recursion does not end.

  The file system is a snapshot: which paths exist and what opening a path for reading
  yields. Fuel bounds the depth of the include recursion only; \<open>None\<close> is lack of fuel.
\<close>

section \<open>One line\<close>

definition is_space :: "char \<Rightarrow> bool" where
  "is_space c \<longleftrightarrow> (of_char c :: nat) \<in> {32, 9, 12, 11}"

definition trim_left :: "string \<Rightarrow> string" where
  "trim_left s = dropWhile is_space s"

definition is_closing :: "char \<Rightarrow> bool" where
  "is_closing c \<longleftrightarrow> c = CHR ''>'' \<or> (of_char c :: nat) = 34"

definition opens_include :: "char \<Rightarrow> bool" where
  "opens_include c \<longleftrightarrow> c = CHR ''<'' \<or> (of_char c :: nat) = 34"

text \<open>The empty string is the empty view that \<^verbatim>\<open>parse_include\<close> returns for an untracked line.\<close>

definition parse_include :: "string list \<Rightarrow> string \<Rightarrow> string result" where
  "parse_include pfxs l0 =
     (let l1 = trim_left l0
      in if \<not> prefix ''#'' l1 then Inr []
         else let l2 = trim_left (drop 1 l1)
      in if \<not> prefix ''include'' l2 then Inr []
         else let l3 = trim_left (drop 7 l2)
      in if l3 = [] \<or> \<not> opens_include (hd l3) then Inr []
         else let filename = takeWhile (\<lambda>c. \<not> is_closing c) (tl l3);
                  rest = dropWhile (\<lambda>c. \<not> is_closing c) (tl l3)
      in if rest = [] then Inr []
         else if hd l3 \<noteq> CHR ''<'' \<or> hd rest \<noteq> CHR ''>'' \<or> filename = [] \<or>
                 is_space (hd filename) \<or> is_space (last filename)
         then Inl (Panic (''non-standard include: '' @ hd l3 # filename @ [hd rest]))
         else if \<exists>p \<in> set pfxs. prefix p filename then Inr filename else Inr [])"

section \<open>What a directive is\<close>

text \<open>
  A line with an include directive: white space around the hash sign and before the
  opening character, which is \<open><\<close> or a quote, and the text up to the first closing
  character, which is \<open>>\<close> or a quote.
\<close>

definition directive_line :: "string \<Rightarrow> char \<Rightarrow> string \<Rightarrow> char \<Rightarrow> bool" where
  "directive_line l a filename b \<longleftrightarrow>
     (\<exists>w1 w2 w3 rest. l = w1 @ ''#'' @ w2 @ ''include'' @ w3 @ a # filename @ b # rest \<and>
        list_all is_space (w1 @ w2 @ w3) \<and> opens_include a \<and> is_closing b \<and>
        list_all (\<lambda>c. \<not> is_closing c) filename)"

definition standard_name :: "string \<Rightarrow> bool" where
  "standard_name f \<longleftrightarrow> f \<noteq> [] \<and> \<not> is_space (hd f) \<and> \<not> is_space (last f)"

definition directive_parts :: "string \<Rightarrow> (char \<times> string \<times> char) option" where
  "directive_parts l0 =
     (let l1 = trim_left l0; l2 = trim_left (drop 1 l1); l3 = trim_left (drop 7 l2);
          f = takeWhile (\<lambda>c. \<not> is_closing c) (tl l3);
          rest = dropWhile (\<lambda>c. \<not> is_closing c) (tl l3)
      in if prefix ''#'' l1 \<and> prefix ''include'' l2 \<and> l3 \<noteq> [] \<and> opens_include (hd l3) \<and> rest \<noteq> []
         then Some (hd l3, f, hd rest) else None)"

lemma parse_include_parts:
  "parse_include pfxs l =
     (case directive_parts l of
        None \<Rightarrow> Inr []
      | Some (a, f, b) \<Rightarrow>
          if a \<noteq> CHR ''<'' \<or> b \<noteq> CHR ''>'' \<or> \<not> standard_name f
          then Inl (Panic (''non-standard include: '' @ a # f @ [b]))
          else if \<exists>p \<in> set pfxs. prefix p f then Inr f else Inr [])"
  by (simp add: parse_include_def directive_parts_def standard_name_def Let_def)

lemma trim_left_append: "list_all is_space w \<Longrightarrow> trim_left (w @ s) = trim_left s"
  by (induction w) (simp_all add: trim_left_def)

lemma trim_left_split: "\<exists>w. s = w @ trim_left s \<and> list_all is_space w"
  unfolding trim_left_def list_all_iff
  by (metis takeWhile_dropWhile_id set_takeWhileD)

lemma trim_left_Cons: "\<not> is_space c \<Longrightarrow> trim_left (c # s) = c # s"
  by (simp add: trim_left_def)

lemma not_space:
  "\<not> is_space CHR ''#''" "\<not> is_space CHR ''i''"
  "opens_include a \<Longrightarrow> \<not> is_space a"
  by (auto simp: is_space_def opens_include_def)

lemma directive_partsI: "directive_line l a f b \<Longrightarrow> directive_parts l = Some (a, f, b)"
proof -
  assume "directive_line l a f b"
  then obtain w1 w2 w3 rest where l: "l = w1 @ ''#'' @ w2 @ ''include'' @ w3 @ a # f @ b # rest"
    and w: "list_all is_space w1" "list_all is_space w2" "list_all is_space w3"
    and a: "opens_include a" and b: "is_closing b" and f: "list_all (\<lambda>c. \<not> is_closing c) f"
    by (auto simp: directive_line_def)
  define l3 where "l3 = a # f @ b # rest"
  have l1: "trim_left l = CHR ''#'' # w2 @ ''include'' @ w3 @ l3"
    using w(1) not_space by (simp add: l trim_left_append trim_left_Cons l3_def)
  have l2: "trim_left (w2 @ ''include'' @ w3 @ l3) = ''include'' @ w3 @ l3"
    using w(2) not_space by (simp add: trim_left_append trim_left_Cons)
  have l3: "trim_left (w3 @ l3) = l3"
    using w(3) not_space(3) [OF a] by (simp add: trim_left_append trim_left_Cons l3_def)
  have "takeWhile (\<lambda>c. \<not> is_closing c) (tl l3) = f"
    and "dropWhile (\<lambda>c. \<not> is_closing c) (tl l3) = b # rest"
    using f b by (simp_all add: l3_def takeWhile_append2 dropWhile_append2 list_all_iff)
  moreover have "drop 7 (''include'' @ w3 @ l3) = w3 @ l3" by simp
  ultimately show ?thesis
    using l2 l3 a b by (simp add: directive_parts_def l1 Let_def l3_def)
qed

lemma directive_partsD:
  assumes "directive_parts l = Some (a, f, b)"
  shows "directive_line l a f b"
proof -
  define l1 where "l1 = trim_left l"
  define l2 where "l2 = trim_left (drop 1 l1)"
  define l3 where "l3 = trim_left (drop 7 l2)"
  define rest where "rest = dropWhile (\<lambda>c. \<not> is_closing c) (tl l3)"
  from assms have p: "prefix ''#'' l1" "prefix ''include'' l2" "l3 \<noteq> []" "opens_include a" "rest \<noteq> []"
    "hd l3 = a" "f = takeWhile (\<lambda>c. \<not> is_closing c) (tl l3)" "hd rest = b"
    by (auto simp: directive_parts_def Let_def l1_def l2_def l3_def rest_def split: if_splits)
  obtain w1 where w1: "l = w1 @ l1" "list_all is_space w1" using trim_left_split l1_def by metis
  obtain w2 where w2: "drop 1 l1 = w2 @ l2" "list_all is_space w2" using trim_left_split l2_def by metis
  obtain w3 where w3: "drop 7 l2 = w3 @ l3" "list_all is_space w3" using trim_left_split l3_def by metis
  have "l1 = ''#'' @ w2 @ l2" using p(1) w2(1) by (auto elim!: prefixE)
  moreover have "l2 = ''include'' @ w3 @ l3" using p(2) w3(1) by (auto elim!: prefixE)
  moreover have "tl l3 = f @ rest" using p(7) rest_def by simp
  then have "l3 = a # f @ b # tl rest" using p(3,5,6,8) by (metis hd_Cons_tl)
  moreover have "\<not> \<not> is_closing (hd rest)"
    unfolding rest_def by (rule hd_dropWhile) (use p(5) rest_def in simp)
  then have "is_closing b" using p(8) by simp
  moreover have "list_all (\<lambda>c. \<not> is_closing c) f"
    using p(7) by (auto simp: list_all_iff dest: set_takeWhileD)
  ultimately show ?thesis
    unfolding directive_line_def using w1 w2(2) w3(2) p(4)
    by (intro exI [of _ w1] exI [of _ w2] exI [of _ w3] exI [of _ "tl rest"]) simp
qed

lemma directive_parts_iff: "directive_parts l = Some (a, f, b) \<longleftrightarrow> directive_line l a f b"
  using directive_partsI directive_partsD by blast

lemma parse_include_Inl_iff:
  "parse_include pfxs l = Inl e \<longleftrightarrow>
     (\<exists>a f b. directive_line l a f b \<and> (a \<noteq> CHR ''<'' \<or> b \<noteq> CHR ''>'' \<or> \<not> standard_name f) \<and>
        e = Panic (''non-standard include: '' @ a # f @ [b]))"
  by (auto simp: parse_include_parts directive_parts_iff [symmetric] split: option.splits)

lemma parse_include_tracked_iff:
  "f \<noteq> [] \<Longrightarrow> parse_include pfxs l = Inr f \<longleftrightarrow>
     directive_line l CHR ''<'' f CHR ''>'' \<and> standard_name f \<and> (\<exists>p \<in> set pfxs. prefix p f)"
  by (auto simp: parse_include_parts directive_parts_iff [symmetric] split: option.splits)

section \<open>The scanner\<close>

record snapshot =
  path_exists :: "path \<Rightarrow> bool"
  open_read :: "path \<Rightarrow> string option"

record parser =
  p_include_dirs :: "path list"
  p_include_prefixes :: "string list"
  p_files :: snapshot

record pstate =
  cache :: "string \<rightharpoonup> string"
  visiting :: "string set"

definition new_pstate :: pstate where
  "new_pstate = \<lparr>cache = Map.empty, visiting = {}\<rparr>"

text \<open>The first include directory that has the file, then the attempt to open it.\<close>

fun find_path :: "snapshot \<Rightarrow> path list \<Rightarrow> string \<Rightarrow> path" where
  "find_path fs [] filename = []"
| "find_path fs (dir # dirs) filename =
     (let try_path = path_append dir filename
      in if path_exists fs try_path then try_path else find_path fs dirs filename)"

definition read_include :: "parser \<Rightarrow> string \<Rightarrow> string result" where
  "read_include ps filename =
     (let path = find_path (p_files ps) (p_include_dirs ps) filename
      in case open_read (p_files ps) path of
           Some code \<Rightarrow> Inr code
         | None \<Rightarrow> Inl (Assertion (''failed to open: '' @ path)))"

text \<open>The lines that the loop over the remaining view takes off the code.\<close>

function code_lines :: "string \<Rightarrow> string list" where
  "code_lines view =
     (if view = [] then []
      else case split_at_char (char_of (10 :: nat)) view of
             (line, None) \<Rightarrow> [line]
           | (line, Some rest) \<Rightarrow> line # code_lines rest)"
  by pat_completeness auto
termination
  by (relation "measure length") (auto dest: split_at_char_length [OF sym])

declare code_lines.simps [simp del]

definition circular :: "string \<Rightarrow> exn" where
  "circular key = Panic (''circular include may occur: '' @ key)"

fun parse_includes_into_hash ::
    "nat \<Rightarrow> parser \<Rightarrow> pstate \<Rightarrow> string \<Rightarrow> (string result \<times> pstate) option"
  and scan_lines ::
    "nat \<Rightarrow> parser \<Rightarrow> pstate \<Rightarrow> fnv1a \<Rightarrow> string list \<Rightarrow> (string result \<times> pstate) option"
where
  "parse_includes_into_hash 0 ps st key = None"
| "parse_includes_into_hash (Suc n) ps st key =
     (case cache st key of
        Some digest \<Rightarrow> Some (Inr digest, st)
      | None \<Rightarrow>
          if key \<in> visiting st then Some (Inl (circular key), st)
          else
            let st1 = st\<lparr>visiting := insert key (visiting st)\<rparr>
            in case read_include ps key of
                 Inl e \<Rightarrow> Some (Inl e, st1\<lparr>visiting := visiting st1 - {key}\<rparr>)
               | Inr code \<Rightarrow>
                   (case scan_lines n ps st1 (update fnv_new code) (code_lines code) of
                      None \<Rightarrow> None
                    | Some (Inl e, st2) \<Rightarrow> Some (Inl e, st2\<lparr>visiting := visiting st2 - {key}\<rparr>)
                    | Some (Inr digest, st2) \<Rightarrow>
                        Some (Inr digest,
                              st2\<lparr>visiting := visiting st2 - {key},
                                  cache := (cache st2)(key \<mapsto> digest)\<rparr>)))"
| "scan_lines n ps st h [] = Some (Inr (get_hex_digest h), st)"
| "scan_lines n ps st h (line # ls) =
     (case parse_include (p_include_prefixes ps) line of
        Inl e \<Rightarrow> Some (Inl e, st)
      | Inr filename \<Rightarrow>
          if filename = [] then scan_lines n ps st h ls
          else (case parse_includes_into_hash n ps st filename of
                  None \<Rightarrow> None
                | Some (Inl e, st') \<Rightarrow> Some (Inl e, st')
                | Some (Inr digest, st') \<Rightarrow> scan_lines n ps st' (update h digest) ls))"

definition parse_into_hash ::
    "nat \<Rightarrow> parser \<Rightarrow> pstate \<Rightarrow> string \<Rightarrow> (string result \<times> pstate) option" where
  "parse_into_hash n ps st code = scan_lines n ps st (update fnv_new code) (code_lines code)"

section \<open>The plain recursion\<close>

text \<open>The digest of a tracked file and of a source, without a cache and without a set of visited files.\<close>

fun file_digest :: "nat \<Rightarrow> parser \<Rightarrow> string \<Rightarrow> string result option"
  and lines_digest :: "nat \<Rightarrow> parser \<Rightarrow> fnv1a \<Rightarrow> string list \<Rightarrow> string result option"
where
  "file_digest 0 ps key = None"
| "file_digest (Suc n) ps key =
     (case read_include ps key of
        Inl e \<Rightarrow> Some (Inl e)
      | Inr code \<Rightarrow> lines_digest n ps (update fnv_new code) (code_lines code))"
| "lines_digest n ps h [] = Some (Inr (get_hex_digest h))"
| "lines_digest n ps h (line # ls) =
     (case parse_include (p_include_prefixes ps) line of
        Inl e \<Rightarrow> Some (Inl e)
      | Inr filename \<Rightarrow>
          if filename = [] then lines_digest n ps h ls
          else (case file_digest n ps filename of
                  None \<Rightarrow> None
                | Some (Inl e) \<Rightarrow> Some (Inl e)
                | Some (Inr digest) \<Rightarrow> lines_digest n ps (update h digest) ls))"

definition source_digest :: "nat \<Rightarrow> parser \<Rightarrow> string \<Rightarrow> string result option" where
  "source_digest n ps code = lines_digest n ps (update fnv_new code) (code_lines code)"

lemma digest_mono_Suc:
  "file_digest n ps key = Some r \<Longrightarrow> file_digest (Suc n) ps key = Some r"
  "lines_digest n ps h ls = Some r \<Longrightarrow> lines_digest (Suc n) ps h ls = Some r"
proof (induction n ps key and n ps h ls arbitrary: r and r rule: file_digest_lines_digest.induct)
  case (4 n ps h line ls)
  then show ?case
    by (auto split: sum.splits if_splits option.splits simp del: file_digest.simps)
qed (auto split: sum.splits)

lemma digest_mono:
  assumes "m \<le> n"
  shows "file_digest m ps key = Some r \<Longrightarrow> file_digest n ps key = Some r"
    and "lines_digest m ps h ls = Some r \<Longrightarrow> lines_digest n ps h ls = Some r"
  using assms by (induction n rule: dec_induct) (auto intro: digest_mono_Suc simp del: file_digest.simps)

lemma file_digest_unique:
  "file_digest m ps key = Some r \<Longrightarrow> file_digest n ps key = Some s \<Longrightarrow> r = s"
  by (metis digest_mono(1) nle_le option.inject)

lemma lines_digest_unique:
  "lines_digest m ps h ls = Some r \<Longrightarrow> lines_digest n ps h ls = Some s \<Longrightarrow> r = s"
  by (metis digest_mono(2) nle_le option.inject)

section \<open>The invariant of the scanner state\<close>

text \<open>Every cached digest is the digest of the plain recursion.\<close>

definition cache_ok :: "parser \<Rightarrow> pstate \<Rightarrow> bool" where
  "cache_ok ps st \<longleftrightarrow>
     (\<forall>key digest. cache st key = Some digest \<longrightarrow> (\<exists>n. file_digest n ps key = Some (Inr digest)))"

lemma cache_ok_new: "cache_ok ps new_pstate"
  by (simp add: cache_ok_def new_pstate_def)

lemma cache_ok_visiting [simp]: "cache_ok ps (st\<lparr>visiting := V\<rparr>) = cache_ok ps st"
  by (simp add: cache_ok_def)

lemma cache_ok_insert:
  "cache_ok ps st \<Longrightarrow> file_digest n ps key = Some (Inr digest) \<Longrightarrow>
   cache_ok ps (st\<lparr>visiting := V, cache := (cache st)(key \<mapsto> digest)\<rparr>)"
  by (auto simp: cache_ok_def)

text \<open>
  The three ways a tracked include that is neither cached nor being visited can end.
\<close>

lemma parse_includes_cases [consumes 1, case_names cached circular unreadable failed finished]:
  assumes "parse_includes_into_hash (Suc n) ps st key = Some (r, st')"
  obtains digest where "cache st key = Some digest" "r = Inr digest" "st' = st"
  | "cache st key = None" "key \<in> visiting st" "r = Inl (circular key)" "st' = st"
  | e where "cache st key = None" "key \<notin> visiting st" "read_include ps key = Inl e" "r = Inl e"
      "st' = st\<lparr>visiting := visiting st\<rparr>"
  | code e st2 where "cache st key = None" "key \<notin> visiting st" "read_include ps key = Inr code"
      "scan_lines n ps (st\<lparr>visiting := insert key (visiting st)\<rparr>) (update fnv_new code)
         (code_lines code) = Some (Inl e, st2)"
      "r = Inl e" "st' = st2\<lparr>visiting := visiting st2 - {key}\<rparr>"
  | code digest st2 where "cache st key = None" "key \<notin> visiting st" "read_include ps key = Inr code"
      "scan_lines n ps (st\<lparr>visiting := insert key (visiting st)\<rparr>) (update fnv_new code)
         (code_lines code) = Some (Inr digest, st2)"
      "r = Inr digest"
      "st' = st2\<lparr>visiting := visiting st2 - {key}, cache := (cache st2)(key \<mapsto> digest)\<rparr>"
proof (cases "cache st key")
  case None
  show ?thesis
  proof (cases "key \<in> visiting st")
    case True
    with None assms have "r = Inl (circular key) \<and> st' = st" by simp
    with None True that(2) show ?thesis by blast
  next
    case False
    show ?thesis
    proof (cases "read_include ps key")
      case (Inl e)
      with None False assms have "r = Inl e \<and> st' = st\<lparr>visiting := visiting st\<rparr>" by auto
      with None False Inl that(3) show ?thesis by blast
    next
      case code: (Inr code)
      then obtain q st2 where sc: "scan_lines n ps (st\<lparr>visiting := insert key (visiting st)\<rparr>)
          (update fnv_new code) (code_lines code) = Some (q, st2)"
        using None False assms by (auto simp: Let_def split: option.splits)
      show ?thesis
      proof (cases q)
        case (Inl e)
        with None False code sc assms
        have "r = Inl e \<and> st' = st2\<lparr>visiting := visiting st2 - {key}\<rparr>" by simp
        with None False code sc Inl that(4) show ?thesis by blast
      next
        case (Inr digest)
        with None False code sc assms
        have "r = Inr digest \<and>
            st' = st2\<lparr>visiting := visiting st2 - {key}, cache := (cache st2)(key \<mapsto> digest)\<rparr>" by simp
        with None False code sc Inr that(5) show ?thesis by blast
      qed
    qed
  qed
next
  case (Some digest)
  with assms have "r = Inr digest \<and> st' = st" by simp
  with Some that(1) show ?thesis by blast
qed

lemma scan_lines_cases [consumes 1, case_names rejected skipped failed included]:
  assumes "scan_lines n ps st h (line # ls) = Some (r, st')"
  obtains e where "parse_include (p_include_prefixes ps) line = Inl e" "r = Inl e" "st' = st"
  | "parse_include (p_include_prefixes ps) line = Inr []" "scan_lines n ps st h ls = Some (r, st')"
  | filename e where "parse_include (p_include_prefixes ps) line = Inr filename" "filename \<noteq> []"
      "parse_includes_into_hash n ps st filename = Some (Inl e, st')" "r = Inl e"
  | filename digest st2 where
      "parse_include (p_include_prefixes ps) line = Inr filename" "filename \<noteq> []"
      "parse_includes_into_hash n ps st filename = Some (Inr digest, st2)"
      "scan_lines n ps st2 (update h digest) ls = Some (r, st')"
proof (cases "parse_include (p_include_prefixes ps) line")
  case (Inl e)
  with assms have "r = Inl e \<and> st' = st" by simp
  with Inl that(1) show ?thesis by blast
next
  case fn: (Inr filename)
  show ?thesis
  proof (cases "filename = []")
    case True
    with fn assms have "scan_lines n ps st h ls = Some (r, st')" by simp
    with True fn that(2) show ?thesis by blast
  next
    case False
    with fn assms obtain q st2 where inc: "parse_includes_into_hash n ps st filename = Some (q, st2)"
      by (auto split: option.splits)
    show ?thesis
    proof (cases q)
      case (Inl e)
      with fn False inc assms have "r = Inl e \<and> st' = st2" by simp
      with fn False inc Inl that(3) show ?thesis by blast
    next
      case (Inr digest)
      with fn False inc assms have "scan_lines n ps st2 (update h digest) ls = Some (r, st')" by simp
      with fn False inc Inr that(4) show ?thesis by blast
    qed
  qed
qed

declare parse_includes_into_hash.simps(2) [simp del] file_digest.simps(2) [simp del]
  scan_lines.simps(2) [simp del]

text \<open>A scan leaves the set of visited files as it was, on success and on error.\<close>

lemma scan_visiting:
  "parse_includes_into_hash n ps st key = Some (r, st') \<Longrightarrow> visiting st' = visiting st"
  "scan_lines n ps st h ls = Some (r, st') \<Longrightarrow> visiting st' = visiting st"
proof (induction n ps st key and n ps st h ls arbitrary: r st' and r st'
    rule: parse_includes_into_hash_scan_lines.induct)
  case (2 n ps st key)
  from "2.prems" show ?case
  proof (cases rule: parse_includes_cases)
    case (failed code e st2)
    then have "visiting st2 = insert key (visiting st)"
      using "2.IH" [OF failed(1,2) refl failed(3) failed(4)] by simp
    with failed show ?thesis by auto
  next
    case (finished code digest st2)
    then have "visiting st2 = insert key (visiting st)"
      using "2.IH" [OF finished(1,2) refl finished(3) finished(4)] by simp
    with finished show ?thesis by auto
  qed simp_all
next
  case (4 n ps st h line ls)
  from "4.prems" show ?case
  proof (cases rule: scan_lines_cases)
    case skipped
    then show ?thesis using "4.IH"(1) by simp
  next
    case (failed filename e)
    then show ?thesis using "4.IH"(2) by simp
  next
    case (included filename digest st2)
    then have "visiting st2 = visiting st" using "4.IH"(2) by simp
    moreover have "visiting st' = visiting st2"
      using "4.IH"(3) [OF included(1,2,3) refl refl included(4)] .
    ultimately show ?thesis by simp
  qed simp
qed auto

text \<open>What a scan may return: a result of the plain recursion, or the report of a cycle.\<close>

definition digest_result :: "(nat \<Rightarrow> string result option) \<Rightarrow> string result \<Rightarrow> bool" where
  "digest_result f r \<longleftrightarrow> (\<exists>n. f n = Some r) \<or> (\<exists>key. r = Inl (circular key))"

lemma lines_digest_step:
  assumes "parse_include (p_include_prefixes ps) line = Inr filename" and "filename \<noteq> []"
    and "file_digest m ps filename = Some (Inr d)"
    and "lines_digest n ps (update h d) ls = Some r"
  shows "lines_digest (max m n) ps h (line # ls) = Some r"
proof -
  have "file_digest (max m n) ps filename = Some (Inr d)"
    using assms(3) by (rule digest_mono(1) [OF max.cobounded1])
  moreover have "lines_digest (max m n) ps (update h d) ls = Some r"
    using assms(4) by (rule digest_mono(2) [OF max.cobounded2])
  ultimately show ?thesis using assms(1,2) by simp
qed

lemma scan_sound:
  "cache_ok ps st \<Longrightarrow> parse_includes_into_hash n ps st key = Some (r, st') \<Longrightarrow>
   cache_ok ps st' \<and> digest_result (\<lambda>n. file_digest n ps key) r"
  "cache_ok ps st \<Longrightarrow> scan_lines n ps st h ls = Some (r, st') \<Longrightarrow>
   cache_ok ps st' \<and> digest_result (\<lambda>n. lines_digest n ps h ls) r"
proof (induction n ps st key and n ps st h ls arbitrary: r st' and r st'
    rule: parse_includes_into_hash_scan_lines.induct)
  case (2 n ps st key)
  have ok: "cache_ok ps (st\<lparr>visiting := insert key (visiting st)\<rparr>)" using "2.prems"(1) by simp
  from "2.prems"(2) show ?case
  proof (cases rule: parse_includes_cases)
    case (cached digest)
    with "2.prems"(1) show ?thesis by (auto simp: cache_ok_def digest_result_def)
  next
    case (unreadable e)
    then have "file_digest (Suc 0) ps key = Some r" by (simp add: file_digest.simps)
    with unreadable "2.prems"(1) show ?thesis by (auto simp: digest_result_def)
  next
    case (failed code e st2)
    note IH = "2.IH" [OF failed(1,2) refl failed(3) ok failed(4)]
    have "file_digest (Suc m) ps key = lines_digest m ps (update fnv_new code) (code_lines code)" for m
      using failed(3) by (simp add: file_digest.simps)
    then have "digest_result (\<lambda>n. file_digest n ps key) (Inl e)"
      using IH unfolding digest_result_def by metis
    with IH failed show ?thesis by simp
  next
    case (finished code digest st2)
    note IH = "2.IH" [OF finished(1,2) refl finished(3) ok finished(4)]
    then obtain m where m: "lines_digest m ps (update fnv_new code) (code_lines code) = Some (Inr digest)"
      by (auto simp: digest_result_def)
    then have "file_digest (Suc m) ps key = Some (Inr digest)"
      using finished(3) by (simp add: file_digest.simps)
    with IH finished show ?thesis
      by (auto simp: digest_result_def intro: cache_ok_insert)
  qed (auto simp: digest_result_def "2.prems"(1))
next
  case (3 n ps st h)
  then show ?case by (auto simp: digest_result_def)
next
  case (4 n ps st h line ls)
  from "4.prems"(2) show ?case
  proof (cases rule: scan_lines_cases)
    case (rejected e)
    with "4.prems"(1) show ?thesis by (auto simp: digest_result_def)
  next
    case skipped
    then show ?thesis using "4.IH"(1) [OF skipped(1) refl "4.prems"(1)] by simp
  next
    case (failed filename e)
    have "lines_digest m ps h (line # ls) = Some (Inl e)"
      if "file_digest m ps filename = Some (Inl e)" for m
      using that failed by simp
    then show ?thesis
      using "4.IH"(2) [OF failed(1,2) "4.prems"(1) failed(3)] failed(4)
      unfolding digest_result_def by metis
  next
    case (included filename digest st2)
    note inc = "4.IH"(2) [OF included(1,2) "4.prems"(1) included(3)]
    then obtain m where m: "file_digest m ps filename = Some (Inr digest)"
      by (auto simp: digest_result_def)
    have "cache_ok ps st' \<and> digest_result (\<lambda>n. lines_digest n ps (update h digest) ls) r"
      using "4.IH"(3) [OF included(1,2,3) refl refl _ included(4)] inc by blast
    then show ?thesis
      using lines_digest_step [OF included(1,2) m] unfolding digest_result_def by metis
  qed
qed simp

text \<open>
  A scan started while the files in \<open>V\<close> are being visited returns the result of the plain
  recursion when that one ends sooner than it does for every file of \<open>V\<close>.
\<close>

lemma scan_complete_lines:
  assumes files: "\<And>key r st fuel r' st'. file_digest n ps key = Some r \<Longrightarrow>
      \<forall>v \<in> visiting st. file_digest n ps v = None \<Longrightarrow> cache_ok ps st \<Longrightarrow>
      parse_includes_into_hash fuel ps st key = Some (r', st') \<Longrightarrow> r' = r"
    and "lines_digest n ps h ls = Some r" and "\<forall>v \<in> visiting st. file_digest n ps v = None"
    and "cache_ok ps st" and "scan_lines fuel ps st h ls = Some (r', st')"
  shows "r' = r"
  using assms(2-5)
proof (induction ls arbitrary: h st)
  case (Cons line ls)
  from Cons.prems(4) show ?case
  proof (cases rule: scan_lines_cases)
    case (rejected e)
    with Cons.prems(1) show ?thesis by simp
  next
    case skipped
    with Cons.prems(1) have "lines_digest n ps h ls = Some r" by simp
    then show ?thesis using Cons.IH Cons.prems(2,3) skipped(2) by blast
  next
    case (failed filename e)
    with Cons.prems(1) obtain q where q: "file_digest n ps filename = Some q"
      by (auto split: option.splits)
    then have "q = Inl e" using files [OF q Cons.prems(2,3) failed(3)] by simp
    with q Cons.prems(1) failed show ?thesis by simp
  next
    case (included filename digest st2)
    with Cons.prems(1) obtain q where q: "file_digest n ps filename = Some q"
      by (auto split: option.splits)
    then have "q = Inr digest" using files [OF q Cons.prems(2,3) included(3)] by simp
    with q Cons.prems(1) included have "lines_digest n ps (update h digest) ls = Some r" by simp
    moreover have "cache_ok ps st2" using scan_sound(1) [OF Cons.prems(3) included(3)] by simp
    moreover have "\<forall>v \<in> visiting st2. file_digest n ps v = None"
      using scan_visiting(1) [OF included(3)] Cons.prems(2) by simp
    ultimately show ?thesis using Cons.IH included(4) by blast
  qed
qed simp

lemma scan_complete_file:
  assumes "file_digest n ps key = Some r" and "\<forall>v \<in> visiting st. file_digest n ps v = None"
    and "cache_ok ps st" and "parse_includes_into_hash fuel ps st key = Some (r', st')"
  shows "r' = r"
  using assms
proof (induction n arbitrary: key r st fuel r' st')
  case (Suc n)
  have none: "file_digest n ps v = None" if "file_digest (Suc n) ps v = None" for v
    using that digest_mono_Suc(1) by (cases "file_digest n ps v") auto
  show ?case
  proof (cases "file_digest n ps key")
    case (Some q)
    from digest_mono_Suc(1) [OF Some] Suc.prems(1) have "q = r" by simp
    moreover have "\<forall>v \<in> visiting st. file_digest n ps v = None" using Suc.prems(2) none by blast
    ultimately show ?thesis using Suc.IH [OF Some _ Suc.prems(3,4)] by blast
  next
    case None
    obtain m where fuel: "fuel = Suc m" using Suc.prems(4) by (cases fuel) auto
    have visiting: "\<forall>v \<in> insert key (visiting st). file_digest n ps v = None"
      using None none Suc.prems(2) by auto
    have lines: "lines_digest n ps (update fnv_new code) (code_lines code) = Some r"
      if "read_include ps key = Inr code" for code
      using that Suc.prems(1) by (simp add: file_digest.simps)
    have step: "q = r"
      if code: "read_include ps key = Inr code"
        and scan: "scan_lines m ps (st\<lparr>visiting := insert key (visiting st)\<rparr>)
          (update fnv_new code) (code_lines code) = Some (q, st2)" for code q st2
    proof (rule scan_complete_lines [OF _ lines [OF code] _ _ scan])
      show "\<forall>v \<in> visiting (st\<lparr>visiting := insert key (visiting st)\<rparr>). file_digest n ps v = None"
        using visiting by simp
      show "cache_ok ps (st\<lparr>visiting := insert key (visiting st)\<rparr>)" using Suc.prems(3) by simp
    qed (rule Suc.IH)
    from Suc.prems(4) [unfolded fuel] show ?thesis
    proof (cases rule: parse_includes_cases)
      case (cached digest)
      with Suc.prems(1,3) show ?thesis
        by (auto simp: cache_ok_def dest: file_digest_unique)
    next
      case circular
      with Suc.prems(1,2) show ?thesis by auto
    next
      case (unreadable e)
      with Suc.prems(1) show ?thesis by (simp add: file_digest.simps)
    next
      case (failed code e st2)
      then show ?thesis using step by blast
    next
      case (finished code digest st2)
      then show ?thesis using step by blast
    qed
  qed
qed simp

lemma parse_into_hash_complete:
  assumes "source_digest n ps code = Some r" and "cache_ok ps st" and "visiting st = {}"
    and "parse_into_hash fuel ps st code = Some (r', st')"
  shows "r' = r"
proof (rule scan_complete_lines)
  show "lines_digest n ps (update fnv_new code) (code_lines code) = Some r"
    using assms(1) by (simp add: source_digest_def)
  show "scan_lines fuel ps st (update fnv_new code) (code_lines code) = Some (r', st')"
    using assms(4) by (simp add: parse_into_hash_def)
qed (use assms scan_complete_file in auto)

lemma parse_into_hash_sound:
  assumes "cache_ok ps st" and "parse_into_hash fuel ps st code = Some (r, st')"
  shows "cache_ok ps st' \<and> visiting st' = visiting st \<and>
    digest_result (\<lambda>n. source_digest n ps code) r"
  using scan_sound(2) [OF assms(1)] scan_visiting(2) assms(2)
  unfolding parse_into_hash_def source_digest_def by blast

section \<open>Termination\<close>

text \<open>A fuel above the number of files that can be opened and are not being visited is enough.\<close>

definition readable :: "parser \<Rightarrow> string set" where
  "readable ps = {key. \<exists>code. read_include ps key = Inr code}"

lemma scan_terminates:
  "finite (readable ps) \<Longrightarrow> card (readable ps - visiting st) < n \<Longrightarrow>
   parse_includes_into_hash n ps st key \<noteq> None"
  "finite (readable ps) \<Longrightarrow> card (readable ps - visiting st) < n \<Longrightarrow>
   scan_lines n ps st h ls \<noteq> None"
proof (induction n ps st key and n ps st h ls rule: parse_includes_into_hash_scan_lines.induct)
  case (2 n ps st key)
  have "scan_lines n ps (st\<lparr>visiting := insert key (visiting st)\<rparr>) (update fnv_new code)
      (code_lines code) \<noteq> None"
    if "cache st key = None" "key \<notin> visiting st" "read_include ps key = Inr code" for code
  proof (rule "2.IH" [OF that(1,2) refl that(3) "2.prems"(1)])
    have "key \<in> readable ps - visiting st" using that by (auto simp: readable_def)
    then have "card (readable ps - visiting st - {key}) < card (readable ps - visiting st)"
      using "2.prems"(1) by (intro card_Diff1_less) auto
    moreover have "readable ps - insert key (visiting st) = readable ps - visiting st - {key}" by auto
    ultimately show "card (readable ps - visiting (st\<lparr>visiting := insert key (visiting st)\<rparr>)) < n"
      using "2.prems"(2) by simp
  qed
  then show ?case
    by (cases "cache st key"; cases "key \<in> visiting st"; cases "read_include ps key")
      (auto simp: parse_includes_into_hash.simps Let_def split: option.splits sum.splits)
next
  case (4 n ps st h line ls)
  show ?case
  proof (cases "parse_include (p_include_prefixes ps) line")
    case (Inr filename)
    show ?thesis
    proof (cases "filename = []")
      case True
      then show ?thesis using "4.IH"(1) [OF Inr True "4.prems"] Inr by (simp add: scan_lines.simps)
    next
      case False
      obtain q st2 where inc: "parse_includes_into_hash n ps st filename = Some (q, st2)"
        using "4.IH"(2) [OF Inr False "4.prems"] by auto
      show ?thesis
      proof (cases q)
        case (Inr digest)
        have "visiting st2 = visiting st" using scan_visiting(1) [OF inc] .
        then have "scan_lines n ps st2 (update h digest) ls \<noteq> None"
          using "4.IH"(3) [OF \<open>parse_include _ line = Inr filename\<close> False inc refl Inr] "4.prems" by simp
        with \<open>parse_include _ line = Inr filename\<close> False inc Inr show ?thesis
          by (simp add: scan_lines.simps)
      qed (use Inr False inc in \<open>simp add: scan_lines.simps\<close>)
    qed
  qed (simp add: scan_lines.simps)
qed simp_all

section \<open>Properties\<close>

text \<open>The line parser recognises exactly the include directives: it throws for one that
  is not of the form \<open><name>\<close> without white space at the ends of the name, it returns
  the name of a standard one that starts with a tracked prefix, and it skips every other
  line.\<close>

theorem parse_include_exact:
  "(parse_include pfxs l = Inl e \<longleftrightarrow>
      (\<exists>a f b. directive_line l a f b \<and> (a \<noteq> CHR ''<'' \<or> b \<noteq> CHR ''>'' \<or> \<not> standard_name f) \<and>
         e = Panic (''non-standard include: '' @ a # f @ [b]))) \<and>
   (f \<noteq> [] \<longrightarrow> (parse_include pfxs l = Inr f \<longleftrightarrow>
      directive_line l CHR ''<'' f CHR ''>'' \<and> standard_name f \<and> (\<exists>p \<in> set pfxs. prefix p f)))"
  using parse_include_Inl_iff parse_include_tracked_iff by blast

theorem parse_include_exact_witness:
  "directive_line '' # include <dj/a.h> '' CHR ''<'' ''dj/a.h'' CHR ''>''"
  using parse_include_exact[of "[''dj'']" "'' # include <dj/a.h> ''" "Panic []" "''dj/a.h''"]
  by (simp add: parse_include_def trim_left_def is_space_def opens_include_def is_closing_def)

text \<open>C5: Hashing a source ends (the fuel needed is one more than the number of files that
  can be opened), leaves no file marked as being visited and only right digests in the
  cache, whatever was scanned before and also when it throws. Its result is that of the
  plain recursion over the tracked includes, digest or error, whenever that recursion
  ends; otherwise it is the report of a circular include.\<close>

theorem parse_into_hash_correct:
  assumes "cache_ok ps st" and "visiting st = {}"
    and "finite (readable ps)" and "card (readable ps) < fuel"
  shows "\<exists>r st'. parse_into_hash fuel ps st code = Some (r, st') \<and>
     cache_ok ps st' \<and> visiting st' = {} \<and>
     (\<forall>n s. source_digest n ps code = Some s \<longrightarrow> r = s) \<and>
     ((\<forall>n. source_digest n ps code \<noteq> Some r) \<longrightarrow> (\<exists>key. r = Inl (circular key)))"
proof -
  have "parse_into_hash fuel ps st code \<noteq> None"
    unfolding parse_into_hash_def using assms by (intro scan_terminates(2)) simp_all
  then obtain r st' where run: "parse_into_hash fuel ps st code = Some (r, st')" by auto
  from parse_into_hash_sound[OF assms(1) run] assms(2)
  have "cache_ok ps st' \<and> visiting st' = {} \<and> digest_result (\<lambda>n. source_digest n ps code) r" by simp
  moreover have "r = s" if "source_digest n ps code = Some s" for n s
    using parse_into_hash_complete[OF that assms(1,2) run] .
  ultimately show ?thesis using run unfolding digest_result_def by blast
qed

definition demo_parser :: parser where
  "demo_parser =
     \<lparr>p_include_dirs = [''/i''], p_include_prefixes = [''a''],
      p_files = \<lparr>path_exists = (\<lambda>p. p = ''/i/a.h''),
                 open_read = (\<lambda>p. if p = ''/i/a.h'' then Some ''#include <a.h>'' else None)\<rparr>\<rparr>"

lemma demo_readable: "readable demo_parser \<subseteq> {''a.h'', ''/i/a.h''}"
  by (auto simp: readable_def demo_parser_def read_include_def path_append_def has_filename_def
      slash_def split: if_splits)

theorem parse_into_hash_correct_witness:
  "\<exists>r st'. parse_into_hash 3 demo_parser new_pstate ''#include <a.h>'' = Some (r, st') \<and> visiting st' = {}"
proof -
  have "card (readable demo_parser) \<le> card {''a.h'', ''/i/a.h''}"
    by (rule card_mono[OF _ demo_readable]) simp
  then have card: "card (readable demo_parser) < 3" by simp
  have fin: "finite (readable demo_parser)"
    by (rule finite_subset[OF demo_readable]) simp
  have "visiting new_pstate = {}" by (simp add: new_pstate_def)
  from parse_into_hash_correct[OF cache_ok_new this fin card] show ?thesis by blast
qed

end
