(* ===== verification/Os_Model.thy ===== *)
theory Os_Model
  imports Prelude "HOL-Library.AList"
begin

text \<open>
  The operating system below \<^verbatim>\<open>utils/filesystem.hpp\<close>: a file tree, the calls the code
  makes through \<^verbatim>\<open>std::filesystem\<close>, \<^verbatim>\<open>fstream\<close> and POSIX, and what each of them may
  do. A program is the tree of its calls, so that it can be run to its end with a schedule
  of faults (a call fails with an error, or never returns), or one call at a time among
  the calls of other processes.

  A resolved path is the list of its names below the root directory.
\<close>

section \<open>The file tree\<close>

type_synonym fpath = "string list"

type_synonym perms = "16 word"

datatype node = Dir perms | File perms string

fun node_perms :: "node \<Rightarrow> perms" where
  "node_perms (Dir m) = m"
| "node_perms (File m _) = m"

fun set_perms :: "perms \<Rightarrow> node \<Rightarrow> node" where
  "set_perms m (Dir _) = Dir m"
| "set_perms m (File _ d) = File m d"

fun is_dir_node :: "node \<Rightarrow> bool" where
  "is_dir_node (Dir _) = True"
| "is_dir_node (File _ _) = False"

fun append_data :: "string \<Rightarrow> node \<Rightarrow> node" where
  "append_data s (Dir m) = Dir m"
| "append_data s (File m d) = File m (d @ s)"

type_synonym fs = "(fpath \<times> node) list"

definition lookup :: "fs \<Rightarrow> fpath \<Rightarrow> node option" where
  "lookup fs p = (if p = [] then Some (Dir 0x1ED) else map_of fs p)"

definition is_dir_at :: "fs \<Rightarrow> fpath \<Rightarrow> bool" where
  "is_dir_at fs p = (case lookup fs p of Some n \<Rightarrow> is_dir_node n | None \<Rightarrow> False)"

text \<open>The keys strictly below a path, and the names directly below it.\<close>

definition has_below :: "fs \<Rightarrow> fpath \<Rightarrow> bool" where
  "has_below fs p \<longleftrightarrow> (\<exists>q \<in> set (map fst fs). strict_prefix p q)"

definition child_names :: "fs \<Rightarrow> fpath \<Rightarrow> string list" where
  "child_names fs p = remdups (map last (filter (\<lambda>q. q \<noteq> [] \<and> butlast q = p) (map fst fs)))"

definition erase_tree :: "fpath \<Rightarrow> fs \<Rightarrow> fs" where
  "erase_tree p fs = filter (\<lambda>(q, _). \<not> prefix p q) fs"

definition move_tree :: "fpath \<Rightarrow> fpath \<Rightarrow> fs \<Rightarrow> fs" where
  "move_tree src dst fs =
     map (\<lambda>(q, n). (if prefix src q then dst @ drop (length src) q else q, n)) (erase_tree dst fs)"

section \<open>The calls\<close>

datatype errno = ENOENT | EEXIST | ENOTEMPTY | ENOTDIR | EISDIR | EACCES | EINVAL | EIO | ENOSPC

fun errno_text :: "errno \<Rightarrow> string" where
  "errno_text ENOENT = ''No such file or directory''"
| "errno_text EEXIST = ''File exists''"
| "errno_text ENOTEMPTY = ''Directory not empty''"
| "errno_text ENOTDIR = ''Not a directory''"
| "errno_text EISDIR = ''Is a directory''"
| "errno_text EACCES = ''Permission denied''"
| "errno_text EINVAL = ''Invalid argument''"
| "errno_text EIO = ''Input/output error''"
| "errno_text ENOSPC = ''No space left on device''"

datatype syscall =
    Stat fpath
  | Chmod fpath perms
  | List_dir fpath
  | Next_entry fpath
  | Open_read fpath
  | Fsync fpath
  | Close_read fpath
  | Read_file fpath
  | Create_dirs fpath
  | Utime fpath
  | Open_write fpath
  | Write fpath string
  | Close_write fpath
  | Rename fpath fpath
  | Remove fpath
  | Access_x fpath

datatype reply =
    R_ok
  | R_stat "node option"
  | R_names "string list"
  | R_data string
  | R_created bool
  | R_err errno
  | R_short string

text \<open>\<^verbatim>\<open>create_directories\<close>: the missing directories on the way down, at most \<open>n\<close> of them.\<close>

definition missing_dirs :: "fs \<Rightarrow> fpath \<Rightarrow> fpath list" where
  "missing_dirs fs p = filter (\<lambda>q. lookup fs q = None) (prefixes p)"

definition add_dirs :: "fpath list \<Rightarrow> fs \<Rightarrow> fs" where
  "add_dirs ps fs = foldl (\<lambda>f p. AList.update p (Dir 0x1ED) f) fs ps"

definition on_node :: "fs \<Rightarrow> fpath \<Rightarrow> (node \<Rightarrow> reply \<times> fs) \<Rightarrow> reply \<times> fs" where
  "on_node fs p f = (case lookup fs p of None \<Rightarrow> (R_err ENOENT, fs) | Some n \<Rightarrow> f n)"

text \<open>A call that succeeds, or fails because of what the tree holds.\<close>

fun sys_ok :: "fs \<Rightarrow> syscall \<Rightarrow> reply \<times> fs" where
  "sys_ok fs (Stat p) = (R_stat (lookup fs p), fs)"
| "sys_ok fs (Chmod p m) = on_node fs p (\<lambda>n. (R_ok, AList.update p (set_perms m n) fs))"
| "sys_ok fs (List_dir p) =
     on_node fs p (\<lambda>n. if is_dir_node n then (R_names (child_names fs p), fs) else (R_err ENOTDIR, fs))"
| "sys_ok fs (Next_entry p) = (R_ok, fs)"
| "sys_ok fs (Open_read p) = on_node fs p (\<lambda>_. (R_ok, fs))"
| "sys_ok fs (Fsync p) = (R_ok, fs)"
| "sys_ok fs (Close_read p) = (R_ok, fs)"
| "sys_ok fs (Read_file p) =
     on_node fs p (\<lambda>n. case n of Dir _ \<Rightarrow> (R_err EISDIR, fs) | File _ d \<Rightarrow> (R_data d, fs))"
| "sys_ok fs (Create_dirs p) =
     (if \<exists>q \<in> set (prefixes p). lookup fs q \<noteq> None \<and> \<not> is_dir_at fs q then (R_err ENOTDIR, fs)
      else (R_created (lookup fs p = None), add_dirs (missing_dirs fs p) fs))"
| "sys_ok fs (Utime p) = on_node fs p (\<lambda>_. (R_ok, fs))"
| "sys_ok fs (Open_write p) =
     (if is_dir_at fs p then (R_err EISDIR, fs)
      else if \<not> is_dir_at fs (butlast p) then (R_err ENOENT, fs)
      else (R_ok, AList.update p
             (File (case lookup fs p of Some n \<Rightarrow> node_perms n | None \<Rightarrow> 0x1A4) []) fs))"
| "sys_ok fs (Write p s) =
     (case lookup fs p of
        Some n \<Rightarrow> (R_ok, AList.update p (append_data s n) fs)
      | None \<Rightarrow> (R_ok, fs))"
| "sys_ok fs (Close_write p) = (R_ok, fs)"
| "sys_ok fs (Rename a b) =
     on_node fs a (\<lambda>n.
       if prefix a b then (R_err EINVAL, fs)
       else if \<not> is_dir_at fs (butlast b) then (R_err ENOENT, fs)
       else if is_dir_node n \<and> lookup fs b \<noteq> None \<and> \<not> is_dir_at fs b then (R_err ENOTDIR, fs)
       else if \<not> is_dir_node n \<and> is_dir_at fs b then (R_err EISDIR, fs)
       else if has_below fs b then (R_err ENOTEMPTY, fs)
       else (R_ok, move_tree a b fs))"
| "sys_ok fs (Remove p) =
     on_node fs p (\<lambda>n. if has_below fs p then (R_err ENOTEMPTY, fs) else (R_ok, erase_tree p fs))"
| "sys_ok fs (Access_x p) =
     on_node fs p (\<lambda>n. (if Bit_Operations.and (node_perms n) 0x49 \<noteq> 0 then R_ok else R_err EACCES, fs))"

text \<open>
  A call that fails with an error of its own. Creating directories and writing may have
  been done in part (\<open>k\<close> directories or bytes); reading may end early.
\<close>

fun sys_fail :: "fs \<Rightarrow> syscall \<Rightarrow> errno \<Rightarrow> nat \<Rightarrow> reply \<times> fs" where
  "sys_fail fs (Create_dirs p) e k = (R_err e, add_dirs (take k (missing_dirs fs p)) fs)"
| "sys_fail fs (Write p s) e k =
     (case lookup fs p of
        Some n \<Rightarrow> (R_err e, AList.update p (append_data (take k s) n) fs)
      | None \<Rightarrow> (R_err e, fs))"
| "sys_fail fs (Read_file p) e k =
     (case lookup fs p of
        Some (File _ d) \<Rightarrow> (R_short (take k d), fs)
      | _ \<Rightarrow> (R_short [], fs))"
| "sys_fail fs c e k = (R_err e, fs)"

text \<open>
  Everything a call may do. The names that a directory stream yields are in no order, and
  while other processes change the directory they are not even those of one moment.
\<close>

inductive sys_result :: "fs \<Rightarrow> syscall \<Rightarrow> reply \<Rightarrow> fs \<Rightarrow> bool" where
  result_ok: "sys_ok fs c = (r, fs') \<Longrightarrow> sys_result fs c r fs'"
| result_fail: "sys_fail fs c e k = (r, fs') \<Longrightarrow> sys_result fs c r fs'"
| result_names: "sys_result fs (List_dir p) (R_names ns) fs"

section \<open>Programs\<close>

text \<open>\<open>Stuck\<close> is a recursion that does not end.\<close>

datatype 'a prog = Return 'a | Raise exn | Stuck | Sys syscall "reply \<Rightarrow> 'a prog"

primrec bind_prog :: "'a prog \<Rightarrow> ('a \<Rightarrow> 'b prog) \<Rightarrow> 'b prog" where
  "bind_prog (Return x) f = f x"
| "bind_prog (Raise e) f = Raise e"
| "bind_prog Stuck f = Stuck"
| "bind_prog (Sys c k) f = Sys c (\<lambda>r. bind_prog (k r) f)"

text \<open>\<^verbatim>\<open>try { p } catch (e) { h }\<close>\<close>

primrec catch_prog :: "'a prog \<Rightarrow> (exn \<Rightarrow> 'a prog) \<Rightarrow> 'a prog" where
  "catch_prog (Return x) h = Return x"
| "catch_prog (Raise e) h = h e"
| "catch_prog Stuck h = Stuck"
| "catch_prog (Sys c k) h = Sys c (\<lambda>r. catch_prog (k r) h)"

text \<open>A loop over a list.\<close>

fun for_each :: "'b list \<Rightarrow> ('b \<Rightarrow> unit prog) \<Rightarrow> unit prog" where
  "for_each [] body = Return ()"
| "for_each (x # xs) body = bind_prog (body x) (\<lambda>_. for_each xs body)"

lemma bind_prog_assoc: "bind_prog (bind_prog p f) g = bind_prog p (\<lambda>x. bind_prog (f x) g)"
  by (induction p) simp_all

lemma bind_prog_Return [simp]: "bind_prog p Return = p"
  by (induction p) simp_all

section \<open>Running a program alone\<close>

datatype fault = No_fault | Fail errno nat | Hang

type_synonym faults = "nat \<Rightarrow> fault"

record world =
  tree :: fs
  tick :: nat

datatype 'a outcome = Returned 'a | Raised exn | Hung

primrec exec :: "faults \<Rightarrow> 'a prog \<Rightarrow> world \<Rightarrow> 'a outcome \<times> world" where
  "exec F (Return x) w = (Returned x, w)"
| "exec F (Raise e) w = (Raised e, w)"
| "exec F Stuck w = (Hung, w)"
| "exec F (Sys c k) w =
     (case F (tick w) of
        Hang \<Rightarrow> (Hung, w\<lparr>tick := Suc (tick w)\<rparr>)
      | No_fault \<Rightarrow>
          exec F (k (fst (sys_ok (tree w) c)))
            \<lparr>tree = snd (sys_ok (tree w) c), tick = Suc (tick w)\<rparr>
      | Fail e n \<Rightarrow>
          exec F (k (fst (sys_fail (tree w) c e n)))
            \<lparr>tree = snd (sys_fail (tree w) c e n), tick = Suc (tick w)\<rparr>)"

definition no_faults :: faults where
  "no_faults = (\<lambda>_. No_fault)"

lemma exec_bind:
  "exec F (bind_prog p f) w =
     (case exec F p w of
        (Returned x, w') \<Rightarrow> exec F (f x) w'
      | (Raised e, w') \<Rightarrow> (Raised e, w')
      | (Hung, w') \<Rightarrow> (Hung, w'))"
  by (induction p arbitrary: w) (simp_all split: fault.split)

lemma exec_catch:
  "exec F (catch_prog p h) w =
     (case exec F p w of
        (Raised e, w') \<Rightarrow> exec F (h e) w'
      | (Returned x, w') \<Rightarrow> (Returned x, w')
      | (Hung, w') \<Rightarrow> (Hung, w'))"
  by (induction p arbitrary: w) (simp_all split: fault.split)

lemma exec_Sys_no_faults [simp]:
  "exec no_faults (Sys c k) w =
     exec no_faults (k (fst (sys_ok (tree w) c))) \<lparr>tree = snd (sys_ok (tree w) c), tick = Suc (tick w)\<rparr>"
  by (simp add: no_faults_def)

declare exec.simps(4) [simp del]

text \<open>For evaluation: one computation of each call.\<close>

lemma exec_Sys_share:
  "exec F (Sys c k) w =
     (case F (tick w) of
        Hang \<Rightarrow> (Hung, w\<lparr>tick := Suc (tick w)\<rparr>)
      | No_fault \<Rightarrow>
          (case sys_ok (tree w) c of (r, fs) \<Rightarrow> exec F (k r) \<lparr>tree = fs, tick = Suc (tick w)\<rparr>)
      | Fail e n \<Rightarrow>
          (case sys_fail (tree w) c e n of (r, fs) \<Rightarrow> exec F (k r) \<lparr>tree = fs, tick = Suc (tick w)\<rparr>))"
  by (simp add: exec.simps(4) split: fault.split prod.split)

lemmas exec_code [code] = exec.simps(1-3) exec_Sys_share

section \<open>The tree after a call\<close>

lemma map_of_erase_tree: "map_of (erase_tree p fs) q = (if prefix p q then None else map_of fs q)"
  by (induction fs) (auto simp: erase_tree_def)

lemma move_tree_Cons:
  "move_tree src dst ((k, n) # fs) =
     (if prefix dst k then move_tree src dst fs
      else (if prefix src k then dst @ drop (length src) k else k, n) # move_tree src dst fs)"
  by (simp add: move_tree_def erase_tree_def)

definition apart :: "fpath \<Rightarrow> fpath \<Rightarrow> bool" where
  "apart p q \<longleftrightarrow> \<not> prefix p q \<and> \<not> prefix q p"

lemma apart_sym: "apart p q \<longleftrightarrow> apart q p"
  by (auto simp: apart_def)

lemma apart_append: "apart p q \<Longrightarrow> apart (p @ r) (q @ s)"
  by (metis apart_def append_prefixD prefix_append prefix_prefix prefix_same_cases)

lemma apart_not_prefix: "apart p q \<Longrightarrow> prefix p r \<Longrightarrow> \<not> prefix q r"
  by (metis apart_def prefix_same_cases)

lemma move_tree_moved:
  "apart src dst \<Longrightarrow> map_of (move_tree src dst fs) (dst @ r) = map_of fs (src @ r)"
proof (induction fs)
  case (Cons e fs)
  obtain k n where e: "e = (k, n)" by fastforce
  show ?case
  proof (cases "prefix src k")
    case True
    then obtain s where k: "k = src @ s" by (auto simp: prefix_def)
    with Cons apart_not_prefix[OF Cons.prems True] show ?thesis by (simp add: e move_tree_Cons)
  next
    case False
    then have "k \<noteq> src @ r" by auto
    with Cons False show ?thesis by (auto simp: e move_tree_Cons)
  qed
qed (simp add: move_tree_def erase_tree_def)

lemma move_tree_source:
  "apart src dst \<Longrightarrow> map_of (move_tree src dst fs) (src @ r) = None"
proof (induction fs)
  case (Cons e fs)
  obtain k n where e: "e = (k, n)" by fastforce
  have "dst @ s \<noteq> src @ r" for s
    using Cons.prems by (metis apart_not_prefix prefixI)
  with Cons show ?case by (auto simp: e move_tree_Cons dest: sym)
qed (simp add: move_tree_def erase_tree_def)

lemma move_tree_other:
  "\<not> prefix src q \<Longrightarrow> \<not> prefix dst q \<Longrightarrow> map_of (move_tree src dst fs) q = map_of fs q"
proof (induction fs)
  case (Cons e fs)
  obtain k n where e: "e = (k, n)" by fastforce
  have "dst @ s \<noteq> q" for s using Cons.prems by auto
  with Cons show ?case by (auto simp: e move_tree_Cons)
qed (simp add: move_tree_def erase_tree_def)

lemma map_of_add_dirs:
  "map_of (add_dirs ps fs) q = (if q \<in> set ps then Some (Dir 0x1ED) else map_of fs q)"
proof -
  have "map_of (foldl (\<lambda>f p. AList.update p (Dir 0x1ED) f) fs ps) q =
      (if q \<in> set ps then Some (Dir 0x1ED) else map_of fs q)" for fs
    by (induction ps arbitrary: fs) (auto simp: update_conv')
  then show ?thesis by (simp add: add_dirs_def)
qed

end
