(* ===== verification/Filesystem.thy ===== *)
theory Filesystem
  imports Os_Model
begin

text \<open>
  \<^verbatim>\<open>utils/filesystem.hpp\<close> as programs over the calls of \<open>Os_Model\<close>. The two recursive
  functions take the depth of directories that they can enter; a recursion that goes
  deeper is \<open>Stuck\<close>.
\<close>

text \<open>A path in a message.\<close>

definition show_path :: "fpath \<Rightarrow> string" where
  "show_path p = concat (map (\<lambda>x. CHR ''/'' # x) p)"

definition panic_errno :: "string \<Rightarrow> fpath \<Rightarrow> errno \<Rightarrow> exn" where
  "panic_errno text p e = Panic (text @ '': '' @ show_path p @ '': '' @ errno_text e)"

definition filesystem_error :: "fpath \<Rightarrow> errno \<Rightarrow> exn" where
  "filesystem_error p e = Filesystem_error (show_path p @ '': '' @ errno_text e)"

definition assert_prog :: "bool \<Rightarrow> string \<Rightarrow> unit prog" where
  "assert_prog c m = (if c then Return () else Raise (Assertion m))"

text \<open>\<^verbatim>\<open>std::filesystem::exists\<close> and \<^verbatim>\<open>is_regular_file\<close>, which throw.\<close>

definition exists_file :: "fpath \<Rightarrow> bool prog" where
  "exists_file p = Sys (Stat p) (\<lambda>r. case r of
     R_stat n \<Rightarrow> Return (n \<noteq> None) | R_err e \<Rightarrow> Raise (filesystem_error p e) | _ \<Rightarrow> Return False)"

definition is_regular_file :: "fpath \<Rightarrow> bool prog" where
  "is_regular_file p = Sys (Stat p) (\<lambda>r. case r of
     R_stat (Some n) \<Rightarrow> Return (\<not> is_dir_node n) | R_err e \<Rightarrow> Raise (filesystem_error p e)
   | _ \<Rightarrow> Return False)"

section \<open>Reading\<close>

text \<open>\<^verbatim>\<open>read\<close>: a read that ends early is not noticed.\<close>

definition read_file :: "fpath \<Rightarrow> string prog" where
  "read_file p = Sys (Open_read p) (\<lambda>r. case r of
     R_err e \<Rightarrow> Raise (Assertion (''failed to open for reading: '' @ show_path p))
   | _ \<Rightarrow> Sys (Read_file p) (\<lambda>r. case r of
            R_data d \<Rightarrow> Return d | R_short d \<Rightarrow> Return d | _ \<Rightarrow> Return []))"

text \<open>
  \<^verbatim>\<open>read_bytes\<close>: the declared length, then that many bytes, then a look at what follows.
\<close>

definition read_bytes :: "fpath \<Rightarrow> string prog" where
  "read_bytes p = Sys (Stat p) (\<lambda>r. case r of
     R_stat (Some (File m d0)) \<Rightarrow>
       (let n = length d0
        in Sys (Open_read p) (\<lambda>r. case r of
             R_err e \<Rightarrow> Raise (Assertion (''incomplete file read: '' @ show_path p))
           | _ \<Rightarrow> Sys (Read_file p) (\<lambda>r. case r of
               R_data d \<Rightarrow>
                 if length d < n then Raise (Assertion (''incomplete file read: '' @ show_path p))
                 else Sys (Read_file p) (\<lambda>r. case r of
                    R_data d' \<Rightarrow>
                      if length d' > n then Raise (Assertion (''file changed during read: '' @ show_path p))
                      else Return (take n d)
                  | _ \<Rightarrow> Raise (Assertion (''file changed during read: '' @ show_path p)))
             | _ \<Rightarrow> Raise (Assertion (''incomplete file read: '' @ show_path p)))))
   | R_err e \<Rightarrow> Raise (filesystem_error p e)
   | R_stat None \<Rightarrow> Raise (filesystem_error p ENOENT)
   | _ \<Rightarrow> Raise (filesystem_error p EISDIR))"

section \<open>Synchronisation and permissions\<close>

definition fsync_file :: "fpath \<Rightarrow> unit prog" where
  "fsync_file p = Sys (Open_read p) (\<lambda>r. case r of
     R_err e \<Rightarrow> Raise (panic_errno ''failed to open for fsync'' p e)
   | _ \<Rightarrow> Sys (Fsync p) (\<lambda>r. case r of
       R_err e \<Rightarrow> Sys (Close_read p) (\<lambda>_. Raise (panic_errno ''failed to fsync'' p e))
     | _ \<Rightarrow> Sys (Close_read p) (\<lambda>r. case r of
         R_err e \<Rightarrow> Raise (panic_errno ''failed to close after fsync'' p e)
       | _ \<Rightarrow> Return ())))"

definition set_gid :: perms where
  "set_gid = 0x400"

text \<open>The permissions of a path that does not exist are \<^verbatim>\<open>perms::unknown\<close>, all ones.\<close>

definition set_shared_permissions :: "fpath \<Rightarrow> bool \<Rightarrow> bool \<Rightarrow> unit prog" where
  "set_shared_permissions p directory shared =
     (if \<not> shared then Return ()
      else bind_prog
        (if directory
         then Sys (Stat p) (\<lambda>r. case r of
                R_stat n \<Rightarrow> Return (Bit_Operations.and
                  (case n of Some nd \<Rightarrow> node_perms nd | None \<Rightarrow> 0xFFFF) set_gid)
              | R_err e \<Rightarrow> Raise (filesystem_error p e)
              | _ \<Rightarrow> Return 0)
         else Return 0)
        (\<lambda>sgid. Sys (Chmod p (Bit_Operations.or (if directory then 0x1FD else 0x1B4) sgid)) (\<lambda>r. case r of
            R_err e \<Rightarrow> Raise (panic_errno ''failed to set permissions'' p e)
          | _ \<Rightarrow> Return ())))"

text \<open>\<^verbatim>\<open>++ iterator\<close>, which throws.\<close>

definition advance :: "fpath \<Rightarrow> unit prog" where
  "advance p = Sys (Next_entry p) (\<lambda>r. case r of
     R_err e \<Rightarrow> Raise (filesystem_error p e) | _ \<Rightarrow> Return ())"

text \<open>Shared permissions on everything below a directory, and fsync bottom-up.\<close>

fun fsync_dir :: "nat \<Rightarrow> fpath \<Rightarrow> bool \<Rightarrow> unit prog" where
  "fsync_dir 0 p shared = Stuck"
| "fsync_dir (Suc n) p shared =
     bind_prog (set_shared_permissions p True shared) (\<lambda>_.
     bind_prog (Sys (List_dir p) (\<lambda>r. case r of
         R_names names \<Rightarrow> Return names | R_err e \<Rightarrow> Raise (filesystem_error p e) | _ \<Rightarrow> Return [])) (\<lambda>names.
     bind_prog (for_each names (\<lambda>x. Sys (Stat (p @ [x])) (\<lambda>r. case r of
         R_stat (Some (Dir _)) \<Rightarrow>
           bind_prog (fsync_dir n (p @ [x]) shared) (\<lambda>_. advance p)
       | R_stat (Some (File _ _)) \<Rightarrow>
           bind_prog (set_shared_permissions (p @ [x]) False shared) (\<lambda>_.
           bind_prog (fsync_file (p @ [x])) (\<lambda>_. advance p))
       | R_err e \<Rightarrow> Raise (filesystem_error (p @ [x]) e)
       | _ \<Rightarrow> advance p))) (\<lambda>_.
     fsync_file p)))"

definition make_dirs :: "fpath \<Rightarrow> bool \<Rightarrow> unit prog" where
  "make_dirs p shared = Sys (Create_dirs p) (\<lambda>r. case r of
     R_created True \<Rightarrow> set_shared_permissions p True shared
   | R_created False \<Rightarrow> Return ()
   | _ \<Rightarrow> Raise (Panic (''failed to create directory: '' @ show_path p)))"

definition try_update_mtime :: "fpath \<Rightarrow> bool prog" where
  "try_update_mtime p = Sys (Utime p) (\<lambda>r. case r of R_err e \<Rightarrow> Return False | _ \<Rightarrow> Return True)"

definition write_file_sync :: "fpath \<Rightarrow> string \<Rightarrow> bool \<Rightarrow> unit prog" where
  "write_file_sync p data shared = Sys (Open_write p) (\<lambda>r. case r of
     R_err e \<Rightarrow> Raise (Panic (''failed to open for writing: '' @ show_path p))
   | _ \<Rightarrow> Sys (Write p data) (\<lambda>r. case r of
       R_err e \<Rightarrow> Raise (Panic (''failed to write: '' @ show_path p))
     | _ \<Rightarrow> Sys (Close_write p) (\<lambda>r. case r of
         R_err e \<Rightarrow> Raise (Panic (''failed to close after writing: '' @ show_path p))
       | _ \<Rightarrow> bind_prog (set_shared_permissions p False shared) (\<lambda>_. fsync_file p))))"

text \<open>
  \<^verbatim>\<open>safe_remove_all\<close>: it stops at the first error of a directory stream and ignores
  every error.
\<close>

fun while_each :: "'b list \<Rightarrow> ('b \<Rightarrow> bool prog) \<Rightarrow> unit prog" where
  "while_each [] body = Return ()"
| "while_each (x # xs) body =
     bind_prog (body x) (\<lambda>go. if go then while_each xs body else Return ())"

fun safe_remove_all :: "nat \<Rightarrow> fpath \<Rightarrow> unit prog" where
  "safe_remove_all 0 p = Stuck"
| "safe_remove_all (Suc n) p = Sys (Stat p) (\<lambda>r. case r of
     R_stat (Some _) \<Rightarrow> Sys (Stat p) (\<lambda>r. case r of
       R_stat (Some (Dir _)) \<Rightarrow>
         bind_prog (Sys (List_dir p) (\<lambda>r. case r of R_names names \<Rightarrow> Return names | _ \<Rightarrow> Return [])) (\<lambda>names.
         bind_prog (while_each names (\<lambda>x. Sys (Next_entry p) (\<lambda>r. case r of
             R_err e \<Rightarrow> Return False
           | _ \<Rightarrow> bind_prog (safe_remove_all n (p @ [x])) (\<lambda>_. Return True)))) (\<lambda>_.
         Sys (Remove p) (\<lambda>_. Return ())))
     | _ \<Rightarrow> Sys (Remove p) (\<lambda>_. Return ()))
   | _ \<Rightarrow> Return ())"

definition is_executable :: "fpath \<Rightarrow> bool prog" where
  "is_executable p = bind_prog (is_regular_file p) (\<lambda>regular.
     if regular then Sys (Access_x p) (\<lambda>r. Return (r = R_ok)) else Return False)"

section \<open>Reads of a quiet file system\<close>

text \<open>A program that changes nothing when no call fails.\<close>

lemma read_bytes_exact:
  assumes "lookup (tree w) p = Some (File m d)"
  shows "fst (exec no_faults (read_bytes p) w) = Returned d"
  using assms by (simp add: read_bytes_def Let_def on_node_def)

text \<open>One call that only reads, with any fault.\<close>

lemma exec_Stat:
  "exec F (Sys (Stat p) k) w = (r, w') \<Longrightarrow>
   exec F (k (R_stat (lookup (tree w) p))) (w\<lparr>tick := Suc (tick w)\<rparr>) = (r, w') \<or>
   (\<exists>e. exec F (k (R_err e)) (w\<lparr>tick := Suc (tick w)\<rparr>) = (r, w')) \<or> r = Hung"
  by (cases w) (auto simp: exec.simps(4) split: fault.splits)

lemma exec_Open_read:
  "exec F (Sys (Open_read p) k) w = (r, w') \<Longrightarrow>
   exec F (k R_ok) (w\<lparr>tick := Suc (tick w)\<rparr>) = (r, w') \<or>
   (\<exists>e. exec F (k (R_err e)) (w\<lparr>tick := Suc (tick w)\<rparr>) = (r, w')) \<or> r = Hung"
  by (cases w) (auto simp: exec.simps(4) on_node_def split: fault.splits option.splits)

lemma exec_Read_file:
  "exec F (Sys (Read_file p) k) w = (r, w') \<Longrightarrow>
   (\<exists>m d. lookup (tree w) p = Some (File m d) \<and> exec F (k (R_data d)) (w\<lparr>tick := Suc (tick w)\<rparr>) = (r, w')) \<or>
   (\<exists>s. exec F (k (R_short s)) (w\<lparr>tick := Suc (tick w)\<rparr>) = (r, w')) \<or>
   (\<exists>e. exec F (k (R_err e)) (w\<lparr>tick := Suc (tick w)\<rparr>) = (r, w')) \<or> r = Hung"
  by (cases w) (auto simp: exec.simps(4) on_node_def split: fault.splits option.splits node.splits)

section \<open>Properties\<close>

text \<open>A strict read never returns part of a file: whatever calls fail or end early, bytes
  that \<^verbatim>\<open>read_bytes\<close> returns are the whole content of a regular file.\<close>

theorem read_bytes_whole:
  assumes "exec F (read_bytes p) w = (Returned d, w')"
  shows "\<exists>m. lookup (tree w) p = Some (File m d)"
proof -
  from exec_Stat[OF assms[unfolded read_bytes_def]]
  obtain m d0 where found: "lookup (tree w) p = Some (File m d0)"
    by (auto split: option.splits node.splits)
  with exec_Stat[OF assms[unfolded read_bytes_def]] have "d0 = d"
    by (auto simp: Let_def dest!: exec_Open_read exec_Read_file split: if_splits)
  with found show ?thesis by blast
qed

theorem read_bytes_whole_witness:
  "\<exists>m. lookup [([''k''], File 0x1A4 ''cubin'')] [''k''] = Some (File m ''cubin'')"
proof -
  have "exec no_faults (read_bytes [''k'']) \<lparr>tree = [([''k''], File 0x1A4 ''cubin'')], tick = 0\<rparr> =
      (Returned ''cubin'', \<lparr>tree = [([''k''], File 0x1A4 ''cubin'')], tick = 4\<rparr>)" by code_simp
  from read_bytes_whole[OF this] show ?thesis by simp
qed

end
