(* ===== verification/Executor.thy ===== *)
theory Executor
  imports Os_Model Env_Vars
begin

text \<open>
  \<^verbatim>\<open>utils/executor.hpp\<close>: the worker thread with a timeout that runs the I/O tasks. The
  threads are a step relation over the shared \<^verbatim>\<open>Context\<close> objects; a caller that timed
  out leaves its worker behind with the context it had, and the next call makes a new
  one. At the end, what a caller of \<^verbatim>\<open>run_in_iothread\<close> sees.
\<close>

section \<open>The state of the threads\<close>

text \<open>
  Submissions are numbered in the order in which they get \<^verbatim>\<open>run_lock\<close>; the task of a
  submission either returns a value or throws.
\<close>

type_synonym sub = nat

datatype task_result = Value | Threw

datatype worker_phase =
    W_wait
  | W_run sub
  | W_ran sub
  | W_exited

record ctx =
  task :: "sub option"
  finished :: bool
  stopped :: bool
  phase :: worker_phase

datatype caller_phase = C_idle | C_wait sub nat

datatype caller_reply = Got task_result | Timed_out

record executor =
  contexts :: "nat \<Rightarrow> ctx"
  num_contexts :: nat
  current :: "nat option"
  caller :: caller_phase
  num_subs :: nat
  promises :: "sub \<rightharpoonup> task_result"
  replies :: "(sub \<times> caller_reply) list"
  started :: "sub list"

definition new_ctx :: ctx where
  "new_ctx = \<lparr>task = None, finished = False, stopped = False, phase = W_wait\<rparr>"

definition new_executor :: executor where
  "new_executor =
     \<lparr>contexts = (\<lambda>_. new_ctx), num_contexts = 0, current = None, caller = C_idle, num_subs = 0,
      promises = Map.empty, replies = [], started = []\<rparr>"

section \<open>The operations\<close>

definition set_ctx :: "nat \<Rightarrow> ctx \<Rightarrow> executor \<Rightarrow> executor" where
  "set_ctx c x st = st\<lparr>contexts := (contexts st)(c := x)\<rparr>"

text \<open>\<^verbatim>\<open>stop\<close>: mark the context, let go of it and of the thread.\<close>

definition stop :: "executor \<Rightarrow> executor" where
  "stop st =
     (case current st of
        None \<Rightarrow> st
      | Some c \<Rightarrow> (set_ctx c ((contexts st c)\<lparr>stopped := True\<rparr>) st)\<lparr>current := None\<rparr>)"

text \<open>\<^verbatim>\<open>run\<close> up to its wait: make a context and a thread when there is none, hand over the task.\<close>

definition ensure_context :: "executor \<Rightarrow> nat \<times> executor" where
  "ensure_context st =
     (case current st of
        Some c \<Rightarrow> (c, st)
      | None \<Rightarrow>
          (num_contexts st,
           (set_ctx (num_contexts st) new_ctx st)
             \<lparr>current := Some (num_contexts st), num_contexts := Suc (num_contexts st)\<rparr>))"

definition submit :: "executor \<Rightarrow> executor" where
  "submit st =
     (case ensure_context st of
        (c, st') \<Rightarrow>
          (set_ctx c ((contexts st' c)\<lparr>finished := False, task := Some (num_subs st')\<rparr>) st')
            \<lparr>caller := C_wait (num_subs st') c, num_subs := Suc (num_subs st')\<rparr>)"

text \<open>\<^verbatim>\<open>run\<close> after its wait: the caller gives up, or gets the result and stops a throwing worker.\<close>

definition give_up :: "sub \<Rightarrow> executor \<Rightarrow> executor" where
  "give_up s st = (stop st)\<lparr>caller := C_idle, replies := replies st @ [(s, Timed_out)]\<rparr>"

definition get_result :: "sub \<Rightarrow> task_result \<Rightarrow> executor \<Rightarrow> executor" where
  "get_result s r st =
     (if r = Threw then stop st else st)\<lparr>caller := C_idle, replies := replies st @ [(s, Got r)]\<rparr>"

text \<open>\<^verbatim>\<open>thread_main\<close>: take the task (and leave when stopped), run it, report it.\<close>

definition take_task :: "nat \<Rightarrow> executor \<Rightarrow> executor" where
  "take_task c st =
     (let x = contexts st c
      in if stopped x then set_ctx c (x\<lparr>task := None, phase := W_exited\<rparr>) st
         else case task x of
                None \<Rightarrow> st
              | Some s \<Rightarrow>
                  (set_ctx c (x\<lparr>task := None, phase := W_run s\<rparr>) st)\<lparr>started := started st @ [s]\<rparr>)"

definition run_task :: "nat \<Rightarrow> sub \<Rightarrow> task_result \<Rightarrow> executor \<Rightarrow> executor" where
  "run_task c s r st =
     (set_ctx c ((contexts st c)\<lparr>phase := W_ran s\<rparr>) st)\<lparr>promises := (promises st)(s \<mapsto> r)\<rparr>"

definition report_done :: "nat \<Rightarrow> executor \<Rightarrow> executor" where
  "report_done c st = set_ctx c ((contexts st c)\<lparr>finished := True, phase := W_wait\<rparr>) st"

text \<open>
  The steps of the threads. \<open>body s\<close> is what the task of submission \<open>s\<close> does; a caller may
  give up at any time before its task is reported as finished, when a timeout is set.
\<close>

inductive ex_step :: "(sub \<Rightarrow> task_result) \<Rightarrow> bool \<Rightarrow> executor \<Rightarrow> executor \<Rightarrow> bool"
  for body :: "sub \<Rightarrow> task_result" and has_timeout :: bool where
  Submit: "caller st = C_idle \<Longrightarrow> ex_step body has_timeout st (submit st)"
| Give_up: "caller st = C_wait s c \<Longrightarrow> has_timeout \<Longrightarrow> \<not> finished (contexts st c) \<Longrightarrow>
    ex_step body has_timeout st (give_up s st)"
| Get_result: "caller st = C_wait s c \<Longrightarrow> finished (contexts st c) \<Longrightarrow> promises st s = Some r \<Longrightarrow>
    ex_step body has_timeout st (get_result s r st)"
| Take: "c < num_contexts st \<Longrightarrow> phase (contexts st c) = W_wait \<Longrightarrow>
    stopped (contexts st c) \<or> task (contexts st c) \<noteq> None \<Longrightarrow>
    ex_step body has_timeout st (take_task c st)"
| Run: "c < num_contexts st \<Longrightarrow> phase (contexts st c) = W_run s \<Longrightarrow>
    ex_step body has_timeout st (run_task c s (body s) st)"
| Report: "c < num_contexts st \<Longrightarrow> phase (contexts st c) = W_ran s \<Longrightarrow>
    ex_step body has_timeout st (report_done c st)"

inductive ex_reachable :: "(sub \<Rightarrow> task_result) \<Rightarrow> bool \<Rightarrow> executor \<Rightarrow> bool"
  for body :: "sub \<Rightarrow> task_result" and has_timeout :: bool where
  Start: "ex_reachable body has_timeout new_executor"
| Step: "ex_reachable body has_timeout st \<Longrightarrow> ex_step body has_timeout st st' \<Longrightarrow>
    ex_reachable body has_timeout st'"

section \<open>The invariant\<close>

text \<open>The submission that a context is busy with.\<close>

definition busy :: "ctx \<Rightarrow> sub option" where
  "busy x = (case task x of Some s \<Rightarrow> Some s | None \<Rightarrow>
     (case phase x of W_run s \<Rightarrow> Some s | W_ran s \<Rightarrow> Some s | _ \<Rightarrow> None))"

text \<open>Where the task of the waiting caller is.\<close>

definition in_progress :: "executor \<Rightarrow> sub \<Rightarrow> ctx \<Rightarrow> bool" where
  "in_progress st s x \<longleftrightarrow>
     (task x = Some s \<and> phase x = W_wait \<and> \<not> finished x \<and> s \<notin> set (started st)) \<or>
     (task x = None \<and> phase x = W_run s \<and> \<not> finished x) \<or>
     (task x = None \<and> phase x = W_ran s \<and> \<not> finished x \<and> promises st s \<noteq> None) \<or>
     (task x = None \<and> phase x = W_wait \<and> finished x \<and> promises st s \<noteq> None)"

definition ex_inv :: "(sub \<Rightarrow> task_result) \<Rightarrow> executor \<Rightarrow> bool" where
  "ex_inv body st \<longleftrightarrow>
     (\<forall>c. current st = Some c \<longrightarrow> c < num_contexts st \<and> \<not> stopped (contexts st c)) \<and>
     (\<forall>c < num_contexts st. current st \<noteq> Some c \<longrightarrow> stopped (contexts st c)) \<and>
     (case caller st of
        C_idle \<Rightarrow> (\<forall>c. current st = Some c \<longrightarrow> task (contexts st c) = None \<and> phase (contexts st c) = W_wait)
      | C_wait s c \<Rightarrow> current st = Some c \<and> s < num_subs st \<and> s \<notin> fst ` set (replies st) \<and>
          in_progress st s (contexts st c)) \<and>
     (\<forall>s r. promises st s = Some r \<longrightarrow> r = body s) \<and>
     (\<forall>s r. (s, Got r) \<in> set (replies st) \<longrightarrow> r = body s) \<and>
     (\<forall>s \<in> fst ` set (replies st) \<union> set (started st). s < num_subs st) \<and>
     distinct (map fst (replies st)) \<and> distinct (started st)"

lemmas ex_ops = set_ctx_def stop_def ensure_context_def submit_def give_up_def get_result_def
  take_task_def run_task_def report_done_def new_ctx_def

lemma ex_inv_start: "ex_inv body new_executor"
  by (simp add: ex_inv_def new_executor_def)

lemma ex_inv_submit:
  assumes "ex_inv body st" and "caller st = C_idle"
  shows "ex_inv body (submit st)"
proof -
  have fresh: "s \<noteq> num_subs st" if "s \<in> fst ` set (replies st) \<union> set (started st)" for s
    using assms(1) that unfolding ex_inv_def by blast
  show ?thesis
  proof (cases "current st")
    case None
    with assms fresh show ?thesis
      by (auto simp: ex_inv_def in_progress_def ex_ops less_Suc_eq image_iff)
  next
    case (Some c)
    with assms fresh show ?thesis
      by (auto simp: ex_inv_def in_progress_def ex_ops less_Suc_eq image_iff)
  qed
qed

lemma ex_inv_reply:
  assumes "ex_inv body st" and "caller st = C_wait s c"
  shows "\<not> finished (contexts st c) \<Longrightarrow> ex_inv body (give_up s st)"
    and "finished (contexts st c) \<Longrightarrow> promises st s = Some r \<Longrightarrow> ex_inv body (get_result s r st)"
  using assms by (auto simp: ex_inv_def in_progress_def ex_ops)

lemma ex_inv_worker:
  assumes "ex_inv body st" and "c < num_contexts st"
  shows "phase (contexts st c) = W_wait \<Longrightarrow> stopped (contexts st c) \<or> task (contexts st c) \<noteq> None \<Longrightarrow>
      ex_inv body (take_task c st)"
    and "phase (contexts st c) = W_run s \<Longrightarrow> ex_inv body (run_task c s (body s) st)"
    and "phase (contexts st c) = W_ran s \<Longrightarrow> ex_inv body (report_done c st)"
proof -
  assume wait: "phase (contexts st c) = W_wait" "stopped (contexts st c) \<or> task (contexts st c) \<noteq> None"
  show "ex_inv body (take_task c st)"
  proof (cases "stopped (contexts st c)")
    case True
    with assms wait show ?thesis
      by (auto simp: ex_inv_def in_progress_def ex_ops Let_def split: caller_phase.splits)
  next
    case False
    with assms have cur: "current st = Some c" by (auto simp: ex_inv_def)
    with assms wait False obtain s where "caller st = C_wait s c" "task (contexts st c) = Some s"
        "s \<notin> set (started st)" "\<not> finished (contexts st c)"
      by (cases "caller st") (auto simp: ex_inv_def in_progress_def)
    with assms cur False wait show ?thesis
      by (auto simp: ex_inv_def in_progress_def ex_ops Let_def)
  qed
next
  assume "phase (contexts st c) = W_run s"
  with assms show "ex_inv body (run_task c s (body s) st)"
    by (auto simp: ex_inv_def in_progress_def ex_ops Let_def split: caller_phase.splits)
next
  assume "phase (contexts st c) = W_ran s"
  with assms show "ex_inv body (report_done c st)"
    by (auto simp: ex_inv_def in_progress_def ex_ops Let_def split: caller_phase.splits)
qed

lemma ex_inv_step: "ex_step body b st st' \<Longrightarrow> ex_inv body st \<Longrightarrow> ex_inv body st'"
  by (induction rule: ex_step.induct) (auto intro: ex_inv_submit ex_inv_reply ex_inv_worker)

lemma ex_reachable_inv: "ex_reachable body b st \<Longrightarrow> ex_inv body st"
  by (induction rule: ex_reachable.induct) (auto intro: ex_inv_start ex_inv_step)

section \<open>Progress\<close>

lemma run_finishes:
  assumes "ex_inv body st" and "caller st = C_wait s c"
  shows "\<exists>st'. (ex_step body b)\<^sup>*\<^sup>* st st' \<and> ex_inv body st' \<and> caller st' = C_wait s c \<and>
    finished (contexts st' c) \<and> promises st' s \<noteq> None"
proof -
  have busy_step: "\<exists>st'. ex_step body b st st' \<and> ex_inv body st' \<and> caller st' = C_wait s c \<and>
      (phase (contexts st c) = W_ran s \<and> finished (contexts st' c) \<and> promises st' s \<noteq> None \<or>
       phase (contexts st c) = W_run s \<and> phase (contexts st' c) = W_ran s \<or>
       task (contexts st c) = Some s \<and> phase (contexts st' c) = W_run s)"
    if inv: "ex_inv body st" and wait: "caller st = C_wait s c" and nf: "\<not> finished (contexts st c)" for st
  proof -
    from inv wait have c: "c < num_contexts st" "\<not> stopped (contexts st c)"
      and prog: "in_progress st s (contexts st c)" by (auto simp: ex_inv_def)
    from prog nf consider "task (contexts st c) = Some s" "phase (contexts st c) = W_wait"
      | "phase (contexts st c) = W_run s" | "phase (contexts st c) = W_ran s" "promises st s \<noteq> None"
      by (auto simp: in_progress_def)
    then show ?thesis
    proof cases
      case 1
      with c have step: "ex_step body b st (take_task c st)" by (auto intro: Take)
      with 1 c wait ex_inv_step[OF step inv] show ?thesis
        by (intro exI[of _ "take_task c st"]) (simp add: take_task_def set_ctx_def)
    next
      case 2
      with c have step: "ex_step body b st (run_task c s (body s) st)" by (auto intro: Run)
      with 2 wait ex_inv_step[OF step inv] show ?thesis
        by (intro exI[of _ "run_task c s (body s) st"]) (simp add: run_task_def set_ctx_def)
    next
      case 3
      with c have step: "ex_step body b st (report_done c st)" by (auto intro: Report)
      with 3 wait ex_inv_step[OF step inv] show ?thesis
        by (intro exI[of _ "report_done c st"]) (simp add: report_done_def set_ctx_def)
    qed
  qed
  have from_ran: "\<exists>st'. (ex_step body b)\<^sup>*\<^sup>* st st' \<and> ex_inv body st' \<and> caller st' = C_wait s c \<and>
      finished (contexts st' c) \<and> promises st' s \<noteq> None"
    if "ex_inv body st" "caller st = C_wait s c" "phase (contexts st c) = W_ran s" for st
  proof -
    from that have "\<not> finished (contexts st c)" "task (contexts st c) = None"
      by (auto simp: ex_inv_def in_progress_def)
    with busy_step[OF that(1,2)] that(3) show ?thesis by auto
  qed
  have from_run: "\<exists>st'. (ex_step body b)\<^sup>*\<^sup>* st st' \<and> ex_inv body st' \<and> caller st' = C_wait s c \<and>
      finished (contexts st' c) \<and> promises st' s \<noteq> None"
    if "ex_inv body st" "caller st = C_wait s c" "phase (contexts st c) = W_run s" for st
  proof -
    from that have "\<not> finished (contexts st c)" "task (contexts st c) = None"
      by (auto simp: ex_inv_def in_progress_def)
    with busy_step[OF that(1,2)] that(3) obtain st2 where "ex_step body b st st2" "ex_inv body st2"
        "caller st2 = C_wait s c" "phase (contexts st2 c) = W_ran s" by auto
    with from_ran[of st2] show ?thesis by (meson converse_rtranclp_into_rtranclp)
  qed
  show ?thesis
  proof (cases "finished (contexts st c)")
    case True
    with assms show ?thesis by (intro exI[of _ st]) (auto simp: ex_inv_def in_progress_def)
  next
    case False
    from busy_step[OF assms False] obtain st2 where st2: "ex_step body b st st2" "ex_inv body st2"
        "caller st2 = C_wait s c" and
      "(phase (contexts st c) = W_ran s \<and> finished (contexts st2 c) \<and> promises st2 s \<noteq> None) \<or>
       phase (contexts st2 c) = W_ran s \<or> phase (contexts st2 c) = W_run s" by auto
    with from_ran[of st2] from_run[of st2] show ?thesis
      by (meson converse_rtranclp_into_rtranclp r_into_rtranclp)
  qed
qed

section \<open>Tasks on the I/O thread\<close>

text \<open>
  The process-wide settings, parsed from the environment. An empty rest is required; a
  malformed value makes every I/O task throw.
\<close>

definition io_timeout :: "environ \<Rightarrow> nat result" where
  "io_timeout e =
     (case e ''DJ_FS_TIMEOUT_MS'' of
        None \<Rightarrow> Inr 10000
      | Some raw \<Rightarrow>
          (case from_chars int32_t raw of
             Some (ms, []) \<Rightarrow> if ms < 0 then Inl (Invalid_argument ''invalid DJ_FS_TIMEOUT_MS'') else Inr (nat ms)
           | _ \<Rightarrow> Inl (Invalid_argument ''invalid DJ_FS_TIMEOUT_MS'')))"

definition disable_cache_fallback :: "environ \<Rightarrow> bool result" where
  "disable_cache_fallback e =
     (case e ''DJ_DISABLE_CACHE_FALLBACK'' of
        None \<Rightarrow> Inr False
      | Some raw \<Rightarrow>
          (case from_chars int32_t raw of
             Some (value, []) \<Rightarrow> Inr (value \<noteq> 0)
           | _ \<Rightarrow> Inl (Invalid_argument ''invalid DJ_DISABLE_CACHE_FALLBACK'')))"

text \<open>
  Running a task where the caller is: \<open>None\<close> is a call that never returns. A hanging call
  of the operating system hangs the task, so on the worker with a timeout the caller gets
  the timeout error; without a timeout, or on the caller's own thread, it does not return.
\<close>

type_synonym 'a io = "('a result \<times> world) option"

definition run_directly :: "faults \<Rightarrow> 'a prog \<Rightarrow> world \<Rightarrow> 'a io" where
  "run_directly F p w =
     (case exec F p w of
        (Returned x, w') \<Rightarrow> Some (Inr x, w')
      | (Raised e, w') \<Rightarrow> Some (Inl e, w')
      | (Hung, w') \<Rightarrow> None)"

definition run_on_worker :: "nat \<Rightarrow> faults \<Rightarrow> 'a prog \<Rightarrow> world \<Rightarrow> 'a io" where
  "run_on_worker timeout F p w =
     (case exec F p w of
        (Returned x, w') \<Rightarrow> Some (Inr x, w')
      | (Raised e, w') \<Rightarrow> Some (Inl e, w')
      | (Hung, w') \<Rightarrow> if timeout = 0 then None else Some (Inl IOTimeoutError, w'))"

definition run_in_iothread :: "environ \<Rightarrow> bool \<Rightarrow> faults \<Rightarrow> 'a prog \<Rightarrow> world \<Rightarrow> 'a io" where
  "run_in_iothread e in_iothread F p w =
     (if in_iothread then run_directly F p w
      else case disable_cache_fallback e of
             Inl x \<Rightarrow> Some (Inl x, w)
           | Inr True \<Rightarrow> run_directly F p w
           | Inr False \<Rightarrow>
               (case io_timeout e of
                  Inl x \<Rightarrow> Some (Inl x, w)
                | Inr ms \<Rightarrow> run_on_worker ms F p w))"

text \<open>Computations on the world.\<close>

type_synonym 'a comp = "(world, 'a) stateful"

lemma run_on_worker_returns: "0 < timeout \<Longrightarrow> \<exists>r w'. run_on_worker timeout F p w = Some (r, w')"
  by (auto simp: run_on_worker_def split: prod.split outcome.split)

lemma run_in_iothread_returns:
  assumes "disable_cache_fallback e = Inr False" and "io_timeout e = Inr ms" and "0 < ms"
  shows "\<exists>r w'. run_in_iothread e False F p w = Some (r, w')"
  using run_on_worker_returns[OF assms(3)] by (simp add: run_in_iothread_def assms(1,2))

section \<open>Properties\<close>



text \<open>C25: A call on the executor always can be answered without its timeout: from any
  reachable state in which a caller waits, the worker's steps alone lead to the reply with
  the result of the caller's task; no task is lost and no worker waits for nothing.\<close>

theorem executor_answers:
  assumes "ex_reachable body has_timeout st" and "caller st = C_wait s c"
  shows "\<exists>st'. (ex_step body False)\<^sup>*\<^sup>* st st' \<and> caller st' = C_idle \<and>
    (s, Got (body s)) \<in> set (replies st')"
proof -
  from run_finishes[OF ex_reachable_inv[OF assms(1)] assms(2), of False]
  obtain st2 r where st2: "(ex_step body False)\<^sup>*\<^sup>* st st2" "ex_inv body st2" "caller st2 = C_wait s c"
      "finished (contexts st2 c)" "promises st2 s = Some r" by auto
  have "ex_step body False st2 (get_result s r st2)" using st2 by (auto intro: Get_result)
  moreover have "r = body s" using st2(2,5) by (auto simp: ex_inv_def)
  ultimately show ?thesis
    using st2(1) by (intro exI[of _ "get_result s r st2"]) (auto simp: get_result_def)
qed

theorem executor_answers_witness:
  "\<exists>st'. (ex_step (\<lambda>_. Threw) False)\<^sup>*\<^sup>* (submit new_executor) st' \<and> (0, Got Threw) \<in> set (replies st')"
proof -
  have "ex_step (\<lambda>_. Threw) False new_executor (submit new_executor)"
    by (rule Submit) (simp add: new_executor_def)
  then have "ex_reachable (\<lambda>_. Threw) False (submit new_executor)"
    by (meson ex_reachable.intros)
  moreover have "caller (submit new_executor) = C_wait 0 0"
    by (simp add: ex_ops new_executor_def)
  ultimately show ?thesis using executor_answers by meson
qed

end
