(* ===== verification/Disk_Cache.thy ===== *)
theory Disk_Cache
  imports Filesystem Executor Paths
begin

text \<open>
  \<^verbatim>\<open>cache/disk.hpp\<close>: the disk cache over several root directories. Every access of the
  file system is a program run on the I/O thread, so it may fail or time out; what the
  cache keeps between calls is the number of timeouts of each root.
\<close>

definition kCommitFileName :: string where
  "kCommitFileName = ''.committed''"

section \<open>Entries\<close>

record disk_cache_entry =
  shared :: bool
  hit :: bool
  committed :: bool
  abandoned :: bool
  root_index :: nat
  entry_path :: fpath
  commit_path :: fpath

definition new_entry :: "bool \<Rightarrow> fpath \<Rightarrow> fpath \<Rightarrow> bool \<Rightarrow> nat \<Rightarrow> disk_cache_entry" where
  "new_entry is_hit p target is_shared i =
     \<lparr>shared = is_shared, hit = is_hit, committed = False, abandoned = False, root_index = i,
      entry_path = p, commit_path = target\<rparr>"

text \<open>
  The renaming at the end of \<^verbatim>\<open>commit\<close>: when another process was first, its entry is
  taken and the own build is removed.
\<close>

definition publish_rename :: "nat \<Rightarrow> fpath \<Rightarrow> fpath \<Rightarrow> unit prog" where
  "publish_rename depth source target =
     Sys (Rename source target) (\<lambda>r. case r of
       R_err e \<Rightarrow>
         if e \<noteq> EEXIST \<and> e \<noteq> ENOTEMPTY then Raise (Panic (''cache rename failed: '' @ errno_text e))
         else bind_prog (exists_file (target @ [kCommitFileName])) (\<lambda>there.
                if \<not> there then Raise (Panic (''cache rename failed: '' @ errno_text e))
                else safe_remove_all depth source)
     | _ \<Rightarrow> Return ())"

text \<open>The task of \<^verbatim>\<open>commit\<close>; \<open>depth\<close> bounds the nesting of the directories of a build.\<close>

definition publish_task :: "nat \<Rightarrow> fpath \<Rightarrow> fpath \<Rightarrow> bool \<Rightarrow> unit prog" where
  "publish_task depth source target is_shared =
     bind_prog (write_file_sync (source @ [kCommitFileName]) [] is_shared) (\<lambda>_.
     bind_prog (fsync_dir depth source is_shared) (\<lambda>_.
     bind_prog (make_dirs (butlast target) is_shared) (\<lambda>_.
     publish_rename depth source target)))"

definition commit ::
  "environ \<Rightarrow> bool \<Rightarrow> faults \<Rightarrow> nat \<Rightarrow> disk_cache_entry \<Rightarrow> world \<Rightarrow>
   (fpath result \<times> disk_cache_entry \<times> world) option" where
  "commit e thr F depth en w =
     (if hit en \<or> committed en then Some (Inr (entry_path en), en, w)
      else case run_in_iothread e thr F
                  (publish_task depth (entry_path en) (commit_path en) (shared en)) w of
             None \<Rightarrow> None
           | Some (Inl x, w') \<Rightarrow>
               Some (Inl x, if x = IOTimeoutError then en\<lparr>abandoned := True\<rparr> else en, w')
           | Some (Inr _, w') \<Rightarrow>
               Some (Inr (commit_path en),
                     en\<lparr>entry_path := commit_path en, hit := True, committed := True\<rparr>, w'))"

text \<open>The destructor: best-effort removal of a temporary directory.\<close>

definition destroy ::
  "environ \<Rightarrow> bool \<Rightarrow> faults \<Rightarrow> nat \<Rightarrow> disk_cache_entry \<Rightarrow> world \<Rightarrow> world option" where
  "destroy e thr F depth en w =
     (if \<not> hit en \<and> \<not> committed en \<and> \<not> abandoned en
      then map_option snd (run_in_iothread e thr F (safe_remove_all depth (entry_path en)) w)
      else Some w)"

section \<open>The roots\<close>

record disk_cache =
  paths :: "fpath list"
  num_timeouts :: "nat list"

definition make_disk_cache :: "fpath list \<Rightarrow> disk_cache result" where
  "make_disk_cache ps =
     bind_result (dj_host_assert (ps \<noteq> []) ''not this->paths.empty()'') (\<lambda>_.
     Inr \<lparr>paths = ps, num_timeouts = replicate (length ps) 0\<rparr>)"

definition report_error :: "nat \<Rightarrow> exn \<Rightarrow> nat list \<Rightarrow> nat list" where
  "report_error root x nt = (if x = IOTimeoutError then nt[root := Suc (nt ! root)] else nt)"

text \<open>
  The roots of the environment: a list separated by colons, or one directory in the home
  directory. The loop takes the items off the text; the pieces are those of \<open>split_on\<close>.
\<close>

fun check_roots :: "string \<Rightarrow> string list \<Rightarrow> path list result" where
  "check_roots text [] = Inr []"
| "check_roots text (item # items) =
     bind_result (dj_host_assert (item \<noteq> []) (''disk cache path list contains an empty path: '' @ text)) (\<lambda>_.
     bind_result (check_roots text items) (\<lambda>ps. Inr (item # ps)))"

definition cache_roots :: "env \<Rightarrow> path list result" where
  "cache_roots v =
     bind_result (env_string v ''JIT_CACHE_DIR'') (\<lambda>opt. case opt of
       Some text \<Rightarrow> check_roots text (split_on CHR '':'' text)
     | None \<Rightarrow>
         bind_result (get_env_string (environ v) ''HOME'') (\<lambda>home.
         bind_result (dj_host_assert (home \<noteq> []) ''HOME environment variable must not be empty'') (\<lambda>_.
         Inr [path_append home ''.dj''])))"

text \<open>A path as the operating system resolves it, without symbolic links.\<close>

definition resolve :: "path \<Rightarrow> path \<Rightarrow> fpath" where
  "resolve cwd p = fst (norm_names True (path_names (absolute_path cwd p)))"

definition disk_cache_from_env :: "path \<Rightarrow> env \<Rightarrow> disk_cache result" where
  "disk_cache_from_env cwd v =
     bind_result (cache_roots v) (\<lambda>ps. make_disk_cache (map (resolve cwd) ps))"

section \<open>Looking up an entry\<close>

definition is_tag_char :: "char \<Rightarrow> bool" where
  "is_tag_char c \<longleftrightarrow>
     (let n = of_char c :: nat
      in (97 \<le> n \<and> n \<le> 122) \<or> (65 \<le> n \<and> n \<le> 90) \<or> (48 \<le> n \<and> n \<le> 57) \<or> n = 95)"

definition check_tag :: "string \<Rightarrow> unit result" where
  "check_tag tag =
     dj_host_assert (tag \<noteq> [] \<and> list_all is_tag_char tag)
       (''cache tag must contain only letters, digits, or underscores: '' @ tag)"

definition entry_name :: "string \<Rightarrow> string \<Rightarrow> string" where
  "entry_name tag digest = tag @ ''.'' @ digest"

definition entry_dir :: "fpath \<Rightarrow> string \<Rightarrow> fpath" where
  "entry_dir root name = root @ [''cache'', name]"

definition tmp_dir :: "fpath \<Rightarrow> string \<Rightarrow> fpath" where
  "tmp_dir root uuid = root @ [''tmp'', uuid]"

definition probe_task :: "fpath \<Rightarrow> bool prog" where
  "probe_task p =
     bind_prog (exists_file (p @ [kCommitFileName])) (\<lambda>there.
     if \<not> there then Return False
     else bind_prog (try_update_mtime (p @ [kCommitFileName])) (\<lambda>_. Return True))"

text \<open>The first loop: the root with the entry, if any, and the roots whose lookup failed.\<close>

fun lookup_roots ::
  "environ \<Rightarrow> bool \<Rightarrow> faults \<Rightarrow> fpath list \<Rightarrow> string \<Rightarrow> nat list \<Rightarrow> nat list \<Rightarrow> nat list \<Rightarrow> world \<Rightarrow>
   ((nat option \<times> nat list) result \<times> nat list \<times> world) option" where
  "lookup_roots e thr F roots name [] failed nt w = Some (Inr (None, failed), nt, w)"
| "lookup_roots e thr F roots name (i # is) failed nt w =
     (if nt ! i \<ge> 3 then lookup_roots e thr F roots name is failed nt w
      else case run_in_iothread e thr F (probe_task (entry_dir (roots ! i) name)) w of
             None \<Rightarrow> None
           | Some (Inr True, w') \<Rightarrow> Some (Inr (Some i, failed), nt, w')
           | Some (Inr False, w') \<Rightarrow> lookup_roots e thr F roots name is failed nt w'
           | Some (Inl x, w') \<Rightarrow>
               (case disable_cache_fallback e of
                  Inl y \<Rightarrow> Some (Inl y, nt, w')
                | Inr True \<Rightarrow> Some (Inl x, nt, w')
                | Inr False \<Rightarrow>
                    lookup_roots e thr F roots name is (failed @ [i]) (report_error i x nt) w'))"

section \<open>Making a temporary directory\<close>

definition create_task :: "fpath \<Rightarrow> fpath \<Rightarrow> bool prog" where
  "create_task root tmp = Sys (Stat root) (\<lambda>r.
     let prepare = (\<lambda>is_shared. bind_prog (make_dirs (butlast tmp) is_shared) (\<lambda>_.
                    bind_prog (make_dirs tmp is_shared) (\<lambda>_. Return is_shared)))
     in case r of
          R_err e \<Rightarrow>
            if e \<noteq> ENOENT then Raise (Panic (''cache root status failed: '' @ errno_text e))
            else prepare False
        | R_stat (Some n) \<Rightarrow> prepare (Bit_Operations.and (node_perms n) set_gid \<noteq> 0)
        | _ \<Rightarrow> prepare False)"

text \<open>The second loop; \<open>uuid i\<close> is the name drawn for root \<open>i\<close>.\<close>

fun create_in_roots ::
  "environ \<Rightarrow> bool \<Rightarrow> faults \<Rightarrow> (nat \<Rightarrow> string) \<Rightarrow> fpath list \<Rightarrow> string \<Rightarrow> nat list \<Rightarrow> nat list \<Rightarrow>
   nat list \<Rightarrow> world \<Rightarrow> (disk_cache_entry result \<times> nat list \<times> world) option" where
  "create_in_roots e thr F uuid roots name [] failed nt w =
     Some (Inl (Panic ''all cache roots failed''), nt, w)"
| "create_in_roots e thr F uuid roots name (i # is) failed nt w =
     (if nt ! i \<ge> 3 \<or> i \<in> set failed then create_in_roots e thr F uuid roots name is failed nt w
      else let tmp = tmp_dir (roots ! i) (uuid i)
           in case run_in_iothread e thr F (create_task (roots ! i) tmp) w of
                None \<Rightarrow> None
              | Some (Inr is_shared, w') \<Rightarrow>
                  Some (Inr (new_entry False tmp (entry_dir (roots ! i) name) is_shared i), nt, w')
              | Some (Inl x, w') \<Rightarrow>
                  (case disable_cache_fallback e of
                     Inl y \<Rightarrow> Some (Inl y, nt, w')
                   | Inr True \<Rightarrow> Some (Inl x, nt, w')
                   | Inr False \<Rightarrow>
                       create_in_roots e thr F uuid roots name is failed (report_error i x nt) w'))"

definition entry ::
  "environ \<Rightarrow> bool \<Rightarrow> faults \<Rightarrow> (nat \<Rightarrow> string) \<Rightarrow> disk_cache \<Rightarrow> string \<Rightarrow> string \<Rightarrow> nat \<Rightarrow> world \<Rightarrow>
   (disk_cache_entry result \<times> disk_cache \<times> world) option" where
  "entry e thr F uuid dc tag digest first_root w =
     (case check_tag tag of
        Inl x \<Rightarrow> Some (Inl x, dc, w)
      | Inr _ \<Rightarrow>
      let name = entry_name tag digest; roots = paths dc; is = [first_root..<length roots]
      in case lookup_roots e thr F roots name is [] (num_timeouts dc) w of
           None \<Rightarrow> None
         | Some (Inl x, nt, w') \<Rightarrow> Some (Inl x, dc\<lparr>num_timeouts := nt\<rparr>, w')
         | Some (Inr (Some i, failed), nt, w') \<Rightarrow>
             Some (Inr (new_entry True (entry_dir (roots ! i) name) [] False i),
                   dc\<lparr>num_timeouts := nt\<rparr>, w')
         | Some (Inr (None, failed), nt, w') \<Rightarrow>
             (case create_in_roots e thr F uuid roots name is failed nt w' of
                None \<Rightarrow> None
              | Some (r, nt', w'') \<Rightarrow> Some (r, dc\<lparr>num_timeouts := nt'\<rparr>, w'')))"

section \<open>One root\<close>

lemma run_io_Inr:
  "run_in_iothread e thr F p w = Some (Inr x, w') \<Longrightarrow> exec F p w = (Returned x, w')"
  by (auto simp: run_in_iothread_def run_directly_def run_on_worker_def
      split: if_splits sum.splits bool.splits prod.splits outcome.splits)

lemma run_io_Inl:
  "run_in_iothread e thr F p w = Some (Inl x, w') \<Longrightarrow> w' = w \<or> (\<exists>o'. exec F p w = (o', w'))"
  by (auto simp: run_in_iothread_def run_directly_def run_on_worker_def
      split: if_splits sum.splits bool.splits prod.splits outcome.splits)

text \<open>Looking for the marker changes nothing and finds what is there.\<close>

lemma exec_probe:
  assumes "exec F (probe_task p) w = (o', w')"
  shows "tree w' = tree w \<and>
    (\<forall>b. o' = Returned b \<longrightarrow> b = (lookup (tree w) (p @ [kCommitFileName]) \<noteq> None))"
  using assms
  by (auto simp: probe_task_def exists_file_def try_update_mtime_def on_node_def exec.simps(4)
      split: fault.splits option.splits if_splits)

lemma probe_io:
  assumes "run_in_iothread e thr F (probe_task p) w = Some (r, w')"
  shows "tree w' = tree w \<and> (\<forall>b. r = Inr b \<longrightarrow> b = (lookup (tree w) (p @ [kCommitFileName]) \<noteq> None))"
proof (cases r)
  case (Inl x)
  with assms run_io_Inl[of e thr F "probe_task p" w x w'] exec_probe[of F p w _ w'] show ?thesis by auto
next
  case (Inr b)
  with assms run_io_Inr[of e thr F "probe_task p" w b w'] exec_probe[of F p w _ w'] show ?thesis by auto
qed

lemma is_dir_update: "is_dir_at fs p \<Longrightarrow> is_dir_at (AList.update q (set_perms m (the (lookup fs q))) fs) p"
  by (cases "p = []"; cases "the (lookup fs q)")
    (auto simp: is_dir_at_def lookup_def update_conv' split: option.splits)

lemma exec_permissions_dir:
  assumes "exec F (set_shared_permissions q b sh) w = (Returned u, w')" and "is_dir_at (tree w) p"
  shows "is_dir_at (tree w') p"
proof -
  have upd: "is_dir_at (AList.update q (set_perms m n) fs) p" if "lookup fs q = Some n" "is_dir_at fs p" for n m fs
    using is_dir_update[of fs p q m] that by simp
  from assms show ?thesis
    by (auto simp: set_shared_permissions_def exec_bind exec.simps(4) on_node_def
        split: if_splits fault.splits option.splits prod.splits outcome.splits intro: upd)
qed

lemma created_is_dir:
  assumes "\<not> (\<exists>q \<in> set (prefixes p). lookup fs q \<noteq> None \<and> \<not> is_dir_at fs q)"
  shows "is_dir_at (add_dirs (missing_dirs fs p) fs) p"
proof (cases "lookup fs p = None")
  case True
  then have "p \<in> set (missing_dirs fs p)" "p \<noteq> []" by (auto simp: missing_dirs_def lookup_def)
  then show ?thesis by (simp add: is_dir_at_def lookup_def map_of_add_dirs)
next
  case False
  then have "p \<notin> set (missing_dirs fs p)" by (simp add: missing_dirs_def)
  moreover have "is_dir_at fs p" using assms False in_set_prefixes[of p p] by blast
  ultimately show ?thesis by (auto simp: is_dir_at_def lookup_def map_of_add_dirs)
qed

lemma exec_make_dirs:
  assumes "exec F (make_dirs p sh) w = (Returned u, w')"
  shows "is_dir_at (tree w') p"
proof -
  from assms have F: "F (tick w) = No_fault"
    and ok: "\<not> (\<exists>q \<in> set (prefixes p). lookup (tree w) q \<noteq> None \<and> \<not> is_dir_at (tree w) q)"
    by (auto simp: make_dirs_def exec.simps(4) split: fault.splits if_splits)
  from F ok assms show ?thesis
    using created_is_dir[OF ok]
    by (auto simp: make_dirs_def exec.simps(4) split: bool.splits if_splits intro: exec_permissions_dir)
qed

lemma exec_create_task:
  assumes "exec F (create_task root tmp) w = (Returned b, w')"
  shows "is_dir_at (tree w') tmp"
proof -
  have two: "is_dir_at (tree w') tmp"
    if "exec F (bind_prog (make_dirs (butlast tmp) s) (\<lambda>_. bind_prog (make_dirs tmp s) (\<lambda>_. Return s))) w1 =
      (Returned b, w')" for s w1
    using that by (auto simp: exec_bind split: prod.splits outcome.splits intro: exec_make_dirs)
  from assms show ?thesis
    by (auto simp: create_task_def Let_def exec.simps(4) split: fault.splits option.splits if_splits
        intro: two)
qed

section \<open>All roots\<close>

lemma report_error_other: "j \<noteq> i \<Longrightarrow> report_error i x nt ! j = nt ! j"
  by (simp add: report_error_def)

lemma report_error_mono: "nt ! j \<le> report_error i x nt ! j \<and> length (report_error i x nt) = length nt"
  by (cases "i < length nt") (auto simp: report_error_def nth_list_update list_update_beyond)

definition marker_at :: "fs \<Rightarrow> fpath list \<Rightarrow> string \<Rightarrow> nat \<Rightarrow> bool" where
  "marker_at fs roots name i \<longleftrightarrow> lookup fs (entry_dir (roots ! i) name @ [kCommitFileName]) \<noteq> None"

definition lookup_result ::
  "fs \<Rightarrow> fpath list \<Rightarrow> string \<Rightarrow> nat list \<Rightarrow> nat list \<Rightarrow> nat option \<times> nat list \<Rightarrow> bool" where
  "lookup_result fs roots name is nt res \<longleftrightarrow>
     (case res of
        (Some i, failed) \<Rightarrow> i \<in> set is \<and> nt ! i < 3 \<and> marker_at fs roots name i \<and>
          (\<forall>j \<in> set (takeWhile (\<lambda>j. j \<noteq> i) is). nt ! j \<ge> 3 \<or> j \<in> set failed \<or> \<not> marker_at fs roots name j)
      | (None, failed) \<Rightarrow> \<forall>j \<in> set is. nt ! j \<ge> 3 \<or> j \<in> set failed \<or> \<not> marker_at fs roots name j)"

lemma lookup_result_Cons:
  assumes "lookup_result fs roots name is nt' (o', failed)" and "\<forall>j \<in> set is. nt' ! j = nt ! j"
    and "i \<notin> set is" and "nt ! i \<ge> 3 \<or> i \<in> set failed \<or> \<not> marker_at fs roots name i"
  shows "lookup_result fs roots name (i # is) nt (o', failed)"
proof -
  have "j \<in> set is" if "j \<in> set (takeWhile P is)" for P j using that set_takeWhileD by fast
  with assms show ?thesis by (auto simp: lookup_result_def split: option.splits)
qed

text \<open>The ways one root can go in the first loop.\<close>

lemma lookup_roots_cases [consumes 1, case_names disabled hit miss thrown failed]:
  assumes "lookup_roots e thr F roots name (i # is) fl nt w = Some (r, nt', w')"
  obtains "nt ! i \<ge> 3" "lookup_roots e thr F roots name is fl nt w = Some (r, nt', w')"
  | "nt ! i < 3" "run_in_iothread e thr F (probe_task (entry_dir (roots ! i) name)) w = Some (Inr True, w')"
    "r = Inr (Some i, fl)" "nt' = nt"
  | w1 where "nt ! i < 3"
    "run_in_iothread e thr F (probe_task (entry_dir (roots ! i) name)) w = Some (Inr False, w1)"
    "lookup_roots e thr F roots name is fl nt w1 = Some (r, nt', w')"
  | x y where "run_in_iothread e thr F (probe_task (entry_dir (roots ! i) name)) w = Some (Inl x, w')"
    "r = Inl y" "nt' = nt" "disable_cache_fallback e \<noteq> Inr False"
  | x w1 where "nt ! i < 3"
    "run_in_iothread e thr F (probe_task (entry_dir (roots ! i) name)) w = Some (Inl x, w1)"
    "disable_cache_fallback e = Inr False"
    "lookup_roots e thr F roots name is (fl @ [i]) (report_error i x nt) w1 = Some (r, nt', w')"
  using assms by (auto split: if_splits option.splits sum.splits bool.splits)

lemma lookup_roots_failed:
  "lookup_roots e thr F roots name is fl nt w = Some (Inr (o', fl'), nt', w') \<Longrightarrow>
   set fl \<subseteq> set fl' \<and> set fl' \<subseteq> set fl \<union> set is"
proof (induction "is" arbitrary: fl nt w)
  case (Cons i "is")
  from Cons.prems show ?case
    by (cases rule: lookup_roots_cases) (use Cons.IH in fastforce)+
qed simp

lemma lookup_roots_spec:
  "lookup_roots e thr F roots name is fl nt w = Some (r, nt', w') \<Longrightarrow> distinct is \<Longrightarrow>
   tree w' = tree w \<and> length nt' = length nt \<and> (\<forall>j. nt ! j \<le> nt' ! j) \<and>
   (\<forall>j. j \<notin> set is \<longrightarrow> nt' ! j = nt ! j) \<and>
   (\<forall>res. r = Inr res \<longrightarrow> lookup_result (tree w) roots name is nt res)"
proof (induction "is" arbitrary: fl nt w)
  case Nil
  then show ?case by (auto simp: lookup_result_def)
next
  case (Cons i "is")
  from Cons.prems(2) have d: "distinct is" "i \<notin> set is" by simp_all
  from Cons.prems(1) show ?case
  proof (cases rule: lookup_roots_cases)
    case disabled
    with Cons.IH[OF disabled(2) d(1)] d(2) show ?thesis by (auto intro!: lookup_result_Cons)
  next
    case hit
    with probe_io[OF hit(2)] show ?thesis by (auto simp: lookup_result_def marker_at_def)
  next
    case (miss w1)
    with probe_io[OF miss(2)] Cons.IH[OF miss(3) d(1)] d(2) show ?thesis
      by (auto intro!: lookup_result_Cons simp: marker_at_def)
  next
    case (thrown x y)
    with probe_io[OF thrown(1)] show ?thesis by auto
  next
    case (failed x w1)
    let ?nt = "report_error i x nt"
    from probe_io[OF failed(2)] have same: "tree w1 = tree w" by simp
    note IH = Cons.IH[OF failed(4) d(1)]
    have keep: "\<forall>j \<in> set is. ?nt ! j = nt ! j" using d(2) report_error_other by metis
    have "lookup_result (tree w) roots name (i # is) nt res" if res: "r = Inr res" for res
    proof -
      obtain o' fl' where o': "res = (o', fl')" by fastforce
      have "i \<in> set fl'" using lookup_roots_failed[OF failed(4)[unfolded res o']] by simp
      with IH res o' same keep d(2) show ?thesis by (auto intro!: lookup_result_Cons)
    qed
    moreover have "nt ! j \<le> nt' ! j" for j
      using IH report_error_mono[of nt j i x] le_trans by blast
    ultimately show ?thesis
      using IH same report_error_mono[of nt 0 i x] by (auto simp: report_error_other)
  qed
qed

lemma create_in_roots_cases [consumes 1, case_names skipped created thrown failed]:
  assumes "create_in_roots e thr F uuid roots name (i # is) fl nt w = Some (r, nt', w')"
  obtains "nt ! i \<ge> 3 \<or> i \<in> set fl" "create_in_roots e thr F uuid roots name is fl nt w = Some (r, nt', w')"
  | sh where "nt ! i < 3" "i \<notin> set fl"
    "run_in_iothread e thr F (create_task (roots ! i) (tmp_dir (roots ! i) (uuid i))) w = Some (Inr sh, w')"
    "r = Inr (new_entry False (tmp_dir (roots ! i) (uuid i)) (entry_dir (roots ! i) name) sh i)" "nt' = nt"
  | y where "nt' = nt" "r = Inl y" "disable_cache_fallback e \<noteq> Inr False"
  | x w1 where "nt ! i < 3" "i \<notin> set fl" "disable_cache_fallback e = Inr False"
    "create_in_roots e thr F uuid roots name is fl (report_error i x nt) w1 = Some (r, nt', w')"
  using assms by (auto simp: Let_def split: if_splits option.splits sum.splits bool.splits)

lemma create_in_roots_spec:
  "create_in_roots e thr F uuid roots name is fl nt w = Some (r, nt', w') \<Longrightarrow> distinct is \<Longrightarrow>
   length nt' = length nt \<and> (\<forall>j. nt ! j \<le> nt' ! j) \<and>
   (\<forall>x. r = Inl x \<and> disable_cache_fallback e = Inr False \<longrightarrow> x = Panic ''all cache roots failed'') \<and>
   (\<forall>en. r = Inr en \<longrightarrow>
      (\<exists>i \<in> set is. \<exists>sh. nt ! i < 3 \<and> i \<notin> set fl \<and> is_dir_at (tree w') (tmp_dir (roots ! i) (uuid i)) \<and>
         en = new_entry False (tmp_dir (roots ! i) (uuid i)) (entry_dir (roots ! i) name) sh i))"
proof (induction "is" arbitrary: nt w)
  case (Cons i "is")
  from Cons.prems(2) have d: "distinct is" "i \<notin> set is" by simp_all
  from Cons.prems(1) show ?case
  proof (cases rule: create_in_roots_cases)
    case skipped
    with Cons.IH[OF skipped(2) d(1)] show ?thesis by fastforce
  next
    case (created sh)
    with exec_create_task[OF run_io_Inr[OF created(3)]] show ?thesis by fastforce
  next
    case (thrown y)
    then show ?thesis by simp
  next
    case (failed x w1)
    let ?nt = "report_error i x nt"
    note IH = Cons.IH[OF failed(4) d(1)]
    have keep: "?nt ! j = nt ! j" if "j \<in> set is" for j using that d(2) report_error_other by metis
    have "nt ! j \<le> nt' ! j" for j
      using IH report_error_mono[of nt j i x] le_trans by blast
    with IH keep report_error_mono[of nt 0 i x] show ?thesis by fastforce
  qed
qed auto

lemma check_tag_cases: "check_tag tag = Inr () \<or> (\<exists>m. check_tag tag = Inl (Assertion m))"
  by (cases "tag \<noteq> [] \<and> list_all is_tag_char tag") (auto simp: check_tag_def dj_host_assert_def)

lemma entry_cases [consumes 1, case_names bad_tag thrown hit created]:
  assumes "entry e thr F uuid dc tag digest first_root w = Some (r, dc', w')"
  obtains m where "check_tag tag = Inl (Assertion m)" "r = Inl (Assertion m)" "dc' = dc" "w' = w"
  | x nt where "lookup_roots e thr F (paths dc) (entry_name tag digest) [first_root..<length (paths dc)] []
      (num_timeouts dc) w = Some (Inl x, nt, w')" "r = Inl x" "dc' = dc\<lparr>num_timeouts := nt\<rparr>"
  | i fl nt where "lookup_roots e thr F (paths dc) (entry_name tag digest) [first_root..<length (paths dc)] []
      (num_timeouts dc) w = Some (Inr (Some i, fl), nt, w')"
      "r = Inr (new_entry True (entry_dir (paths dc ! i) (entry_name tag digest)) [] False i)"
      "dc' = dc\<lparr>num_timeouts := nt\<rparr>"
  | fl nt w1 nt' where "lookup_roots e thr F (paths dc) (entry_name tag digest) [first_root..<length (paths dc)] []
      (num_timeouts dc) w = Some (Inr (None, fl), nt, w1)"
      "create_in_roots e thr F uuid (paths dc) (entry_name tag digest) [first_root..<length (paths dc)] fl nt w1 =
         Some (r, nt', w')" "dc' = dc\<lparr>num_timeouts := nt'\<rparr>"
proof (cases "check_tag tag")
  case (Inl x)
  with assms check_tag_cases[of tag] that(1) show ?thesis by (auto simp: entry_def)
next
  case (Inr u)
  let ?is = "[first_root..<length (paths dc)]" and ?name = "entry_name tag digest"
  obtain q nt w1 where lk: "lookup_roots e thr F (paths dc) ?name ?is [] (num_timeouts dc) w = Some (q, nt, w1)"
    using assms Inr by (auto simp: entry_def Let_def split: option.splits)
  show ?thesis
  proof (cases q)
    case (Inl x)
    with assms \<open>check_tag tag = Inr u\<close> lk that(2)[of x nt] show ?thesis by (simp add: entry_def)
  next
    case (Inr qq)
    obtain opt fl where qq: "qq = (opt, fl)" by fastforce
    show ?thesis
    proof (cases opt)
      case None
      with assms \<open>check_tag tag = Inr u\<close> lk Inr qq that(4)[of fl nt w1] show ?thesis
        by (auto simp: entry_def Let_def split: option.splits)
    next
      case (Some i)
      with assms \<open>check_tag tag = Inr u\<close> lk Inr qq that(3)[of i fl nt] show ?thesis by (simp add: entry_def)
    qed
  qed
qed

lemma lookup_roots_returns:
  assumes "disable_cache_fallback e = Inr False" and "io_timeout e = Inr ms" and "0 < ms"
  shows "\<exists>o' fl' nt' w'. lookup_roots e False F roots name is fl nt w = Some (Inr (o', fl'), nt', w')"
proof (induction "is" arbitrary: fl nt w)
  case (Cons i "is")
  obtain q w1 where "run_in_iothread e False F (probe_task (entry_dir (roots ! i) name)) w = Some (q, w1)"
    using run_in_iothread_returns[OF assms] by blast
  then show ?case
    using Cons assms(1) by (cases q) (auto split: bool.split)
qed simp

lemma create_in_roots_returns:
  assumes "disable_cache_fallback e = Inr False" and "io_timeout e = Inr ms" and "0 < ms"
  shows "\<exists>r nt' w'. create_in_roots e False F uuid roots name is fl nt w = Some (r, nt', w')"
proof (induction "is" arbitrary: nt w)
  case (Cons i "is")
  obtain q w1 where "run_in_iothread e False F (create_task (roots ! i) (tmp_dir (roots ! i) (uuid i))) w = Some (q, w1)"
    using run_in_iothread_returns[OF assms] by blast
  then show ?case
    using Cons assms(1) by (cases q) (auto simp: Let_def)
qed simp

lemma lookup_roots_no_faults:
  assumes "disable_cache_fallback e = Inr False" and "io_timeout e = Inr ms"
  shows "\<exists>o' w'. lookup_roots e False no_faults roots name is fl nt w = Some (Inr (o', fl), nt, w')"
proof (induction "is" arbitrary: w)
  case (Cons i "is")
  obtain w1 where "run_in_iothread e False no_faults (probe_task (entry_dir (roots ! i) name)) w =
      Some (Inr (marker_at (tree w) roots name i), w1)"
    by (cases "lookup (tree w) (entry_dir (roots ! i) name @ [kCommitFileName])")
      (auto simp: run_in_iothread_def assms run_on_worker_def probe_task_def exists_file_def
        try_update_mtime_def marker_at_def on_node_def)
  with Cons show ?case by (auto split: bool.split)
qed simp

lemma entry_total:
  assumes "disable_cache_fallback e = Inr False" and "io_timeout e = Inr ms" and "0 < ms"
  shows "\<exists>r dc' w'. entry e False F uuid dc tag digest first_root w = Some (r, dc', w') \<and>
    (\<forall>x. r = Inl x \<longrightarrow> check_tag tag = Inl x \<or> x = Panic ''all cache roots failed'') \<and>
    (\<forall>i. num_timeouts dc ! i \<le> num_timeouts dc' ! i)"
proof -
  obtain o' fl nt w1 where lk: "lookup_roots e False F (paths dc) (entry_name tag digest)
      [first_root..<length (paths dc)] [] (num_timeouts dc) w = Some (Inr (o', fl), nt, w1)"
    using lookup_roots_returns[OF assms] by blast
  obtain r2 nt2 w2 where cr: "create_in_roots e False F uuid (paths dc) (entry_name tag digest)
      [first_root..<length (paths dc)] fl nt w1 = Some (r2, nt2, w2)"
    using create_in_roots_returns[OF assms] by blast
  obtain r dc' w' where run: "entry e False F uuid dc tag digest first_root w = Some (r, dc', w')"
    using lk cr by (cases "check_tag tag"; cases o') (auto simp: entry_def Let_def)
  have d: "distinct [first_root..<length (paths dc)]" by simp
  from run have "(\<forall>x. r = Inl x \<longrightarrow> check_tag tag = Inl x \<or> x = Panic ''all cache roots failed'') \<and>
    (\<forall>i. num_timeouts dc ! i \<le> num_timeouts dc' ! i)"
  proof (cases rule: entry_cases)
    case (thrown x nt')
    with lk show ?thesis by simp
  next
    case (hit i fl' nt')
    with lookup_roots_spec[OF hit(1) d] show ?thesis by simp
  next
    case (created fl' nt' w1' nt'')
    with lookup_roots_spec[OF created(1) d] create_in_roots_spec[OF created(2) d] assms(1) show ?thesis
      by (auto intro: le_trans)
  qed simp
  with run show ?thesis by blast
qed

lemma commit_returns:
  assumes "disable_cache_fallback e = Inr False" and "io_timeout e = Inr ms" and "0 < ms"
  shows "\<exists>r en' w'. commit e False F depth en w = Some (r, en', w')"
proof -
  obtain q w1 where "run_in_iothread e False F (publish_task depth (entry_path en) (commit_path en) (shared en)) w = Some (q, w1)"
    using run_in_iothread_returns[OF assms] by blast
  then show ?thesis by (cases q) (auto simp: commit_def)
qed

lemma destroy_returns:
  assumes "disable_cache_fallback e = Inr False" and "io_timeout e = Inr ms" and "0 < ms"
  shows "\<exists>w'. destroy e False F depth en w = Some w'"
  using run_in_iothread_returns[OF assms, of F "safe_remove_all depth (entry_path en)" w]
  by (auto simp: destroy_def)

text \<open>A world with the roots \<open>/a\<close> and \<open>/b\<close>, and an entry in the second.\<close>

definition two_roots :: disk_cache where
  "two_roots = \<lparr>paths = [[''a''], [''b'']], num_timeouts = [0, 2]\<rparr>"

definition one_entry :: world where
  "one_entry = \<lparr>tree = [([''b'', ''cache'', ''kernel.00'', ''.committed''], File 0 [])], tick = 0\<rparr>"

definition slow_env :: environ where
  "slow_env = [''DJ_FS_TIMEOUT_MS'' \<mapsto> ''50'']"

lemma slow_env_ok: "disable_cache_fallback slow_env = Inr False" "io_timeout slow_env = Inr 50"
  by code_simp+

section \<open>Properties\<close>

text \<open>C22: An entry that the cache hands out, whatever calls fail or time out, belongs to a
  root at or after the first one asked for that has had fewer than three timeouts. A hit
  is the directory of the entry in that root and its commit marker was there; a miss is a
  fresh directory, which exists, under the temporary directory of the same root that the
  entry is to be published in.\<close>

theorem entry_sound:
  assumes "entry e thr F uuid dc tag digest first_root w = Some (Inr en, dc', w')"
  defines "name \<equiv> entry_name tag digest"
  shows "first_root \<le> root_index en \<and> root_index en < length (paths dc) \<and>
    num_timeouts dc ! root_index en < 3 \<and> \<not> committed en \<and> \<not> abandoned en \<and>
    (if hit en
     then entry_path en = entry_dir (paths dc ! root_index en) name \<and>
       lookup (tree w) (entry_path en @ [kCommitFileName]) \<noteq> None \<and> tree w' = tree w
     else entry_path en = tmp_dir (paths dc ! root_index en) (uuid (root_index en)) \<and>
       commit_path en = entry_dir (paths dc ! root_index en) name \<and> is_dir_at (tree w') (entry_path en))"
  using assms(1)
proof (cases rule: entry_cases)
  case (hit i fl nt)
  from lookup_roots_spec[OF hit(1)] hit(2) show ?thesis
    by (simp add: new_entry_def name_def lookup_result_def marker_at_def)
next
  case (created fl nt w1 nt')
  have d: "distinct [first_root..<length (paths dc)]" by simp
  from lookup_roots_spec[OF created(1) d] have mono: "\<forall>j. num_timeouts dc ! j \<le> nt ! j" by simp
  from create_in_roots_spec[OF created(2) d] obtain i sh
    where "i \<in> set [first_root..<length (paths dc)]" "nt ! i < 3"
      "is_dir_at (tree w') (tmp_dir (paths dc ! i) (uuid i))"
      "en = new_entry False (tmp_dir (paths dc ! i) (uuid i)) (entry_dir (paths dc ! i) name) sh i"
    unfolding name_def by blast
  with mono show ?thesis by (auto simp: new_entry_def intro: le_less_trans)
qed simp_all



text \<open>When no call fails, a lookup is a hit exactly when a usable root holds the entry,
  and it takes the first such root in the order of preference.\<close>

theorem entry_first_root:
  assumes "disable_cache_fallback e = Inr False" and "io_timeout e = Inr ms"
    and "entry e False no_faults uuid dc tag digest first_root w = Some (Inr en, dc', w')"
  defines "usable i \<equiv> first_root \<le> i \<and> i < length (paths dc) \<and> num_timeouts dc ! i < 3 \<and>
    marker_at (tree w) (paths dc) (entry_name tag digest) i"
  shows "if hit en then usable (root_index en) \<and> (\<forall>j < root_index en. \<not> usable j) else \<forall>i. \<not> usable i"
proof -
  have d: "distinct [first_root..<length (paths dc)]" by simp
  obtain o' w1 where lk: "lookup_roots e False no_faults (paths dc) (entry_name tag digest)
      [first_root..<length (paths dc)] [] (num_timeouts dc) w = Some (Inr (o', []), num_timeouts dc, w1)"
    using lookup_roots_no_faults[OF assms(1,2)] by blast
  from lookup_roots_spec[OF lk d]
  have res: "lookup_result (tree w) (paths dc) (entry_name tag digest) [first_root..<length (paths dc)]
      (num_timeouts dc) (o', [])" by simp
  have before: "j \<in> set (takeWhile (\<lambda>j. j \<noteq> i) [first_root..<length (paths dc)])"
    if "first_root \<le> j" "j < i" "i < length (paths dc)" for i j
  proof -
    have "[first_root..<length (paths dc)] = [first_root..<i] @ [i..<length (paths dc)]"
      using that upt_add_eq_append[of first_root i "length (paths dc) - i"] by simp
    then have "takeWhile (\<lambda>j. j \<noteq> i) [first_root..<length (paths dc)] =
        [first_root..<i] @ takeWhile (\<lambda>j. j \<noteq> i) [i..<length (paths dc)]"
      using takeWhile_append2[of "[first_root..<i]" "\<lambda>j. j \<noteq> i"] by auto
    with that show ?thesis by simp
  qed
  from assms(3) show ?thesis
  proof (cases rule: entry_cases)
    case (hit i fl nt)
    with lk have "o' = Some i" by simp
    with res hit(2) before show ?thesis
      by (fastforce simp: lookup_result_def new_entry_def usable_def)
  next
    case (created fl nt w1 nt')
    with lk have "o' = None" by simp
    moreover have "\<not> hit en" using create_in_roots_spec[OF created(2) d] by (auto simp: new_entry_def)
    ultimately show ?thesis using res by (force simp: lookup_result_def usable_def)
  qed simp_all
qed

lemma one_entry_hit:
  "entry slow_env False no_faults (\<lambda>_. ''u'') two_roots ''kernel'' ''00'' 0 one_entry =
     Some (Inr (new_entry True [''b'', ''cache'', ''kernel.00''] [] False 1), two_roots, one_entry\<lparr>tick := 3\<rparr>)"
  by code_simp

theorem entry_sound_witness: "lookup (tree one_entry) [''b'', ''cache'', ''kernel.00'', ''.committed''] \<noteq> None"
  using entry_sound[OF one_entry_hit] by (simp add: new_entry_def kCommitFileName_def)

theorem entry_first_root_witness: "\<not> marker_at (tree one_entry) (paths two_roots) (entry_name ''kernel'' ''00'') 0"
  using entry_first_root[OF slow_env_ok one_entry_hit] by (simp add: new_entry_def two_roots_def)

end
