(* ===== verification/Prog_Logic.thy ===== *)
theory Prog_Logic
  imports Disk_Cache
begin

text \<open>
  Reasoning about the calls that a program can make, whatever they reply: an invariant of
  the tree is kept by a program when every call the program can make keeps it. With it: a
  successful \<^verbatim>\<open>commit\<close> leaves a marked entry at its final place.
\<close>

section \<open>The calls of a program\<close>

primrec only :: "(syscall \<Rightarrow> bool) \<Rightarrow> 'a prog \<Rightarrow> bool" where
  "only P (Return x) \<longleftrightarrow> True"
| "only P (Raise e) \<longleftrightarrow> True"
| "only P Stuck \<longleftrightarrow> True"
| "only P (Sys c k) \<longleftrightarrow> P c \<and> (\<forall>r. only P (k r))"

definition keeps :: "(fs \<Rightarrow> bool) \<Rightarrow> syscall \<Rightarrow> bool" where
  "keeps I c \<longleftrightarrow> (\<forall>fs e n. I fs \<longrightarrow> I (snd (sys_ok fs c)) \<and> I (snd (sys_fail fs c e n)))"

lemma only_bind: "only P p \<Longrightarrow> (\<And>x. only P (f x)) \<Longrightarrow> only P (bind_prog p f)"
  by (induction p) auto

lemma only_for_each: "(\<And>x. x \<in> set xs \<Longrightarrow> only P (body x)) \<Longrightarrow> only P (for_each xs body)"
  by (induction xs) (auto intro!: only_bind)

lemma only_while_each: "(\<And>x. x \<in> set xs \<Longrightarrow> only P (body x)) \<Longrightarrow> only P (while_each xs body)"
  by (induction xs) (auto intro!: only_bind)

lemma only_mono: "only P p \<Longrightarrow> (\<And>c. P c \<Longrightarrow> Q c) \<Longrightarrow> only Q p"
  by (induction p) auto

lemma exec_keeps:
  "only P p \<Longrightarrow> (\<And>c. P c \<Longrightarrow> keeps I c) \<Longrightarrow> exec F p w = (out, w') \<Longrightarrow> I (tree w) \<Longrightarrow> I (tree w')"
proof (induction p arbitrary: w)
  case (Sys c k)
  from Sys.prems have I: "keeps I c" "\<And>r. only P (k r)" by auto
  note IH = Sys.IH[OF rangeI I(2) Sys.prems(2)]
  from I(1) Sys.prems(4) have
    "I (snd (sys_ok (tree w) c))" "\<And>e n. I (snd (sys_fail (tree w) c e n))" by (auto simp: keeps_def)
  with IH Sys.prems(3,4) show ?case
    by (cases "F (tick w)") (fastforce simp: exec.simps(4))+
qed auto

section \<open>Calls that keep every name\<close>

fun keeps_names :: "syscall \<Rightarrow> bool" where
  "keeps_names (Rename a b) = False"
| "keeps_names (Remove p) = False"
| "keeps_names c = True"

lemma lookup_update_Some: "lookup fs q \<noteq> None \<Longrightarrow> lookup (AList.update p n fs) q \<noteq> None"
  by (auto simp: lookup_def update_conv' split: if_splits)

lemma lookup_add_dirs: "lookup fs q \<noteq> None \<Longrightarrow> lookup (add_dirs ps fs) q \<noteq> None"
  by (auto simp: lookup_def map_of_add_dirs)

lemma keeps_names_lookup: "keeps_names c \<Longrightarrow> keeps (\<lambda>fs. lookup fs q \<noteq> None) c"
  by (cases c) (auto simp: keeps_def on_node_def lookup_update_Some[simplified] lookup_add_dirs[simplified]
      split: option.split node.split)

lemma only_permissions: "only keeps_names (set_shared_permissions p d sh)"
  by (auto simp: set_shared_permissions_def intro!: only_bind split: reply.split)

lemma only_fsync_file: "only keeps_names (fsync_file p)"
  by (auto simp: fsync_file_def split: reply.split)

lemma only_advance: "only keeps_names (advance p)"
  by (auto simp: advance_def split: reply.split)

lemma only_make_dirs: "only keeps_names (make_dirs p sh)"
  by (auto simp: make_dirs_def only_permissions split: reply.split bool.split)

lemma only_write_file_sync: "only keeps_names (write_file_sync p d sh)"
  by (auto simp: write_file_sync_def intro!: only_bind only_permissions only_fsync_file split: reply.split)

lemma only_fsync_dir: "only keeps_names (fsync_dir n p sh)"
proof (induction n arbitrary: p)
  case (Suc n)
  show ?case
    by (auto simp: Suc only_fsync_file only_permissions only_advance
        intro!: only_bind only_for_each split: reply.split option.split node.split)
qed simp

lemma only_exists_file: "only keeps_names (exists_file p)"
  by (auto simp: exists_file_def split: reply.split)

text \<open>Calls that change nothing.\<close>

fun quiet :: "syscall \<Rightarrow> bool" where
  "quiet (Chmod p m) = False"
| "quiet (Create_dirs p) = False"
| "quiet (Open_write p) = False"
| "quiet (Write p s) = False"
| "quiet (Rename a b) = False"
| "quiet (Remove p) = False"
| "quiet c = True"

lemma quiet_same: "quiet c \<Longrightarrow> snd (sys_ok fs c) = fs \<and> snd (sys_fail fs c e n) = fs"
  by (cases c) (auto simp: on_node_def split: option.split node.split)

lemma quiet_keeps: "quiet c \<Longrightarrow> keeps I c"
  by (simp add: keeps_def quiet_same)

lemma exec_quiet: "only quiet p \<Longrightarrow> exec F p w = (out, w') \<Longrightarrow> tree w' = tree w"
  using exec_keeps[of quiet p "\<lambda>fs. fs = tree w" F w out w'] quiet_keeps by blast

text \<open>The removal of a tree touches nothing outside it.\<close>

definition removes_below :: "fpath \<Rightarrow> syscall \<Rightarrow> bool" where
  "removes_below p c \<longleftrightarrow> quiet c \<or> (\<exists>q. c = Remove q \<and> prefix p q)"

lemma only_safe_remove_all: "only (removes_below p) (safe_remove_all n (p @ q))"
proof (induction n arbitrary: q)
  case (Suc n)
  from Suc[of "q @ [x]" for x] show ?case
    by (auto simp: removes_below_def intro!: only_bind only_while_each split: reply.split option.split node.split)
qed simp

lemma removes_below_outside:
  assumes "removes_below p c" "\<not> prefix p q"
  shows "keeps (\<lambda>fs. lookup fs q = n) c"
proof (cases "quiet c")
  case False
  with assms(1) obtain r where c: "c = Remove r" "prefix p r" by (auto simp: removes_below_def)
  with assms(2) have "\<not> prefix r q" by auto
  with c(1) show ?thesis
    by (cases "q = []") (auto simp: keeps_def on_node_def lookup_def map_of_erase_tree split: option.split)
qed (rule quiet_keeps)

lemma removed_outside:
  assumes "exec F (safe_remove_all n p) w = (out, w')" "\<not> prefix p q"
  shows "lookup (tree w') q = lookup (tree w) q"
  using exec_keeps[OF only_safe_remove_all[of p n "[]", simplified] removes_below_outside[OF _ assms(2)] assms(1)]
  by blast

section \<open>A successful commit\<close>

lemma exec_bind_Returned:
  assumes "exec F (bind_prog p f) w = (Returned y, w')"
  obtains x w1 where "exec F p w = (Returned x, w1)" "exec F (f x) w1 = (Returned y, w')"
  using assms by (auto simp: exec_bind split: prod.splits outcome.splits)

lemma exec_keeps_name:
  "only keeps_names p \<Longrightarrow> exec F p w = (out, w') \<Longrightarrow> lookup (tree w) q \<noteq> None \<Longrightarrow> lookup (tree w') q \<noteq> None"
  by (rule exec_keeps[of keeps_names, OF _ keeps_names_lookup])

lemma exec_Open_write:
  assumes "exec F (Sys (Open_write p) k) w = (r, w')" and "p \<noteq> []"
  obtains w1 where "exec F (k R_ok) w1 = (r, w')" "lookup (tree w1) p \<noteq> None"
  | e w1 where "exec F (k (R_err e)) w1 = (r, w')"
  | "r = Hung"
proof (cases "F (tick w)")
  case No_fault
  let ?w1 = "\<lparr>tree = snd (sys_ok (tree w) (Open_write p)), tick = Suc (tick w)\<rparr>"
  from assms(1) No_fault have run: "exec F (k (fst (sys_ok (tree w) (Open_write p)))) ?w1 = (r, w')"
    by (simp add: exec.simps(4))
  consider e where "fst (sys_ok (tree w) (Open_write p)) = R_err e"
    | "fst (sys_ok (tree w) (Open_write p)) = R_ok" "lookup (tree ?w1) p \<noteq> None"
    using assms(2)
    by (cases "is_dir_at (tree w) p"; cases "is_dir_at (tree w) (butlast p)")
      (auto simp: lookup_def update_conv')
  then show ?thesis using run that(1,2) by cases metis+
qed (use assms(1) that(2,3) in \<open>auto simp: exec.simps(4)\<close>)

lemma written_file_exists:
  assumes "exec F (write_file_sync p d sh) w = (Returned u, w')" and "p \<noteq> []"
  shows "lookup (tree w') p \<noteq> None"
proof -
  obtain k where k: "write_file_sync p d sh = Sys (Open_write p) k"
      "\<And>e. k (R_err e) = Raise (Panic (''failed to open for writing: '' @ show_path p))"
    by (simp add: write_file_sync_def)
  have "only keeps_names (k R_ok)" using only_write_file_sync[of p d sh] by (simp add: k(1))
  note keep = exec_keeps_name[OF this]
  from assms(1) have "exec F (Sys (Open_write p) k) w = (Returned u, w')" by (simp only: k(1))
  then show ?thesis
    by (cases rule: exec_Open_write[OF _ assms(2)]) (use keep k(2) in auto)
qed

text \<open>Without faults a file is written whole and nothing else changes.\<close>

lemma write_file_sync_ok:
  assumes "is_dir_at (tree w) (butlast p)" "\<not> is_dir_at (tree w) p" "p \<noteq> []"
  shows "\<exists>w' m. exec no_faults (write_file_sync p d False) w = (Returned (), w') \<and>
    lookup (tree w') p = Some (File m d) \<and> (\<forall>q. q \<noteq> p \<longrightarrow> lookup (tree w') q = lookup (tree w) q)"
proof -
  let ?m = "case lookup (tree w) p of Some n \<Rightarrow> node_perms n | None \<Rightarrow> 0x1A4"
  let ?fs = "AList.update p (File ?m d) (AList.update p (File ?m []) (tree w))"
  have "lookup (AList.update p n fs) q = (if q = p then Some n else lookup fs q)" for q n fs
    using assms(3) by (simp add: lookup_def update_conv')
  then show ?thesis
    using assms(1,2)
    by (intro exI[of _ "\<lparr>tree = ?fs, tick = tick w + 6\<rparr>"] exI[of _ ?m])
      (simp add: write_file_sync_def set_shared_permissions_def fsync_file_def on_node_def eval_nat_numeral)
qed

text \<open>The renaming, in the two ways it can succeed.\<close>

lemma publish_rename_marker:
  assumes "exec F (publish_rename depth source target) w = (Returned u, w')"
    and "apart source target" and "lookup (tree w) (source @ [kCommitFileName]) \<noteq> None"
  shows "lookup (tree w') (target @ [kCommitFileName]) \<noteq> None"
proof -
  define q where "q = target @ [kCommitFileName]"
  have apart: "\<not> prefix source q"
    using apart_not_prefix[of target source q] assms(2) by (simp add: apart_sym q_def)
  have gone: ?thesis if "exec F (safe_remove_all depth source) w1 = (Returned u, w')" "lookup (tree w1) q \<noteq> None" for w1
    using removed_outside[OF that(1) apart] that(2) by (simp add: q_def)
  have taken: ?thesis if "exec F (bind_prog (exists_file q) (\<lambda>there.
      if \<not> there then Raise x else safe_remove_all depth source)) w1 = (Returned u, w')" for w1 x
    using that
  proof (rule exec_bind_Returned)
    fix there w2
    assume e: "exec F (exists_file q) w1 = (Returned there, w2)"
      and r: "exec F (if \<not> there then Raise x else safe_remove_all depth source) w2 = (Returned u, w')"
    from r have "there" by (cases there) auto
    moreover from e this have "lookup (tree w2) q \<noteq> None"
      by (auto simp: exists_file_def exec.simps(4) split: fault.splits)
    ultimately show ?thesis using r gone by simp
  qed
  show ?thesis
  proof (cases "F (tick w)")
    case No_fault
    let ?ok = "sys_ok (tree w) (Rename source target)"
    show ?thesis
    proof (cases "fst ?ok = R_ok")
      case True
      then have "snd ?ok = move_tree source target (tree w)"
        by (auto simp: on_node_def split: option.splits if_splits)
      moreover have "source @ [kCommitFileName] \<noteq> []" "q \<noteq> []" by (auto simp: q_def)
      ultimately have "lookup (snd ?ok) q \<noteq> None"
        using move_tree_moved[OF assms(2), of "tree w" "[kCommitFileName]"] assms(3) by (simp add: lookup_def q_def)
      moreover have "w' = \<lparr>tree = snd ?ok, tick = Suc (tick w)\<rparr>"
        using assms(1) No_fault True by (simp add: publish_rename_def exec.simps(4))
      ultimately show ?thesis by (simp add: q_def)
    next
      case False
      then obtain e where "fst ?ok = R_err e" by (auto simp: on_node_def split: option.splits if_splits)
      with assms(1) No_fault taken show ?thesis
        by (auto simp: publish_rename_def exec.simps(4) q_def split: if_splits)
    qed
  next
    case (Fail e n)
    with assms(1) taken show ?thesis
      by (auto simp: publish_rename_def exec.simps(4) q_def split: if_splits)
  qed (use assms(1) in \<open>simp add: publish_rename_def exec.simps(4)\<close>)
qed

lemma publish_task_marker:
  assumes "exec F (publish_task depth source target sh) w = (Returned u, w')" and "apart source target"
  shows "lookup (tree w') (target @ [kCommitFileName]) \<noteq> None"
  using assms(1) unfolding publish_task_def
  by (elim exec_bind_Returned)
    (metis publish_rename_marker assms(2) written_file_exists exec_keeps_name only_fsync_dir only_make_dirs
      append_is_Nil_conv not_Cons_self2)

lemma commit_cases [consumes 3, case_names published failed]:
  assumes "commit e thr F depth en w = Some (r, en', w')" and "\<not> hit en" and "\<not> committed en"
  obtains "r = Inr (commit_path en)" "en' = en\<lparr>entry_path := commit_path en, hit := True, committed := True\<rparr>"
    "run_in_iothread e thr F (publish_task depth (entry_path en) (commit_path en) (shared en)) w = Some (Inr (), w')"
  | x where "r = Inl x" "en' = en\<lparr>abandoned := abandoned en \<or> x = IOTimeoutError\<rparr>"
  using assms by (auto simp: commit_def split: option.splits sum.splits if_splits)

lemma commit_marker:
  assumes "commit e thr F depth en w = Some (Inr p, en', w')" and "\<not> hit en" and "\<not> committed en"
    and "apart (entry_path en) (commit_path en)"
  shows "p = commit_path en \<and> lookup (tree w') (p @ [kCommitFileName]) \<noteq> None"
  using assms(1-3)
proof (cases rule: commit_cases)
  case published
  with publish_task_marker[OF run_io_Inr[OF published(3)] assms(4)] show ?thesis by simp
qed simp

lemma tmp_entry_apart: "apart (tmp_dir root uuid) (entry_dir root name)"
  by (simp add: apart_def tmp_dir_def entry_dir_def)

end
