(* ===== verification/Publication.thy ===== *)
theory Publication
  imports Prog_Logic
begin

text \<open>
  Many processes publishing entries of the disk cache at the same time, each call of each
  process a step of its own, with every fault and with processes that stop for ever at any
  call (a crash, or a task that was left behind by a timeout). What is shown: whoever
  sees the commit marker of an entry sees a complete entry, and it stays as it is.

  The proof is about one process: \<open>wp\<close> is the weakest precondition of a program over the
  view of its own temporary directory, under a guarantee (\<open>allowed\<close>) of what the program
  touches. The guarantees of the processes together keep the views apart.
\<close>

section \<open>Views\<close>

type_synonym view = "fpath \<Rightarrow> node option"

definition view_at :: "fs \<Rightarrow> fpath \<Rightarrow> view" where
  "view_at fs p = (\<lambda>q. lookup fs (p @ q))"

definition is_file :: "node option \<Rightarrow> string \<Rightarrow> bool" where
  "is_file n d \<longleftrightarrow> (\<exists>m. n = Some (File m d))"

definition has_files :: "(fpath \<times> string) list \<Rightarrow> view \<Rightarrow> bool" where
  "has_files files v \<longleftrightarrow> (\<forall>(q, d) \<in> set files. is_file (v q) d)"

text \<open>A published entry: a directory with its marker and every file of the build.\<close>

definition complete :: "(fpath \<times> string) list \<Rightarrow> view \<Rightarrow> bool" where
  "complete files v \<longleftrightarrow> is_file (v [kCommitFileName]) [] \<and> has_files files v"

text \<open>Two views with the same directories and the same contents of files.\<close>

fun node_data :: "node \<Rightarrow> string option" where
  "node_data (Dir m) = None"
| "node_data (File m d) = Some d"

definition same_data :: "view \<Rightarrow> view \<Rightarrow> bool" where
  "same_data v v' \<longleftrightarrow> (\<forall>q. map_option node_data (v q) = map_option node_data (v' q))"

lemma same_data_refl [simp]: "same_data v v"
  by (simp add: same_data_def)

lemma same_data_trans: "same_data u v \<Longrightarrow> same_data v w \<Longrightarrow> same_data u w"
  by (simp add: same_data_def)

lemma is_file_data: "is_file n d \<longleftrightarrow> map_option node_data n = Some (Some d)"
  by (cases n; cases "the n") (auto simp: is_file_def)

lemma same_data_is_file: "same_data v v' \<Longrightarrow> is_file (v q) d \<longleftrightarrow> is_file (v' q) d"
  by (simp add: same_data_def is_file_data)

lemma same_data_complete: "same_data v v' \<Longrightarrow> complete files v \<longleftrightarrow> complete files v'"
  by (simp add: complete_def has_files_def same_data_is_file)

lemma same_data_None: "same_data v v' \<Longrightarrow> v q = None \<longleftrightarrow> v' q = None"
  by (metis same_data_def option.map_disc_iff)

section \<open>The tree after any outcome of a call\<close>

lemma quiet_result: "sys_result fs c r fs' \<Longrightarrow> quiet c \<Longrightarrow> fs' = fs"
  by (induction rule: sys_result.induct; case_tac c)
    (auto simp: on_node_def split: option.splits node.splits if_splits)

lemma lookup_update: "p \<noteq> [] \<Longrightarrow> lookup (AList.update p n fs) q = (if q = p then Some n else lookup fs q)"
  by (simp add: lookup_def update_conv')

lemma lookup_update_other: "q \<noteq> p \<Longrightarrow> lookup (AList.update p n fs) q = lookup fs q"
  by (simp add: lookup_def update_conv')

lemma lookup_added_dirs:
  "q \<noteq> [] \<Longrightarrow> lookup (add_dirs ps fs) q = (if q \<in> set ps then Some (Dir 0x1ED) else lookup fs q)"
  by (simp add: lookup_def map_of_add_dirs)

lemma chmod_result:
  assumes "sys_result fs (Chmod p m) r fs'"
  shows "lookup fs' q = (if r = R_ok \<and> q = p \<and> p \<noteq> [] then map_option (set_perms m) (lookup fs q) else lookup fs q)"
  using assms
  by (cases rule: sys_result.cases)
    (auto simp: on_node_def lookup_def update_conv' split: option.splits)

lemma lookup_add_missing:
  assumes "set ps \<subseteq> set (missing_dirs fs p)"
  shows "lookup (add_dirs ps fs) q = lookup fs q \<or>
    prefix q p \<and> lookup fs q = None \<and> (\<exists>m. lookup (add_dirs ps fs) q = Some (Dir m))"
proof (cases "q \<in> set ps")
  case True
  with assms have "prefix q p" "lookup fs q = None" by (auto simp: missing_dirs_def)
  then have "q \<noteq> []" by (auto simp: lookup_def)
  with True \<open>prefix q p\<close> \<open>lookup fs q = None\<close> show ?thesis by (simp add: lookup_added_dirs)
next
  case False
  then show ?thesis by (simp add: map_of_add_dirs lookup_def)
qed

lemma create_result:
  assumes "sys_result fs (Create_dirs p) r fs'"
  shows "lookup fs' q = lookup fs q \<or>
    prefix q p \<and> lookup fs q = None \<and> (\<exists>m. lookup fs' q = Some (Dir m))"
proof -
  from assms have "fs' = fs \<or> (\<exists>ps. set ps \<subseteq> set (missing_dirs fs p) \<and> fs' = add_dirs ps fs)"
  proof cases
    case result_ok
    then show ?thesis by (auto split: if_splits)
  next
    case (result_fail e k)
    then have "fs' = add_dirs (take k (missing_dirs fs p)) fs" by simp
    then show ?thesis using set_take_subset[of k "missing_dirs fs p"] by metis
  qed
  then show ?thesis using lookup_add_missing by blast
qed

lemma open_write_result:
  assumes "sys_result fs (Open_write p) r fs'"
  shows "q \<noteq> p \<Longrightarrow> lookup fs' q = lookup fs q"
    and "(\<forall>e. r \<noteq> R_err e) \<Longrightarrow> is_file (lookup fs' p) []"
  using assms
  by (cases rule: sys_result.cases;
      auto simp: lookup_def update_conv' is_file_def is_dir_at_def split: if_splits option.splits)+

lemma write_result:
  assumes "sys_result fs (Write p s) r fs'"
  shows "q \<noteq> p \<Longrightarrow> lookup fs' q = lookup fs q"
    and "(\<forall>e. r \<noteq> R_err e) \<Longrightarrow> is_file (lookup fs p) d \<Longrightarrow> p \<noteq> [] \<Longrightarrow> is_file (lookup fs' p) (d @ s)"
  using assms
  by (cases rule: sys_result.cases;
      auto simp: lookup_def update_conv' is_file_def split: if_splits option.splits)+

lemma remove_result:
  assumes "sys_result fs (Remove p) r fs'"
  shows "\<not> prefix p q \<Longrightarrow> lookup fs' q = lookup fs q"
  using assms
  by (cases rule: sys_result.cases)
    (auto simp: on_node_def lookup_def map_of_erase_tree split: if_splits option.splits)

text \<open>A renaming that changes the tree moves the whole directory, onto a place with nothing below it.\<close>

lemma rename_result:
  assumes "sys_result fs (Rename a b) r fs'"
  shows "fs' = fs \<or> \<not> has_below fs b \<and> fs' = move_tree a b fs"
  using assms
  by (cases rule: sys_result.cases) (auto simp: on_node_def split: if_splits option.splits)

lemma lookup_move_tree:
  assumes "apart a b"
  shows "lookup (move_tree a b fs) (b @ q) = lookup fs (a @ q)"
    and "lookup (move_tree a b fs) (a @ q) = None"
    and "\<not> prefix a p \<Longrightarrow> \<not> prefix b p \<Longrightarrow> lookup (move_tree a b fs) p = lookup fs p"
  using assms move_tree_moved[OF assms] move_tree_source[OF assms]
  by (auto simp: lookup_def move_tree_other apart_def)

lemma lookup_has_below:
  assumes "lookup fs (p @ q) = Some n" and "q \<noteq> []"
  shows "has_below fs p"
proof -
  from assms have "(p @ q, n) \<in> set fs" by (auto simp: lookup_def dest: map_of_SomeD)
  then have "p @ q \<in> set (map fst fs)" by force
  moreover have "strict_prefix p (p @ q)" using assms(2) by (simp add: strict_prefix_def)
  ultimately show ?thesis unfolding has_below_def by blast
qed

section \<open>Weakest preconditions\<close>

text \<open>What a process with the temporary directory \<open>tmp\<close> may do to publish \<open>files\<close> as \<open>target\<close>.\<close>

fun allowed :: "fpath \<Rightarrow> fpath \<Rightarrow> (fpath \<times> string) list \<Rightarrow> syscall \<Rightarrow> view \<Rightarrow> bool" where
  "allowed tmp target files (Chmod p m) v \<longleftrightarrow>
     prefix tmp p \<or> strict_prefix p target \<or> strict_prefix p tmp"
| "allowed tmp target files (Create_dirs p) v \<longleftrightarrow>
     p = tmp \<or> strict_prefix p target \<or> strict_prefix p tmp"
| "allowed tmp target files (Open_write p) v \<longleftrightarrow> prefix tmp p"
| "allowed tmp target files (Write p s) v \<longleftrightarrow> prefix tmp p"
| "allowed tmp target files (Remove p) v \<longleftrightarrow> prefix tmp p"
| "allowed tmp target files (Rename a b) v \<longleftrightarrow> a = tmp \<and> b = target \<and> complete files v"
| "allowed tmp target files c v \<longleftrightarrow> True"

record writer =
  w_tmp :: fpath
  w_target :: fpath
  w_files :: "(fpath \<times> string) list"

primrec wp :: "writer \<Rightarrow> ('a \<Rightarrow> view \<Rightarrow> bool) \<Rightarrow> 'a prog \<Rightarrow> view \<Rightarrow> bool" where
  "wp W Q (Return x) = (\<lambda>v. Q x v)"
| "wp W Q (Raise e) = (\<lambda>v. True)"
| "wp W Q Stuck = (\<lambda>v. True)"
| "wp W Q (Sys c k) = (\<lambda>v. allowed (w_tmp W) (w_target W) (w_files W) c v \<and>
     (\<forall>fs r fs'. view_at fs (w_tmp W) = v \<longrightarrow> sys_result fs c r fs' \<longrightarrow>
        wp W Q (k r) (view_at fs' (w_tmp W))))"

lemma wp_mono: "wp W Q p v \<Longrightarrow> (\<And>x v. Q x v \<Longrightarrow> Q' x v) \<Longrightarrow> wp W Q' p v"
  by (induction p arbitrary: v) auto

lemma wp_bind: "wp W (\<lambda>x. wp W Q (f x)) p v \<Longrightarrow> wp W Q (bind_prog p f) v"
  by (induction p arbitrary: v) auto

lemma wp_seq: "wp W R p v \<Longrightarrow> (\<And>x v. R x v \<Longrightarrow> wp W Q (f x) v) \<Longrightarrow> wp W Q (bind_prog p f) v"
  by (rule wp_bind, erule wp_mono)

lemma wp_catch: "wp W Q p v \<Longrightarrow> (\<And>e v. wp W Q (h e) v) \<Longrightarrow> wp W Q (catch_prog p h) v"
  by (induction p arbitrary: v) auto

lemma wp_quiet:
  "quiet c \<Longrightarrow> (\<And>r. wp W Q (k r) v) \<Longrightarrow> wp W Q (Sys c k) v"
  by (cases c) (auto dest!: quiet_result)

lemma wp_for_each:
  assumes "I v" and "\<And>x v. I v \<Longrightarrow> wp W (\<lambda>_. I) (body x) v"
  shows "wp W (\<lambda>_. I) (for_each xs body) v"
  using assms(1) by (induction xs arbitrary: v) (auto intro!: wp_seq[OF assms(2)])

lemma wp_while_each:
  assumes "I v" and "\<And>x v. I v \<Longrightarrow> wp W (\<lambda>_. I) (body x) v"
  shows "wp W (\<lambda>_. I) (while_each xs body) v"
  using assms(1) by (induction xs arbitrary: v) (auto intro!: wp_seq[OF assms(2)])

text \<open>The calls that change the tree.\<close>

lemma wp_chmod_data:
  assumes "prefix (w_tmp W) p \<or> strict_prefix p (w_target W) \<or> strict_prefix p (w_tmp W)"
    and "\<And>r v'. same_data v v' \<Longrightarrow> wp W Q (k r) v'"
  shows "wp W Q (Sys (Chmod p m) k) v"
proof -
  have perm: "node_data (set_perms m n) = node_data n" for n by (cases n) simp_all
  have "same_data (view_at fs t) (view_at fs' t)" if "sys_result fs (Chmod p m) r fs'" for fs r fs' t
    using chmod_result[OF that] by (auto simp: same_data_def view_at_def option.map_comp o_def perm)
  with assms show ?thesis by auto
qed

lemma wp_create_above:
  assumes "strict_prefix p (w_target W) \<or> strict_prefix p (w_tmp W)" and "\<not> prefix (w_tmp W) p"
    and "\<And>r. wp W Q (k r) v"
  shows "wp W Q (Sys (Create_dirs p) k) v"
proof -
  have "view_at fs' (w_tmp W) = view_at fs (w_tmp W)" if "sys_result fs (Create_dirs p) r fs'" for fs r fs'
  proof
    fix q
    have "\<not> prefix (w_tmp W @ q) p" using assms(2) by (meson append_prefixD)
    then show "view_at fs' (w_tmp W) q = view_at fs (w_tmp W) q"
      using create_result[OF that, of "w_tmp W @ q"] by (auto simp: view_at_def)
  qed
  with assms(1,3) show ?thesis by auto
qed

lemma wp_create_tmp:
  assumes "\<And>r v. wp W Q (k r) v"
  shows "wp W Q (Sys (Create_dirs (w_tmp W)) k) v"
  using assms by simp

text \<open>Writing one file, seen from the temporary directory.\<close>

definition wrote :: "fpath \<Rightarrow> string \<Rightarrow> view \<Rightarrow> view \<Rightarrow> bool" where
  "wrote q d v v' \<longleftrightarrow> is_file (v' q) d \<and>
     (\<forall>x. x \<noteq> q \<longrightarrow> map_option node_data (v x) = map_option node_data (v' x))"

lemma wrote_same_data:
  assumes "wrote q d v v'" and "same_data v' v''"
  shows "wrote q d v v''"
proof -
  have eq: "map_option node_data (v'' x) = map_option node_data (v' x)" for x
    using assms(2) by (simp add: same_data_def)
  show ?thesis
    using assms(1) unfolding wrote_def is_file_data eq .
qed

lemma wp_open_write:
  assumes "\<And>r v'. (\<forall>e. r \<noteq> R_err e) \<Longrightarrow> wrote q [] v v' \<Longrightarrow> wp W Q (k r) v'"
    and "\<And>e v'. wp W Q (k (R_err e)) v'"
  shows "wp W Q (Sys (Open_write (w_tmp W @ q)) k) v"
proof -
  have "wrote q [] (view_at fs (w_tmp W)) (view_at fs' (w_tmp W))"
    if "sys_result fs (Open_write (w_tmp W @ q)) r fs'" "\<forall>e. r \<noteq> R_err e" for fs r fs'
    using open_write_result[OF that(1)] that(2) by (simp add: wrote_def view_at_def)
  with assms show ?thesis by (simp add: prefixI) metis
qed

lemma wp_write:
  assumes "w_tmp W \<noteq> []" and "wrote q d v0 v"
    and "\<And>r v'. (\<forall>e. r \<noteq> R_err e) \<Longrightarrow> wrote q (d @ s) v0 v' \<Longrightarrow> wp W Q (k r) v'"
    and "\<And>e v'. wp W Q (k (R_err e)) v'"
  shows "wp W Q (Sys (Write (w_tmp W @ q) s) k) v"
proof -
  have "wrote q (d @ s) v0 (view_at fs' (w_tmp W))"
    if "sys_result fs (Write (w_tmp W @ q) s) r fs'" "\<forall>e. r \<noteq> R_err e" "view_at fs (w_tmp W) = v" for fs r fs'
  proof -
    have "is_file (lookup fs (w_tmp W @ q)) d" using assms(2) that(3) by (auto simp: wrote_def view_at_def)
    then have "is_file (view_at fs' (w_tmp W) q) (d @ s)"
      using write_result(2)[OF that(1,2)] assms(1) by (simp add: view_at_def)
    moreover have "view_at fs' (w_tmp W) x = v x" if "x \<noteq> q" for x
      using write_result(1)[OF \<open>sys_result fs (Write (w_tmp W @ q) s) r fs'\<close>, of "w_tmp W @ x"] that
        \<open>view_at fs (w_tmp W) = v\<close> by (auto simp: view_at_def)
    ultimately show ?thesis using assms(2) by (simp add: wrote_def)
  qed
  with assms(3,4) show ?thesis by (simp add: prefixI) metis
qed

section \<open>The programs of the cache keep to their guarantee\<close>

lemma wp_permissions:
  assumes "prefix (w_tmp W) p \<or> strict_prefix p (w_target W) \<or> strict_prefix p (w_tmp W)"
  shows "wp W (\<lambda>_. same_data v) (set_shared_permissions p directory is_shared) v"
proof -
  have chmod: "wp W (\<lambda>_. same_data v) (Sys (Chmod p m) (\<lambda>r. case r of
      R_err e \<Rightarrow> Raise (panic_errno ''failed to set permissions'' p e) | _ \<Rightarrow> Return ())) v" for m
    by (rule wp_chmod_data[OF assms]) (simp split: reply.split)
  show ?thesis
    unfolding set_shared_permissions_def
    by (auto simp del: wp.simps(4) intro!: wp_seq[where R = "\<lambda>_ v'. v' = v"] wp_quiet chmod
        split: reply.split)
qed

lemma wp_fsync_file: "Q () v \<Longrightarrow> wp W Q (fsync_file p) v"
  unfolding fsync_file_def
  by (auto simp del: wp.simps(4) intro!: wp_quiet split: reply.split)

lemma wp_advance: "Q () v \<Longrightarrow> wp W Q (advance p) v"
  unfolding advance_def by (auto simp del: wp.simps(4) intro!: wp_quiet split: reply.split)

lemma wp_exists_file: "(\<And>b. Q b v) \<Longrightarrow> wp W Q (exists_file p) v"
  unfolding exists_file_def
  by (auto simp del: wp.simps(4) intro!: wp_quiet split: reply.split)

lemma wp_permissions_data:
  assumes "same_data v0 v" and "prefix (w_tmp W) p \<or> strict_prefix p (w_target W) \<or> strict_prefix p (w_tmp W)"
  shows "wp W (\<lambda>_. same_data v0) (set_shared_permissions p directory is_shared) v"
  by (rule wp_mono[OF wp_permissions[OF assms(2)]]) (rule same_data_trans[OF assms(1)])

lemma wp_fsync_dir:
  "prefix (w_tmp W) p \<Longrightarrow> same_data v0 v \<Longrightarrow> wp W (\<lambda>_. same_data v0) (fsync_dir depth p is_shared) v"
proof (induction depth arbitrary: p v)
  case (Suc n)
  have below: "prefix (w_tmp W) (p @ [x])" for x using Suc.prems(1) by (simp add: prefix_prefix)
  have entry: "wp W (\<lambda>_. same_data v0) (Sys (Stat (p @ [x])) (\<lambda>r. case r of
         R_stat (Some (Dir _)) \<Rightarrow> bind_prog (fsync_dir n (p @ [x]) is_shared) (\<lambda>_. advance p)
       | R_stat (Some (File _ _)) \<Rightarrow>
           bind_prog (set_shared_permissions (p @ [x]) False is_shared) (\<lambda>_.
           bind_prog (fsync_file (p @ [x])) (\<lambda>_. advance p))
       | R_err e \<Rightarrow> Raise (filesystem_error (p @ [x]) e)
       | _ \<Rightarrow> advance p)) v" if "same_data v0 v" for x v
    by (rule wp_quiet, simp, auto simp del: wp.simps(4) split: reply.split option.split node.split
        intro!: wp_advance that wp_seq[OF Suc.IH[OF below]] wp_seq[OF wp_permissions_data]
          wp_seq[OF wp_fsync_file[where Q = "\<lambda>_. same_data v0"]] below)
  show ?case
    unfolding fsync_dir.simps
    apply (rule wp_seq[OF wp_permissions_data[OF Suc.prems(2)]])
     apply (use Suc.prems(1) in simp)
    apply (rule wp_seq[where R = "\<lambda>_. same_data v0"])
     apply (rule wp_quiet, simp, simp split: reply.split)
    apply (rule wp_seq[OF wp_for_each[where I = "same_data v0"]], assumption, erule entry)
    by (rule wp_fsync_file)
qed simp

lemma wp_make_dirs_above:
  assumes "strict_prefix p (w_target W) \<or> strict_prefix p (w_tmp W)" and "\<not> prefix (w_tmp W) p"
    and "same_data v0 v"
  shows "wp W (\<lambda>_. same_data v0) (make_dirs p is_shared) v"
proof -
  have "wp W (\<lambda>_. same_data v0) (set_shared_permissions p True is_shared) v"
    by (rule wp_permissions_data[OF assms(3)]) (use assms(1) in blast)
  then show ?thesis
    unfolding make_dirs_def
    by (intro wp_create_above[OF assms(1,2)]) (simp add: assms(3) split: reply.split bool.split)
qed

lemma wp_make_tmp: "wp W (\<lambda>_ _. True) (make_dirs (w_tmp W) is_shared) v"
  unfolding make_dirs_def
  by (rule wp_create_tmp)
    (auto split: reply.split bool.split intro!: wp_mono[OF wp_permissions])

lemma wp_write_file_sync:
  assumes "w_tmp W \<noteq> []"
  shows "wp W (\<lambda>_. wrote q d v) (write_file_sync (w_tmp W @ q) d is_shared) v"
proof -
  have rest: "wp W (\<lambda>_. wrote q d v) (bind_prog (set_shared_permissions (w_tmp W @ q) False is_shared)
      (\<lambda>_. fsync_file (w_tmp W @ q))) v'" if "wrote q d v v'" for v'
    by (rule wp_seq[OF wp_permissions]) (auto intro: wp_fsync_file wrote_same_data[OF that])
  have close: "wp W (\<lambda>_. wrote q d v) (Sys (Close_write (w_tmp W @ q)) (\<lambda>r. case r of
         R_err e \<Rightarrow> Raise (Panic (''failed to close after writing: '' @ show_path (w_tmp W @ q)))
       | _ \<Rightarrow> bind_prog (set_shared_permissions (w_tmp W @ q) False is_shared)
                (\<lambda>_. fsync_file (w_tmp W @ q)))) v'" if "wrote q d v v'" for v'
    by (rule wp_quiet, simp) (auto simp del: wp.simps(4) split: reply.split intro: rest that)
  have wr: "wp W (\<lambda>_. wrote q d v) (Sys (Write (w_tmp W @ q) d) (\<lambda>r. case r of
       R_err e \<Rightarrow> Raise (Panic (''failed to write: '' @ show_path (w_tmp W @ q)))
     | _ \<Rightarrow> Sys (Close_write (w_tmp W @ q)) (\<lambda>r. case r of
         R_err e \<Rightarrow> Raise (Panic (''failed to close after writing: '' @ show_path (w_tmp W @ q)))
       | _ \<Rightarrow> bind_prog (set_shared_permissions (w_tmp W @ q) False is_shared)
                (\<lambda>_. fsync_file (w_tmp W @ q))))) v'" if "wrote q [] v v'" for v'
  proof (rule wp_write[OF assms that], goal_cases)
    case (1 r v')
    from close[OF 1(2)[unfolded append_Nil]] show ?case
      by (cases r) (simp_all only: reply.case wp.simps(2))
  qed simp
  show ?thesis
    unfolding write_file_sync_def
  proof (rule wp_open_write, goal_cases)
    case (1 r v')
    from wr[OF 1(2)] show ?case
      by (cases r) (simp_all only: reply.case wp.simps(2))
  qed simp
qed

lemma wp_remove:
  "prefix (w_tmp W) p \<Longrightarrow> (\<And>r v. wp W Q (k r) v) \<Longrightarrow> wp W Q (Sys (Remove p) k) v"
  by simp

lemma wp_safe_remove_all:
  "prefix (w_tmp W) p \<Longrightarrow> wp W (\<lambda>_ _. True) (safe_remove_all depth p) v"
proof (induction depth arbitrary: p v)
  case (Suc n)
  have below: "prefix (w_tmp W) (p @ [x])" for x using Suc.prems(1) by (simp add: prefix_prefix)
  have rm: "wp W (\<lambda>_ _. True) (Sys (Remove p) (\<lambda>_. Return ())) v" for v
    by (rule wp_remove[OF Suc.prems]) simp
  have body: "wp W (\<lambda>_ _. True) (Sys (Next_entry p) (\<lambda>r. case r of
        R_err e \<Rightarrow> Return False
      | _ \<Rightarrow> bind_prog (safe_remove_all n (p @ [x])) (\<lambda>_. Return True))) v" for x v
    by (rule wp_quiet) (auto simp del: wp.simps(4) split: reply.split
        intro!: wp_seq[OF Suc.IH[OF below]])
  have dir: "wp W (\<lambda>_ _. True)
      (bind_prog (Sys (List_dir p) (\<lambda>r. case r of R_names names \<Rightarrow> Return names | _ \<Rightarrow> Return [])) (\<lambda>names.
         bind_prog (while_each names (\<lambda>x. Sys (Next_entry p) (\<lambda>r. case r of
             R_err e \<Rightarrow> Return False
           | _ \<Rightarrow> bind_prog (safe_remove_all n (p @ [x])) (\<lambda>_. Return True)))) (\<lambda>_.
         Sys (Remove p) (\<lambda>_. Return ())))) v" for v
    apply (rule wp_seq[where R = "\<lambda>_ _. True"])
     apply (rule wp_quiet, simp, simp split: reply.split)
    by (rule wp_seq[OF wp_while_each[where I = "\<lambda>_. True"]]) (simp, rule body, rule rm)
  show ?case
    unfolding safe_remove_all.simps
    by (rule wp_quiet, simp, auto simp del: wp.simps(4) bind_prog.simps
        split: reply.split option.split node.split intro!: wp_quiet rm dir)
qed simp

lemma marker_kept:
  assumes "wrote q d v v'" and "q \<noteq> x"
  shows "is_file (v' x) s \<longleftrightarrow> is_file (v x) s"
  using assms by (simp add: wrote_def is_file_data)

lemma wrote_has_files:
  assumes "wrote q d v v'" and "has_files files v" and "q \<notin> fst ` set files"
  shows "has_files ((q, d) # files) v'"
proof -
  have "is_file (v' x) s" if "(x, s) \<in> set files" for x s
  proof -
    have "q \<noteq> x" using assms(3) that by force
    with marker_kept[OF assms(1)] assms(2) that show ?thesis by (auto simp: has_files_def)
  qed
  moreover have "is_file (v' q) d" using assms(1) by (simp add: wrote_def)
  ultimately show ?thesis by (auto simp: has_files_def)
qed

text \<open>Writing the files of a build.\<close>

definition write_build :: "fpath \<Rightarrow> (fpath \<times> string) list \<Rightarrow> unit prog" where
  "write_build tmp files = for_each files (\<lambda>(q, d). write_file_sync (tmp @ q) d False)"

lemma wp_write_build:
  assumes "w_tmp W \<noteq> []" and "distinct (map fst (written @ files))" and "has_files written v"
  shows "wp W (\<lambda>_. has_files (written @ files)) (write_build (w_tmp W) files) v"
  using assms(2,3)
proof (induction files arbitrary: written v)
  case (Cons f files)
  obtain q d where f: "f = (q, d)" by fastforce
  have step: "wp W (\<lambda>_. has_files (written @ f # files))
      (for_each files (\<lambda>(q, d). write_file_sync (w_tmp W @ q) d False)) v'" if "wrote q d v v'" for v'
  proof -
    have "has_files (written @ [f]) v'"
      using wrote_has_files[OF that Cons.prems(2)] Cons.prems(1) by (auto simp: f has_files_def)
    with Cons.IH[of "written @ [f]" v'] Cons.prems(1) show ?thesis by (simp add: write_build_def)
  qed
  show ?case
    unfolding write_build_def for_each.simps f prod.case
    by (rule wp_seq[OF wp_write_file_sync[OF assms(1)]]) (simp only: step[unfolded f])
qed (simp add: write_build_def)

definition writer_ok :: "writer \<Rightarrow> bool" where
  "writer_ok W \<longleftrightarrow> apart (w_tmp W) (w_target W) \<and> distinct (map fst (w_files W)) \<and>
     [kCommitFileName] \<notin> fst ` set (w_files W)"

lemma writer_paths:
  assumes "writer_ok W"
  shows "w_tmp W \<noteq> []" "strict_prefix (butlast (w_target W)) (w_target W)"
    "\<not> prefix (w_tmp W) (butlast (w_target W))" "strict_prefix (butlast (w_tmp W)) (w_tmp W)"
    "\<not> prefix (w_tmp W) (butlast (w_tmp W))"
proof -
  from assms show ne: "w_tmp W \<noteq> []" by (auto simp: writer_ok_def apart_def)
  from assms have "w_target W \<noteq> []" by (auto simp: writer_ok_def apart_def)
  then show "strict_prefix (butlast (w_target W)) (w_target W)"
    by (metis append_butlast_last_id prefixI prefix_order.less_le append_self_conv list.discI)
  show "\<not> prefix (w_tmp W) (butlast (w_target W))"
    using assms by (metis writer_ok_def apart_def prefix_order.trans prefixeq_butlast)
  show "strict_prefix (butlast (w_tmp W)) (w_tmp W)"
    using ne by (metis append_butlast_last_id prefixI prefix_order.less_le append_self_conv list.discI)
  then show "\<not> prefix (w_tmp W) (butlast (w_tmp W))"
    using prefix_order.leD by blast
qed

lemma wp_publish_rename:
  assumes "complete (w_files W) v"
  shows "wp W (\<lambda>_ _. True) (publish_rename depth (w_tmp W) (w_target W)) v"
proof -
  have "wp W (\<lambda>_ _. True) (bind_prog (exists_file (w_target W @ [kCommitFileName])) (\<lambda>there.
      if \<not> there then Raise x else safe_remove_all depth (w_tmp W))) v" for v x
    by (rule wp_seq[OF wp_exists_file[where Q = "\<lambda>_ _. True"]]) (auto intro: wp_safe_remove_all)
  with assms show ?thesis by (simp add: publish_rename_def split: reply.split)
qed

lemma wp_publish_task:
  assumes ok: "writer_ok W" and files: "has_files (w_files W) v"
  shows "wp W (\<lambda>_ _. True) (publish_task depth (w_tmp W) (w_target W) is_shared) v"
proof -
  have dirs: "wp W (\<lambda>_ _. True) (bind_prog (make_dirs (butlast (w_target W)) is_shared) (\<lambda>_.
      publish_rename depth (w_tmp W) (w_target W))) v" if "complete (w_files W) v" for v
  proof (rule wp_seq[OF wp_make_dirs_above[where ?v0.0 = v]])
    show "wp W (\<lambda>_ _. True) (publish_rename depth (w_tmp W) (w_target W)) v'" if "same_data v v'" for v'
      using \<open>complete (w_files W) v\<close> that by (intro wp_publish_rename) (simp add: same_data_complete)
  qed (use writer_paths[OF ok] in auto)
  have marker: "complete (w_files W) v'" if "wrote [kCommitFileName] [] v v'" for v'
  proof -
    have "has_files (([kCommitFileName], []) # w_files W) v'"
      using that files ok by (intro wrote_has_files) (auto simp: writer_ok_def)
    then show ?thesis by (simp add: has_files_def complete_def)
  qed
  show ?thesis
    unfolding publish_task_def
  proof (rule wp_seq[OF wp_write_file_sync[OF writer_paths(1)[OF ok]]], rule wp_seq[OF wp_fsync_dir])
    show "prefix (w_tmp W) (w_tmp W)" by simp
  next
    fix v' v''
    assume "wrote [kCommitFileName] [] v v'" "same_data v' v''"
    then have "complete (w_files W) v''" using marker same_data_complete by blast
    then show "wp W (\<lambda>_ _. True) (bind_prog (make_dirs (butlast (w_target W)) is_shared) (\<lambda>_.
      publish_rename depth (w_tmp W) (w_target W))) v''" by (rule dirs)
  qed simp
qed

section \<open>One publishing process\<close>

text \<open>
  The life of a cache miss: the temporary directory is made, the build writes its files,
  the entry is published, and when anything throws the destructor removes the directory.
\<close>

definition publisher :: "writer \<Rightarrow> fpath \<Rightarrow> nat \<Rightarrow> unit prog" where
  "publisher W root depth =
     bind_prog (create_task root (w_tmp W)) (\<lambda>is_shared.
     catch_prog
       (bind_prog (write_build (w_tmp W) (w_files W)) (\<lambda>_.
        publish_task depth (w_tmp W) (w_target W) is_shared))
       (\<lambda>x. bind_prog (safe_remove_all depth (w_tmp W)) (\<lambda>_. Raise x)))"

lemma wp_create_task:
  assumes "writer_ok W"
  shows "wp W (\<lambda>_ _. True) (create_task root (w_tmp W)) v"
proof -
  have "wp W (\<lambda>_ _. True) (bind_prog (make_dirs (butlast (w_tmp W)) b) (\<lambda>_.
      bind_prog (make_dirs (w_tmp W) b) (\<lambda>_. Return b))) v" for b v
  proof (rule wp_seq[OF wp_make_dirs_above[where ?v0.0 = v]])
    show "wp W (\<lambda>_ _. True) (bind_prog (make_dirs (w_tmp W) b) (\<lambda>_. Return b)) v'" for v'
      by (rule wp_seq[OF wp_make_tmp]) simp
  qed (use writer_paths[OF assms] in auto)
  then show ?thesis
    unfolding create_task_def Let_def
    by (intro wp_quiet) (auto simp del: wp.simps(4) bind_prog.simps split: reply.split option.split)
qed

lemma wp_publisher:
  assumes "writer_ok W"
  shows "wp W (\<lambda>_ _. True) (publisher W root depth) v"
proof -
  have "wp W (\<lambda>_ _. True) (bind_prog (write_build (w_tmp W) (w_files W)) (\<lambda>_.
      publish_task depth (w_tmp W) (w_target W) is_shared)) v" for v is_shared
  proof (rule wp_seq[OF wp_write_build[where written = "[]"]])
    show "wp W (\<lambda>_ _. True) (publish_task depth (w_tmp W) (w_target W) is_shared) v'"
      if "has_files ([] @ w_files W) v'" for v'
      using wp_publish_task[OF assms] that by simp
  qed (use assms writer_paths[OF assms] in \<open>auto simp: writer_ok_def has_files_def\<close>)
  moreover have "wp W (\<lambda>_ _. True) (bind_prog (safe_remove_all depth (w_tmp W)) (\<lambda>_. Raise x)) v" for v x
    by (rule wp_seq[OF wp_safe_remove_all]) simp_all
  ultimately show ?thesis
    unfolding publisher_def by (intro wp_seq[OF wp_create_task[OF assms]] wp_catch)
qed

section \<open>Many processes\<close>

type_synonym pool = "fs \<times> (nat \<Rightarrow> unit prog)"

inductive pool_step :: "pool \<Rightarrow> pool \<Rightarrow> bool" where
  Call: "progs i = Sys c k \<Longrightarrow> sys_result fs c r fs' \<Longrightarrow> pool_step (fs, progs) (fs', progs(i := k r))"

definition writers_ok :: "(nat \<Rightarrow> writer) \<Rightarrow> bool" where
  "writers_ok Ws \<longleftrightarrow> (\<forall>i. writer_ok (Ws i)) \<and>
     (\<forall>i j. i \<noteq> j \<longrightarrow> apart (w_tmp (Ws i)) (w_tmp (Ws j))) \<and>
     (\<forall>i j. apart (w_tmp (Ws i)) (w_target (Ws j))) \<and>
     (\<forall>i j. w_target (Ws i) = w_target (Ws j) \<or> apart (w_target (Ws i)) (w_target (Ws j)))"

text \<open>Whoever sees the marker of an entry sees the whole build of one of its writers.\<close>

definition entries_complete :: "(nat \<Rightarrow> writer) \<Rightarrow> fs \<Rightarrow> bool" where
  "entries_complete Ws fs \<longleftrightarrow>
     (\<forall>j. lookup fs (w_target (Ws j) @ [kCommitFileName]) \<noteq> None \<longrightarrow>
        (\<exists>i. w_target (Ws i) = w_target (Ws j) \<and> complete (w_files (Ws i)) (view_at fs (w_target (Ws j)))))"

definition pool_inv :: "(nat \<Rightarrow> writer) \<Rightarrow> pool \<Rightarrow> bool" where
  "pool_inv Ws s \<longleftrightarrow> entries_complete Ws (fst s) \<and>
     (\<forall>i. wp (Ws i) (\<lambda>_ _. True) (snd s i) (view_at (fst s) (w_tmp (Ws i))))"

text \<open>A path that a call of the process \<open>W\<close> leaves as it is.\<close>

lemma frame_path:
  assumes "allowed tmp target files c v" and "sys_result fs c r fs'" and "\<forall>a b. c \<noteq> Rename a b"
    and "\<not> prefix tmp p" and "\<not> strict_prefix p target" and "\<not> strict_prefix p tmp"
  shows "lookup fs' p = lookup fs p"
proof (cases c)
  case (Chmod q m)
  with assms have "p \<noteq> q" by auto
  with chmod_result[OF assms(2)[unfolded Chmod], of p] show ?thesis by auto
next
  case (Create_dirs q)
  with assms have q: "q = tmp \<or> strict_prefix q target \<or> strict_prefix q tmp" by simp
  have "\<not> prefix p q"
  proof
    assume "prefix p q"
    with q have "prefix p tmp \<or> strict_prefix p target"
      by (meson prefix_order.le_less_trans prefix_order.less_imp_le prefix_order.trans)
    with assms(4-6) show False using prefix_order.le_less by auto
  qed
  with create_result[OF assms(2)[unfolded Create_dirs], of p] show ?thesis by auto
next
  case (Open_write q)
  with assms have "p \<noteq> q" by auto
  with open_write_result(1)[OF assms(2)[unfolded Open_write]] show ?thesis by auto
next
  case (Write q s)
  with assms have "p \<noteq> q" by auto
  with write_result(1)[OF assms(2)[unfolded Write]] show ?thesis by auto
next
  case (Remove q)
  with assms have "\<not> prefix q p" by (auto dest: prefix_order.trans)
  with remove_result[OF assms(2)[unfolded Remove]] show ?thesis by auto
qed (use assms in \<open>auto dest: quiet_result\<close>)

text \<open>The view of a place that is apart from the temporary directory of the process that steps.\<close>

lemma step_view:
  assumes all: "allowed (w_tmp W) (w_target W) files c v" and res: "sys_result fs c r fs'"
    and tmp: "apart (w_tmp W) t" and target: "t = w_target W \<or> apart (w_target W) t"
    and view: "view_at fs (w_tmp W) = v"
  shows "view_at fs' t = view_at fs t \<or>
    t = w_target W \<and> \<not> has_below fs t \<and> complete files v \<and> view_at fs' t = v"
proof (cases "\<exists>a b. c = Rename a b")
  case False
  have "lookup fs' (t @ q) = lookup fs (t @ q)" for q
  proof (rule frame_path[OF all res])
    show "\<forall>a b. c \<noteq> Rename a b" using False by blast
    show "\<not> prefix (w_tmp W) (t @ q)" using tmp by (metis apart_sym apart_not_prefix prefixI)
    show "\<not> strict_prefix (t @ q) (w_tmp W)"
      using tmp by (metis apart_def append_prefixD prefix_order.less_imp_le)
    show "\<not> strict_prefix (t @ q) (w_target W)"
      using target by (metis apart_def append_prefixD prefix_order.less_imp_le prefix_order.leD prefixI)
  qed
  then show ?thesis by (simp add: view_at_def)
next
  case True
  with all have c: "c = Rename (w_tmp W) (w_target W)" and comp: "complete files v" by auto
  from rename_result[OF res[unfolded c]] show ?thesis
  proof
    assume moved: "\<not> has_below fs (w_target W) \<and> fs' = move_tree (w_tmp W) (w_target W) fs"
    show ?thesis
    proof (cases "t = w_target W")
      case eq: True
      with tmp have "view_at fs' t = view_at fs (w_tmp W)"
        using moved by (simp add: view_at_def lookup_move_tree(1))
      with eq moved comp view show ?thesis by simp
    next
      case False
      with target have ap: "apart (w_target W) t" by blast
      have "lookup fs' (t @ q) = lookup fs (t @ q)" for q
      proof -
        have "\<not> prefix (w_tmp W) (t @ q)" "\<not> prefix (w_target W) (t @ q)"
          using tmp ap by (metis apart_sym apart_not_prefix prefixI)+
        then show ?thesis
          using moved by (simp add: lookup_def move_tree_other)
      qed
      then show ?thesis by (simp add: view_at_def)
    qed
  qed simp
qed

lemma marker_below: "lookup fs (t @ [kCommitFileName]) \<noteq> None \<Longrightarrow> has_below fs t"
  using lookup_has_below by fastforce

lemma writers_apart:
  assumes "writers_ok Ws"
  shows "apart (w_tmp (Ws i)) (w_target (Ws j))"
    and "w_target (Ws j) = w_target (Ws i) \<or> apart (w_target (Ws i)) (w_target (Ws j))"
    and "i \<noteq> j \<Longrightarrow> apart (w_tmp (Ws i)) (w_tmp (Ws j))"
    and "apart (w_target (Ws i)) (w_tmp (Ws j))"
  using assms apart_sym unfolding writers_ok_def by metis+

lemma pool_inv_step:
  assumes ok: "writers_ok Ws" and inv: "pool_inv Ws s" and step: "pool_step s s'"
  shows "pool_inv Ws s' \<and>
    (\<forall>j. lookup (fst s) (w_target (Ws j) @ [kCommitFileName]) \<noteq> None \<longrightarrow>
       view_at (fst s') (w_target (Ws j)) = view_at (fst s) (w_target (Ws j)))"
  using step
proof cases
  case (Call progs i c k fs r fs')
  let ?W = "Ws i" and ?v = "view_at fs (w_tmp (Ws i))"
  from inv have "wp ?W (\<lambda>_ _. True) (snd s i) (view_at (fst s) (w_tmp ?W))"
    by (simp add: pool_inv_def)
  then have wpi: "wp ?W (\<lambda>_ _. True) (Sys c k) ?v" using Call(1,3) by simp
  then have all: "allowed (w_tmp ?W) (w_target ?W) (w_files ?W) c ?v"
    and next_wp: "wp ?W (\<lambda>_ _. True) (k r) (view_at fs' (w_tmp ?W))"
    using Call(4) by auto
  have entry_view: "view_at fs' (w_target (Ws j)) = view_at fs (w_target (Ws j)) \<or>
      w_target (Ws j) = w_target ?W \<and> \<not> has_below fs (w_target (Ws j)) \<and> complete (w_files ?W) ?v \<and>
      view_at fs' (w_target (Ws j)) = ?v" for j
    using step_view[OF all Call(4) writers_apart(1,2)[OF ok] refl] .
  have others: "view_at fs' (w_tmp (Ws j)) = view_at fs (w_tmp (Ws j))" if "j \<noteq> i" for j
  proof -
    have "w_tmp (Ws j) \<noteq> w_target ?W"
      using writers_apart(4)[OF ok, of i j] by (auto simp: apart_def)
    moreover have "i \<noteq> j" using that by simp
    ultimately show ?thesis
      using step_view[OF all Call(4) writers_apart(3)[OF ok] disjI2[OF writers_apart(4)[OF ok]] refl]
      by blast
  qed
  have stable: "view_at fs' (w_target (Ws j)) = view_at fs (w_target (Ws j))"
    if "lookup fs (w_target (Ws j) @ [kCommitFileName]) \<noteq> None" for j
    using entry_view[of j] marker_below[OF that] by blast
  have "entries_complete Ws fs'"
    unfolding entries_complete_def
  proof (intro allI impI)
    fix j
    assume there: "lookup fs' (w_target (Ws j) @ [kCommitFileName]) \<noteq> None"
    from entry_view[of j] show "\<exists>l. w_target (Ws l) = w_target (Ws j) \<and>
        complete (w_files (Ws l)) (view_at fs' (w_target (Ws j)))"
    proof
      assume same: "view_at fs' (w_target (Ws j)) = view_at fs (w_target (Ws j))"
      with there have "lookup fs (w_target (Ws j) @ [kCommitFileName]) \<noteq> None"
        by (metis view_at_def)
      with inv Call(1) same show ?thesis by (auto simp: pool_inv_def entries_complete_def)
    qed metis
  qed
  moreover have "wp (Ws j) (\<lambda>_ _. True) ((progs(i := k r)) j) (view_at fs' (w_tmp (Ws j)))" for j
    using next_wp others[of j] inv Call(1) by (auto simp: pool_inv_def)
  ultimately show ?thesis using Call stable by (simp add: pool_inv_def)
qed

lemma pool_inv_steps:
  assumes "pool_step\<^sup>*\<^sup>* s s'" and "writers_ok Ws" and "pool_inv Ws s"
  shows "pool_inv Ws s' \<and>
    (\<forall>j. lookup (fst s) (w_target (Ws j) @ [kCommitFileName]) \<noteq> None \<longrightarrow>
       view_at (fst s') (w_target (Ws j)) = view_at (fst s) (w_target (Ws j)))"
  using assms(1)
proof (induction rule: rtranclp_induct)
  case base
  show ?case using assms(3) by simp
next
  case (step s1 s2)
  from pool_inv_step[OF assms(2) _ step(2)] step(3) show ?case
    by (metis view_at_def)
qed

definition start_pool :: "(nat \<Rightarrow> writer) \<Rightarrow> (nat \<Rightarrow> fpath) \<Rightarrow> nat \<Rightarrow> fs \<Rightarrow> pool" where
  "start_pool Ws roots depth fs = (fs, \<lambda>i. publisher (Ws i) (roots i) depth)"

lemma pool_inv_start:
  assumes "writers_ok Ws" and "\<forall>j. lookup fs (w_target (Ws j) @ [kCommitFileName]) = None"
  shows "pool_inv Ws (start_pool Ws roots depth fs)"
  using assms wp_publisher by (simp add: pool_inv_def start_pool_def entries_complete_def writers_ok_def)

text \<open>A process that runs alone to its end is one way of taking the steps of the pool.\<close>

lemma exec_pool_steps:
  assumes "exec F p w = (Returned x, w')"
  shows "pool_step\<^sup>*\<^sup>* (tree w, progs(i := p)) (tree w', progs(i := Return x))"
  using assms
proof (induction p arbitrary: w progs)
  case (Sys c k)
  have one: "pool_step\<^sup>*\<^sup>* (tree w, progs(i := Sys c k)) (tree w', progs(i := Return x))"
    if "sys_result (tree w) c r fs'" "exec F (k r) \<lparr>tree = fs', tick = Suc (tick w)\<rparr> = (Returned x, w')" for r fs'
  proof -
    have "pool_step (tree w, progs(i := Sys c k)) (fs', (progs(i := Sys c k))(i := k r))"
      by (rule Call) (use that in auto)
    moreover have "pool_step\<^sup>*\<^sup>* (fs', progs(i := k r)) (tree w', progs(i := Return x))"
      using Sys.IH[OF rangeI that(2), of progs] by (simp only: world.select_convs)
    ultimately show ?thesis by (simp add: converse_rtranclp_into_rtranclp)
  qed
  show ?case
  proof (cases "F (tick w)")
    case No_fault
    with Sys.prems show ?thesis
      by (intro one[of "fst (sys_ok (tree w) c)" "snd (sys_ok (tree w) c)"])
        (auto simp: exec.simps(4) intro: result_ok)
  next
    case (Fail e n)
    with Sys.prems show ?thesis
      by (intro one[of "fst (sys_fail (tree w) c e n)" "snd (sys_fail (tree w) c e n)"])
        (auto simp: exec.simps(4) intro: result_fail)
  qed (use Sys.prems in \<open>simp add: exec.simps(4)\<close>)
qed simp_all

section \<open>A run\<close>

text \<open>Writers that race for one entry; the first one runs to its end.\<close>

definition demo_writers :: "nat \<Rightarrow> writer" where
  "demo_writers i =
     \<lparr>w_tmp = [''c'', ''tmp'', CHR ''u'' # replicate i (CHR ''u'')], w_target = [''c'', ''cache'', ''k.0''],
      w_files = [([''kernel.cu''], ''code'')]\<rparr>"

lemma demo_writers_ok: "writers_ok demo_writers"
  by (auto simp: writers_ok_def writer_ok_def demo_writers_def apart_def kCommitFileName_def)

definition demo_tree :: "nat \<Rightarrow> fs" where
  "demo_tree n = take n
     [([''c''], Dir 0x1ED), ([''c'', ''tmp''], Dir 0x1ED), ([''c'', ''tmp'', ''u''], Dir 0x1ED),
      ([''c'', ''tmp'', ''u'', ''kernel.cu''], File 0x1A4 ''code''),
      ([''c'', ''tmp'', ''u'', ''.committed''], File 0x1A4 []), ([''c'', ''cache''], Dir 0x1ED)]"

definition demo_end :: fs where
  "demo_end = [([''c''], Dir 0x1ED), ([''c'', ''tmp''], Dir 0x1ED), ([''c'', ''cache'', ''k.0''], Dir 0x1ED),
      ([''c'', ''cache'', ''k.0'', ''kernel.cu''], File 0x1A4 ''code''),
      ([''c'', ''cache'', ''k.0'', ''.committed''], File 0x1A4 []), ([''c'', ''cache''], Dir 0x1ED)]"

lemma demo_step_1:
  "exec no_faults (create_task [''c''] [''c'', ''tmp'', ''u'']) \<lparr>tree = demo_tree 1, tick = 0\<rparr> =
     (Returned False, \<lparr>tree = demo_tree 3, tick = 3\<rparr>)"
  by code_simp

lemma demo_write:
  "is_dir_at fs [''c'', ''tmp'', ''u''] \<Longrightarrow> lookup fs [''c'', ''tmp'', ''u'', x] = None \<Longrightarrow>
   exec no_faults (write_file_sync [''c'', ''tmp'', ''u'', x] d False) \<lparr>tree = fs, tick = n\<rparr> =
     (Returned (), \<lparr>tree = AList.update [''c'', ''tmp'', ''u'', x] (File 0x1A4 d)
         (AList.update [''c'', ''tmp'', ''u'', x] (File 0x1A4 []) fs), tick = n + 6\<rparr>)"
  by (simp add: write_file_sync_def set_shared_permissions_def fsync_file_def on_node_def
      is_dir_at_def lookup_update)

lemma demo_step_2:
  "exec no_faults (write_build [''c'', ''tmp'', ''u''] [([''kernel.cu''], ''code'')]) \<lparr>tree = demo_tree 3, tick = 3\<rparr> =
     (Returned (), \<lparr>tree = demo_tree 4, tick = 9\<rparr>)"
  by (simp add: write_build_def demo_write demo_tree_def is_dir_at_def lookup_def)

lemma demo_step_3:
  "exec no_faults (write_file_sync ([''c'', ''tmp'', ''u''] @ [kCommitFileName]) [] False) \<lparr>tree = demo_tree 4, tick = 9\<rparr> =
     (Returned (), \<lparr>tree = demo_tree 5, tick = 15\<rparr>)"
  by (simp add: kCommitFileName_def demo_write demo_tree_def is_dir_at_def lookup_def)

lemma demo_step_4:
  "exec no_faults (fsync_dir 1 [''c'', ''tmp'', ''u''] False) \<lparr>tree = demo_tree 5, tick = 15\<rparr> =
     (Returned (), \<lparr>tree = demo_tree 5, tick = 29\<rparr>)"
proof -
  have names: "child_names (demo_tree 5) [''c'', ''tmp'', ''u''] = [''kernel.cu'', ''.committed'']" by code_simp
  have nodes: "lookup (demo_tree 5) [''c'', ''tmp'', ''u''] = Some (Dir 0x1ED)"
    "lookup (demo_tree 5) [''c'', ''tmp'', ''u'', ''kernel.cu''] = Some (File 0x1A4 ''code'')"
    "lookup (demo_tree 5) [''c'', ''tmp'', ''u'', ''.committed''] = Some (File 0x1A4 [])" by code_simp+
  show ?thesis
    unfolding One_nat_def fsync_dir.simps
    by (simp add: names nodes exec_bind set_shared_permissions_def fsync_file_def advance_def on_node_def)
qed

lemma demo_step_5:
  "exec no_faults (make_dirs (butlast [''c'', ''cache'', ''k.0'']) False) \<lparr>tree = demo_tree 5, tick = 29\<rparr> =
     (Returned (), \<lparr>tree = demo_tree 6, tick = 30\<rparr>)"
  by code_simp

lemma demo_step_6:
  "exec no_faults (publish_rename 1 [''c'', ''tmp'', ''u''] [''c'', ''cache'', ''k.0'']) \<lparr>tree = demo_tree 6, tick = 30\<rparr> =
     (Returned (), \<lparr>tree = demo_end, tick = 31\<rparr>)"
  by code_simp

lemmas demo_steps = demo_step_1 demo_step_2 demo_step_3 demo_step_4 demo_step_5 demo_step_6

lemma demo_run:
  "exec no_faults (publisher (demo_writers 0) [''c''] 1) \<lparr>tree = demo_tree 1, tick = 0\<rparr> =
     (Returned (), \<lparr>tree = demo_end, tick = 31\<rparr>)"
proof -
  have w: "w_tmp (demo_writers 0) = [''c'', ''tmp'', ''u'']" "w_target (demo_writers 0) = [''c'', ''cache'', ''k.0'']"
    "w_files (demo_writers 0) = [([''kernel.cu''], ''code'')]" by (simp_all add: demo_writers_def)
  show ?thesis
    unfolding publisher_def publish_task_def w exec_bind exec_catch demo_steps prod.case outcome.case ..
qed

lemma demo_marker: "lookup demo_end ([''c'', ''cache'', ''k.0''] @ [kCommitFileName]) \<noteq> None"
  by code_simp

lemma demo_empty: "\<forall>j. lookup (demo_tree 1) (w_target (demo_writers j) @ [kCommitFileName]) = None"
  by (simp add: demo_writers_def lookup_def demo_tree_def)

lemma demo_reached:
  "\<exists>progs. pool_step\<^sup>*\<^sup>* (start_pool demo_writers (\<lambda>_. [''c'']) 1 (demo_tree 1)) (demo_end, progs)"
proof -
  let ?progs = "\<lambda>i. publisher (demo_writers i) [''c''] 1"
  have same: "?progs(0 := ?progs 0) = ?progs" by (rule fun_upd_triv)
  have "pool_step\<^sup>*\<^sup>* (demo_tree 1, ?progs(0 := ?progs 0)) (demo_end, ?progs(0 := Return ()))"
    using exec_pool_steps[OF demo_run, of ?progs 0] by (simp only: world.select_convs)
  then have "pool_step\<^sup>*\<^sup>* (demo_tree 1, ?progs) (demo_end, ?progs(0 := Return ()))"
    by (simp only: same)
  then show ?thesis unfolding start_pool_def by blast
qed

section \<open>Properties\<close>

text \<open>C1: The disk cache never shows an incomplete entry. Any number of processes build
  and publish entries at the same time, several of them the same entry, with any
  interleaving of their calls of the operating system, any calls failing, and any
  processes stopping for ever at any call: whenever the commit marker of an entry can be
  seen, the entry holds every file of the build of one of its writers with its content.\<close>

theorem published_entries_complete:
  assumes "writers_ok Ws" and "\<forall>j. lookup fs0 (w_target (Ws j) @ [kCommitFileName]) = None"
    and "pool_step\<^sup>*\<^sup>* (start_pool Ws roots depth fs0) (fs, progs)"
    and "lookup fs (w_target (Ws j) @ [kCommitFileName]) \<noteq> None"
  shows "\<exists>i. w_target (Ws i) = w_target (Ws j) \<and>
    (\<forall>(q, d) \<in> set (w_files (Ws i)). \<exists>m. lookup fs (w_target (Ws j) @ q) = Some (File m d))"
proof -
  have "pool_inv Ws (fs, progs)"
    using pool_inv_steps[OF assms(3,1) pool_inv_start[OF assms(1,2)]] by simp
  with assms(4) obtain i where "w_target (Ws i) = w_target (Ws j)"
      "complete (w_files (Ws i)) (view_at fs (w_target (Ws j)))"
    by (auto simp: pool_inv_def entries_complete_def)
  then show ?thesis by (intro exI[of _ i]) (auto simp: complete_def has_files_def is_file_def view_at_def)
qed

theorem published_entries_complete_witness:
  "\<exists>m. lookup demo_end [''c'', ''cache'', ''k.0'', ''kernel.cu''] = Some (File m ''code'')"
proof -
  obtain progs where "pool_step\<^sup>*\<^sup>* (start_pool demo_writers (\<lambda>_. [''c'']) 1 (demo_tree 1)) (demo_end, progs)"
    using demo_reached by blast
  from published_entries_complete[OF demo_writers_ok demo_empty this, of 0] demo_marker
  show ?thesis by (simp add: demo_writers_def)
qed

text \<open>C2: A published entry is immutable: from the moment its marker can be seen, no step of
  any process (a second writer that lost the race, the clean-up of a failed build, a task
  that was left behind) changes a file or directory of the entry.\<close>

theorem published_entries_stable:
  assumes "writers_ok Ws" and "\<forall>j. lookup fs0 (w_target (Ws j) @ [kCommitFileName]) = None"
    and "pool_step\<^sup>*\<^sup>* (start_pool Ws roots depth fs0) s"
    and "lookup (fst s) (w_target (Ws j) @ [kCommitFileName]) \<noteq> None" and "pool_step\<^sup>*\<^sup>* s s'"
  shows "lookup (fst s') (w_target (Ws j) @ q) = lookup (fst s) (w_target (Ws j) @ q)"
proof -
  have "pool_inv Ws s" using pool_inv_steps[OF assms(3,1) pool_inv_start[OF assms(1,2)]] by simp
  from pool_inv_steps[OF assms(5,1) this] assms(4)
  have "view_at (fst s') (w_target (Ws j)) = view_at (fst s) (w_target (Ws j))" by blast
  then show ?thesis by (metis view_at_def)
qed

theorem published_entries_stable_witness:
  "\<exists>s. lookup (fst s) [''c'', ''cache'', ''k.0'', ''kernel.cu''] = Some (File 0x1A4 ''code'') \<and>
     (\<forall>s'. pool_step\<^sup>*\<^sup>* s s' \<longrightarrow>
        lookup (fst s') [''c'', ''cache'', ''k.0'', ''kernel.cu''] = Some (File 0x1A4 ''code''))"
proof -
  obtain progs where run: "pool_step\<^sup>*\<^sup>* (start_pool demo_writers (\<lambda>_. [''c'']) 1 (demo_tree 1)) (demo_end, progs)"
    using demo_reached by blast
  have kept: "lookup (fst s') [''c'', ''cache'', ''k.0'', ''kernel.cu''] = lookup demo_end [''c'', ''cache'', ''k.0'', ''kernel.cu'']"
    if "pool_step\<^sup>*\<^sup>* (demo_end, progs) s'" for s'
    using published_entries_stable[OF demo_writers_ok demo_empty run _ that, of 0 "[''kernel.cu'']"] demo_marker
    by (simp add: demo_writers_def)
  have "lookup demo_end [''c'', ''cache'', ''k.0'', ''kernel.cu''] = Some (File 0x1A4 ''code'')" by code_simp
  with kept show ?thesis by (intro exI[of _ "(demo_end, progs)"]) simp
qed

end
