(* ===== verification/Command.thy ===== *)
theory Command
  imports Prelude
begin

text \<open>
  \<^verbatim>\<open>utils/command.hpp\<close>: running a shell command with its output collected through a pipe
  and a deadline. The operating system is a record of replies: those of the calls that
  start the child, and one \<open>round\<close> of replies for each pass of the loop. What the code does
  to its descriptors and to the child is the list of actions in its result.
\<close>

section \<open>The replies of the operating system\<close>

datatype pipe_end = Read_end | Write_end

datatype wait_status = Exited nat | Signaled nat

datatype read_reply = Chunk string | End_of_file | Read_interrupted | Read_failed

datatype wait_reply = Still_running | Reaped wait_status | Wait_interrupted | Wait_failed

record round =
  clock :: nat
  reads :: read_reply
  waits :: wait_reply
  poll_ok :: bool

text \<open>The error numbers of the calls that return one; \<open>0\<close> is success.\<close>

record spawn_replies =
  pipe2_ok :: bool
  fcntl_ok :: bool
  actions_init :: int
  adddup2_stdout :: int
  adddup2_stderr :: int
  addclose_read :: int
  addclose_write :: int
  spawn_errno :: int

datatype action = Open_pipe | Spawn string | Reap | Close_fd pipe_end | Kill_child

section \<open>The loop\<close>

record child =
  eof :: bool
  alive :: bool
  collected :: string
  status :: wait_status
  actions :: "action list"

definition act :: "action \<Rightarrow> child \<Rightarrow> child" where
  "act a c = c\<lparr>actions := actions c @ [a]\<rparr>"

text \<open>The read of a round; \<open>True\<close> is the \<^verbatim>\<open>continue\<close> after some output.\<close>

definition read_round :: "round \<Rightarrow> child \<Rightarrow> (bool \<times> child) result" where
  "read_round r c =
     (if eof c then Inr (False, c)
      else case reads r of
        Chunk s \<Rightarrow> Inr (True, c\<lparr>collected := collected c @ s\<rparr>)
      | End_of_file \<Rightarrow> Inr (False, c\<lparr>eof := True\<rparr>)
      | Read_interrupted \<Rightarrow> Inr (False, c)
      | Read_failed \<Rightarrow> Inl (Assertion ''command read failed''))"

definition wait_round :: "round \<Rightarrow> child \<Rightarrow> child result" where
  "wait_round r c =
     (if \<not> alive c then Inr c
      else case waits r of
        Reaped s \<Rightarrow> Inr (act Reap (c\<lparr>alive := False, status := s\<rparr>))
      | Wait_failed \<Rightarrow> Inl (Assertion ''command wait failed'')
      | _ \<Rightarrow> Inr c)"

definition timed_out_text :: "nat \<Rightarrow> string \<Rightarrow> string \<Rightarrow> string" where
  "timed_out_text ms cmd out =
     ''command timed out after '' @ show_nat ms @ '' ms:'' @ [CHR 0x0A] @ cmd @ [CHR 0x0A] @ out"

text \<open>\<open>None\<close>: the command is still running after the given rounds. A timeout of 0 is none.\<close>

fun command_loop :: "string \<Rightarrow> nat \<Rightarrow> round list \<Rightarrow> child \<Rightarrow> (unit result \<times> child) option" where
  "command_loop cmd ms [] c = (if eof c \<and> \<not> alive c then Some (Inr (), c) else None)"
| "command_loop cmd ms (r # rs) c =
     (if eof c \<and> \<not> alive c then Some (Inr (), c)
      else if ms \<noteq> 0 \<and> clock r \<ge> ms then Some (Inl (Panic (timed_out_text ms cmd (collected c))), c)
      else case read_round r c of
        Inl e \<Rightarrow> Some (Inl e, c)
      | Inr (True, c1) \<Rightarrow> command_loop cmd ms rs c1
      | Inr (False, c1) \<Rightarrow>
      case wait_round r c1 of
        Inl e \<Rightarrow> Some (Inl e, c1)
      | Inr c2 \<Rightarrow>
      if eof c2 \<and> \<not> alive c2 then Some (Inr (), c2)
      else if \<not> poll_ok r then Some (Inl (Assertion ''command poll failed''), c2)
      else command_loop cmd ms rs c2)"

section \<open>The whole call\<close>

definition exit_code :: "wait_status \<Rightarrow> nat" where
  "exit_code s = (case s of Exited n \<Rightarrow> n | Signaled n \<Rightarrow> 128 + n)"

text \<open>The first error of the calls that describe and start the child.\<close>

definition spawn_error :: "spawn_replies \<Rightarrow> int" where
  "spawn_error rep =
     (let error = adddup2_stdout rep;
          error = (if error = 0 then adddup2_stderr rep else error);
          error = (if error = 0 then addclose_read rep else error);
          error = (if error = 0 then addclose_write rep else error)
      in if error = 0 then spawn_errno rep else error)"

text \<open>
  The \<^verbatim>\<open>try\<close> block after the pipe is open: the result, the descriptors still open
  (the first component is whether the write end is), and whether the child runs.
\<close>

definition command_body ::
  "string \<Rightarrow> nat \<Rightarrow> spawn_replies \<Rightarrow> round list \<Rightarrow> (string result \<times> bool \<times> bool \<times> action list) option" where
  "command_body cmd ms rep rs =
     (if \<not> fcntl_ok rep then Some (Inl (Assertion ''nonblocking pipe failed''), True, False, [Open_pipe])
      else if actions_init rep \<noteq> 0 then
        Some (Inl (Assertion ''posix_spawn_file_actions_init(&actions) == 0''), True, False, [Open_pipe])
      else if spawn_error rep \<noteq> 0 then
        Some (Inl (Assertion (''command spawn failed ('' @ show_int (spawn_error rep) @ ''): '' @ cmd)),
              True, False, [Open_pipe])
      else case command_loop cmd ms rs
                  \<lparr>eof = False, alive = True, collected = [], status = Exited 0,
                   actions = [Open_pipe, Spawn cmd, Close_fd Write_end]\<rparr> of
        None \<Rightarrow> None
      | Some (Inl e, c) \<Rightarrow> Some (Inl e, False, alive c, actions c)
      | Some (Inr _, c) \<Rightarrow>
          Some (bind_result (dj_host_assert (exit_code (status c) = 0)
                   (''command failed with exit code '' @ show_nat (exit_code (status c)) @ '':'' @ [CHR 0x0A] @
                    cmd @ [CHR 0x0A] @ collected c)) (\<lambda>_. Inr (collected c)),
                False, alive c, actions c))"

definition check_command :: "string \<Rightarrow> int \<Rightarrow> spawn_replies \<Rightarrow> unit result" where
  "check_command cmd timeout rep =
     bind_result (dj_host_assert (cmd \<noteq> []) ''command must not be empty'') (\<lambda>_.
     bind_result (dj_host_assert (timeout \<ge> 0) ''command timeout must not be negative'') (\<lambda>_.
     dj_host_assert (pipe2_ok rep) ''command pipe failed''))"

definition call_external_command ::
  "string \<Rightarrow> int \<Rightarrow> spawn_replies \<Rightarrow> round list \<Rightarrow> (string result \<times> action list) option" where
  "call_external_command cmd timeout rep rs =
     (case check_command cmd timeout rep of
        Inl e \<Rightarrow> Some (Inl e, [])
      | Inr _ \<Rightarrow>
      case command_body cmd (nat timeout) rep rs of
        None \<Rightarrow> None
      | Some (Inr out, _, _, acts) \<Rightarrow> Some (Inr out, acts @ [Close_fd Read_end])
      | Some (Inl e, write_open, running, acts) \<Rightarrow>
          Some (Inl e, acts @ [Close_fd Read_end] @ (if write_open then [Close_fd Write_end] else []) @
                       (if running then [Kill_child] else [])))"

section \<open>Lemmas\<close>

fun chunk :: "read_reply \<Rightarrow> string" where
  "chunk (Chunk s) = s"
| "chunk _ = []"

text \<open>What the rounds deliver up to the end of the output.\<close>

definition delivered :: "round list \<Rightarrow> string" where
  "delivered rs = concat (map (\<lambda>r. chunk (reads r)) (takeWhile (\<lambda>r. reads r \<noteq> End_of_file) rs))"

text \<open>What the code did to the child and the pipe while the loop runs.\<close>

definition so_far :: "string \<Rightarrow> bool \<Rightarrow> action list" where
  "so_far cmd running = [Open_pipe, Spawn cmd, Close_fd Write_end] @ (if running then [] else [Reap])"

lemma read_round_cases [consumes 1, case_names more last_read no_data]:
  assumes "read_round r c = Inr (go, c')"
  obtains s where "\<not> eof c" "reads r = Chunk s" "go" "c' = c\<lparr>collected := collected c @ s\<rparr>"
  | "\<not> eof c" "reads r = End_of_file" "\<not> go" "c' = c\<lparr>eof := True\<rparr>"
  | "eof c \<or> reads r = Read_interrupted" "\<not> go" "c' = c"
  using assms by (auto simp: read_round_def split: if_splits read_reply.splits)

lemma wait_round_cases [consumes 1, case_names reaped other]:
  assumes "wait_round r c = Inr c'"
  obtains s where "alive c" "waits r = Reaped s" "c' = act Reap (c\<lparr>alive := False, status := s\<rparr>)"
  | "c' = c"
  using assms by (auto simp: wait_round_def split: if_splits wait_reply.splits)

text \<open>One pass of the loop: it ends, or goes on after reading and perhaps waiting.\<close>

lemma command_loop_cases [consumes 1, case_names ended late read_error wait_error poll_error more finished again]:
  assumes "command_loop cmd ms (r # rs) c = res"
  obtains "eof c" "\<not> alive c" "res = Some (Inr (), c)"
  | "\<not> (eof c \<and> \<not> alive c)" "ms \<noteq> 0" "ms \<le> clock r"
    "res = Some (Inl (Panic (timed_out_text ms cmd (collected c))), c)"
  | e where "\<not> (eof c \<and> \<not> alive c)" "read_round r c = Inl e" "res = Some (Inl e, c)"
  | e c1 where "read_round r c = Inr (False, c1)" "wait_round r c1 = Inl e" "res = Some (Inl e, c1)"
  | e c1 c2 where "read_round r c = Inr (False, c1)" "wait_round r c1 = Inr c2" "res = Some (Inl e, c2)"
  | c1 where "read_round r c = Inr (True, c1)" "res = command_loop cmd ms rs c1"
  | c1 c2 where "read_round r c = Inr (False, c1)" "wait_round r c1 = Inr c2" "eof c2" "\<not> alive c2"
    "res = Some (Inr (), c2)"
  | c1 c2 where "read_round r c = Inr (False, c1)" "wait_round r c1 = Inr c2" "res = command_loop cmd ms rs c2"
  using assms by (auto split: if_splits sum.splits bool.splits prod.splits)

lemma round_actions:
  assumes "actions c = so_far cmd (alive c)"
  shows "read_round r c = Inr (go, c') \<Longrightarrow> actions c' = so_far cmd (alive c')"
    and "wait_round r c = Inr c' \<Longrightarrow> actions c' = so_far cmd (alive c')"
  using assms
  by (auto simp: act_def so_far_def elim!: read_round_cases wait_round_cases)

lemma command_loop_actions:
  "command_loop cmd ms rs c = Some (r, c') \<Longrightarrow> actions c = so_far cmd (alive c) \<Longrightarrow>
   actions c' = so_far cmd (alive c')"
proof (induction rs arbitrary: c)
  case (Cons x rs)
  note step = round_actions[OF Cons.prems(2)] round_actions[OF round_actions(1)[OF Cons.prems(2)]]
  from Cons.prems(1) show ?case
    by (cases rule: command_loop_cases) (use Cons step in \<open>auto dest: round_actions\<close>)
qed (auto split: if_splits)

lemma command_loop_output:
  "command_loop cmd ms rs c = Some (Inr u, c') \<Longrightarrow>
   eof c' \<and> \<not> alive c' \<and> collected c' = collected c @ (if eof c then [] else delivered rs) \<and>
   (\<not> eof c \<longrightarrow> (\<exists>r \<in> set rs. reads r = End_of_file)) \<and>
   (if alive c then \<exists>r \<in> set rs. waits r = Reaped (status c') else status c' = status c)"
proof (induction rs arbitrary: c)
  case (Cons x rs)
  from Cons.prems show ?case
  proof (cases rule: command_loop_cases)
    case (more c1)
    from more(2) have "command_loop cmd ms rs c1 = Some (Inr u, c')" by simp
    from Cons.IH[OF this] more(1) show ?thesis
      by (auto simp: delivered_def elim!: read_round_cases split: if_splits)
  next
    case (finished c1 c2)
    then show ?thesis
      by (auto simp: delivered_def act_def elim!: read_round_cases wait_round_cases)
  next
    case (again c1 c2)
    from again(3) have "command_loop cmd ms rs c2 = Some (Inr u, c')" by simp
    from Cons.IH[OF this] again(1,2) show ?thesis
      by (auto simp: delivered_def act_def elim!: read_round_cases wait_round_cases split: if_splits)
  qed auto
qed (auto split: if_splits)

text \<open>A command still running when the deadline is seen is given up there.\<close>

lemma command_loop_deadline:
  "command_loop cmd ms rs c = None \<Longrightarrow> ms \<noteq> 0 \<Longrightarrow> ms \<le> clock r \<Longrightarrow>
   \<exists>c'. command_loop cmd ms (rs @ r # rs') c = Some (Inl (Panic (timed_out_text ms cmd (collected c'))), c')"
proof (induction rs arbitrary: c)
  case (Cons x rs)
  from Cons.prems(1) show ?case
  proof (cases rule: command_loop_cases)
    case (more c1)
    have "\<not> (eof c \<and> \<not> alive c)" "\<not> ms \<le> clock x" using Cons.prems(1,2) by (auto split: if_splits)
    then show ?thesis using Cons.IH[OF more(2)[symmetric] Cons.prems(2,3)] more(1) by simp
  next
    case (again c1 c2)
    have "\<not> (eof c \<and> \<not> alive c)" "\<not> ms \<le> clock x" "\<not> (eof c2 \<and> \<not> alive c2)" "poll_ok x"
      using Cons.prems(1,2) again(1,2) by (auto split: if_splits)
    then show ?thesis using Cons.IH[OF again(3)[symmetric] Cons.prems(2,3)] again(1,2) by simp
  qed simp_all
qed (auto split: if_splits)

text \<open>The whole call, when the pipe could be opened.\<close>

lemma call_cases [consumes 1, case_names refused not_started failed bad_exit returned]:
  assumes "call_external_command cmd timeout rep rs = Some (r, acts)"
  obtains m where "r = Inl (Assertion m)" "acts = []"
  | m where "r = Inl (Assertion m)" "acts = [Open_pipe, Close_fd Read_end, Close_fd Write_end]"
  | e c where "command_loop cmd (nat timeout) rs \<lparr>eof = False, alive = True, collected = [], status = Exited 0,
      actions = so_far cmd True\<rparr> = Some (Inl e, c)" "r = Inl e"
      "acts = so_far cmd (alive c) @ [Close_fd Read_end] @ (if alive c then [Kill_child] else [])"
  | c m where "command_loop cmd (nat timeout) rs \<lparr>eof = False, alive = True, collected = [], status = Exited 0,
      actions = so_far cmd True\<rparr> = Some (Inr (), c)" "exit_code (status c) \<noteq> 0" "r = Inl (Assertion m)"
      "acts = so_far cmd False @ [Close_fd Read_end]"
  | c where "command_loop cmd (nat timeout) rs \<lparr>eof = False, alive = True, collected = [], status = Exited 0,
      actions = so_far cmd True\<rparr> = Some (Inr (), c)" "exit_code (status c) = 0" "r = Inr (collected c)"
      "acts = so_far cmd False @ [Close_fd Read_end]"
proof -
  let ?c = "\<lparr>eof = False, alive = True, collected = [], status = Exited 0, actions = so_far cmd True\<rparr>"
  let ?started = "fcntl_ok rep \<and> actions_init rep = 0 \<and> spawn_error rep = 0"
  have start: "\<lparr>eof = False, alive = True, collected = [], status = Exited 0,
      actions = [Open_pipe, Spawn cmd, Close_fd Write_end]\<rparr> = ?c" by (simp add: so_far_def)
  note call = assms[unfolded call_external_command_def command_body_def start]
  show ?thesis
  proof (cases "check_command cmd timeout rep")
    case (Inl e)
    then obtain m where "e = Assertion m" by (auto simp: check_command_def result_simps)
    with Inl call that(1) show ?thesis by (auto intro: that(1))
  next
    case checks: (Inr u)
    show ?thesis
    proof (cases ?started)
      case False
      with call checks show ?thesis by (auto split: if_splits intro: that(2))
    next
      case True
      show ?thesis
      proof (cases "command_loop cmd (nat timeout) rs ?c")
        case None
        with call checks True show ?thesis by simp
      next
        case (Some res)
        obtain q c where res: "res = (q, c)" by fastforce
        note acts = command_loop_actions[OF Some[unfolded res]]
        show ?thesis
        proof (cases q)
          case (Inl e)
          with call checks True Some res acts that(3)[of e c] show ?thesis by simp
        next
          case (Inr u)
          with Some res command_loop_output[of cmd "nat timeout" rs ?c u c] have "\<not> alive c" by simp
          with call checks True Some res Inr acts show ?thesis
            by (cases "exit_code (status c) = 0") (auto intro: that(4,5))
        qed
      qed
    qed
  qed
qed

section \<open>Properties\<close>

text \<open>C26: The output of a command is returned only when it is complete and the command
  succeeded: it is everything the child wrote up to the end of its output, and the child
  was reaped with exit code 0.\<close>

theorem command_output_exact:
  assumes "call_external_command cmd timeout rep rs = Some (Inr out, acts)"
  shows "out = delivered rs \<and> (\<exists>r \<in> set rs. reads r = End_of_file) \<and>
    (\<exists>r \<in> set rs. waits r = Reaped (Exited 0))"
  using assms
proof (cases rule: call_cases)
  case (returned c)
  from command_loop_output[OF returned(1)] returned(2,3) show ?thesis
    by (auto simp: exit_code_def split: wait_status.splits)
qed simp_all

theorem command_output_exact_witness:
  "delivered [\<lparr>clock = 0, reads = Chunk ''12.9'', waits = Still_running, poll_ok = True\<rparr>,
              \<lparr>clock = 5, reads = End_of_file, waits = Reaped (Exited 0), poll_ok = True\<rparr>] = ''12.9''"
proof -
  have "call_external_command ''nvcc --version'' 10 \<lparr>pipe2_ok = True, fcntl_ok = True, actions_init = 0,
      adddup2_stdout = 0, adddup2_stderr = 0, addclose_read = 0, addclose_write = 0, spawn_errno = 0\<rparr>
      [\<lparr>clock = 0, reads = Chunk ''12.9'', waits = Still_running, poll_ok = True\<rparr>,
       \<lparr>clock = 5, reads = End_of_file, waits = Reaped (Exited 0), poll_ok = True\<rparr>] =
      Some (Inr ''12.9'', [Open_pipe, Spawn ''nvcc --version'', Close_fd Write_end, Reap, Close_fd Read_end])"
    by code_simp
  from command_output_exact[OF this] show ?thesis by simp
qed

text \<open>C13: However the call ends, once the pipe is open both of its descriptors are closed
  exactly once, and a child that was started is either reaped or killed, never both and
  never neither: the code sends no signal to a process that is gone and leaves none
  running.\<close>

theorem command_releases:
  assumes "call_external_command cmd timeout rep rs = Some (r, acts)" and "Open_pipe \<in> set acts"
  shows "count_list acts (Close_fd Read_end) = 1 \<and> count_list acts (Close_fd Write_end) = 1 \<and>
    (Spawn cmd \<in> set acts \<longrightarrow> (Reap \<in> set acts) \<noteq> (Kill_child \<in> set acts)) \<and>
    (Spawn cmd \<notin> set acts \<longrightarrow> Kill_child \<notin> set acts)"
  using assms(1)
proof (cases rule: call_cases)
  case refused
  with assms(2) show ?thesis by simp
qed (auto simp: so_far_def)

theorem command_releases_witness:
  "Reap \<notin> set [Open_pipe, Spawn ''sleep 9'', Close_fd Write_end, Close_fd Read_end, Kill_child]"
proof -
  have "call_external_command ''sleep 9'' 10 \<lparr>pipe2_ok = True, fcntl_ok = True, actions_init = 0,
      adddup2_stdout = 0, adddup2_stderr = 0, addclose_read = 0, addclose_write = 0, spawn_errno = 0\<rparr>
      [\<lparr>clock = 0, reads = Read_interrupted, waits = Still_running, poll_ok = True\<rparr>,
       \<lparr>clock = 10, reads = Read_interrupted, waits = Still_running, poll_ok = True\<rparr>] =
      Some (Inl (Panic (timed_out_text 10 ''sleep 9'' [])),
            [Open_pipe, Spawn ''sleep 9'', Close_fd Write_end, Close_fd Read_end, Kill_child])"
    by code_simp
  from command_releases[OF this] show ?thesis by simp
qed

text \<open>C27: A command with a timeout always ends: if it is still running when a pass of the loop
  sees the deadline, the call ends in that pass with the time-out error, whatever the child
  does; the passes after it are never made.\<close>

theorem command_deadline:
  assumes "0 < timeout" and "call_external_command cmd timeout rep rs = None"
    and "nat timeout \<le> clock r"
  shows "\<exists>out acts. call_external_command cmd timeout rep (rs @ r # rs') =
    Some (Inl (Panic (timed_out_text (nat timeout) cmd out)), acts)"
proof -
  let ?c = "\<lparr>eof = False, alive = True, collected = [], status = Exited 0,
      actions = [Open_pipe, Spawn cmd, Close_fd Write_end]\<rparr>"
  have run: "check_command cmd timeout rep = Inr ()" "fcntl_ok rep" "actions_init rep = 0" "spawn_error rep = 0"
      "command_loop cmd (nat timeout) rs ?c = None"
    using assms(2)
    by (auto simp: call_external_command_def command_body_def
        split: sum.splits if_splits option.splits prod.splits)
  have "nat timeout \<noteq> 0" using assms(1) by simp
  from command_loop_deadline[OF run(5) this assms(3)]
  obtain c' where "command_loop cmd (nat timeout) (rs @ r # rs') ?c =
      Some (Inl (Panic (timed_out_text (nat timeout) cmd (collected c'))), c')" by blast
  with run(1-4) show ?thesis by (auto simp: call_external_command_def command_body_def)
qed

theorem command_deadline_witness:
  "\<exists>out acts. call_external_command ''sleep 9'' 10 \<lparr>pipe2_ok = True, fcntl_ok = True, actions_init = 0,
      adddup2_stdout = 0, adddup2_stderr = 0, addclose_read = 0, addclose_write = 0, spawn_errno = 0\<rparr>
      ([\<lparr>clock = 3, reads = End_of_file, waits = Still_running, poll_ok = True\<rparr>] @
       \<lparr>clock = 12, reads = End_of_file, waits = Still_running, poll_ok = True\<rparr> # []) =
      Some (Inl (Panic (timed_out_text 10 ''sleep 9'' out)), acts)"
proof -
  have "call_external_command ''sleep 9'' 10 \<lparr>pipe2_ok = True, fcntl_ok = True, actions_init = 0,
      adddup2_stdout = 0, adddup2_stderr = 0, addclose_read = 0, addclose_write = 0, spawn_errno = 0\<rparr>
      [\<lparr>clock = 3, reads = End_of_file, waits = Still_running, poll_ok = True\<rparr>] = None" by code_simp
  from command_deadline[OF _ this] show ?thesis by simp
qed

end
