(* ===== verification/Lazy_Values.thy ===== *)
theory Lazy_Values
  imports Prelude
begin

text \<open>
  Values made on first use: the in-memory cache of \<^verbatim>\<open>cache/memory.hpp\<close>, the lazy object
  and the lazily resolved library functions of \<^verbatim>\<open>utils/lazy.hpp\<close>. A factory may throw and
  may change a state \<open>'w\<close>, which is passed through.
\<close>

section \<open>The in-memory cache\<close>

type_synonym ('k, 'v) mem_cache = "'k \<rightharpoonup> 'v"

text \<open>\<^verbatim>\<open>emplace\<close> keeps an entry that is there.\<close>

definition emplace :: "'k \<Rightarrow> 'v \<Rightarrow> ('k, 'v) mem_cache \<Rightarrow> ('k, 'v) mem_cache" where
  "emplace key v c = (if c key = None then c(key \<mapsto> v) else c)"

definition get_or_create ::
  "'k \<Rightarrow> ('w \<Rightarrow> ('v result \<times> 'w) option) \<Rightarrow> ('k, 'v) mem_cache \<Rightarrow> 'w \<Rightarrow>
   ('v result \<times> ('k, 'v) mem_cache \<times> 'w) option" where
  "get_or_create key create c w =
     (case c key of
        Some v \<Rightarrow> Some (Inr v, c, w)
      | None \<Rightarrow>
      case create w of
        None \<Rightarrow> None
      | Some (Inl e, w') \<Rightarrow> Some (Inl e, c, w')
      | Some (Inr v, w') \<Rightarrow> Some (Inr v, emplace key v c, w'))"

section \<open>Lazy objects\<close>

text \<open>A null pointer is \<open>None\<close>, and so is the factory of an object built from \<^verbatim>\<open>nullptr\<close>.\<close>

record ('v, 'w) lazy_init =
  lazy_ptr :: "'v option"
  lazy_factory :: "('w \<Rightarrow> 'v option result \<times> 'w) option"

definition new_lazy :: "('w \<Rightarrow> 'v option result \<times> 'w) option \<Rightarrow> ('v, 'w) lazy_init" where
  "new_lazy f = \<lparr>lazy_ptr = None, lazy_factory = f\<rparr>"

definition lazy_get :: "('v, 'w) lazy_init \<Rightarrow> 'w \<Rightarrow> 'v result \<times> ('v, 'w) lazy_init \<times> 'w" where
  "lazy_get l w =
     (case lazy_factory l of
        None \<Rightarrow> (Inl (Assertion ''lazy object must be initialized before use''), l, w)
      | Some f \<Rightarrow>
      case lazy_ptr l of
        Some v \<Rightarrow> (Inr v, l, w)
      | None \<Rightarrow>
      case f w of
        (Inl e, w') \<Rightarrow> (Inl e, l, w')
      | (Inr None, w') \<Rightarrow> (Inl (Assertion ''lazy factory must not return nullptr''), l, w')
      | (Inr (Some v), w') \<Rightarrow> (Inr v, l\<lparr>lazy_ptr := Some v\<rparr>, w'))"

section \<open>Lazily loaded functions\<close>

text \<open>
  The static variables of the two macros: a library handle and a symbol, kept once they
  are found. What \<^verbatim>\<open>dlopen\<close>, \<^verbatim>\<open>dlsym\<close> and \<^verbatim>\<open>dlerror\<close> return are parameters; an initialiser
  that throws leaves its variable unset, so the next use tries again.
\<close>

definition dl_handle ::
  "string \<Rightarrow> nat option \<Rightarrow> string option \<Rightarrow> nat option \<Rightarrow> nat result \<times> nat option" where
  "dl_handle lib opened error handle =
     (case handle of
        Some h \<Rightarrow> (Inr h, handle)
      | None \<Rightarrow>
      case opened of
        Some h \<Rightarrow> (Inr h, Some h)
      | None \<Rightarrow> (Inl (Panic (''failed to load '' @ lib @ '': '' @
                   (case error of Some m \<Rightarrow> m | None \<Rightarrow> ''unknown''))), None))"

definition dl_function ::
  "string \<Rightarrow> string \<Rightarrow> string \<Rightarrow> nat option \<Rightarrow> (nat \<Rightarrow> nat option) \<Rightarrow> string option \<Rightarrow>
   nat option \<times> nat option \<Rightarrow> nat result \<times> nat option \<times> nat option" where
  "dl_function lib handle_name fun_name opened symbols error st =
     (case st of (handle, symbol) \<Rightarrow>
      case symbol of
        Some f \<Rightarrow> (Inr f, handle, symbol)
      | None \<Rightarrow>
      case dl_handle lib opened error handle of
        (Inl e, handle') \<Rightarrow> (Inl e, handle', None)
      | (Inr h, handle') \<Rightarrow>
      case symbols h of
        Some f \<Rightarrow> (Inr f, handle', Some f)
      | None \<Rightarrow> (Inl (Panic (''failed to load '' @ fun_name @ '' from '' @ handle_name @ '': '' @
                   (case error of Some m \<Rightarrow> m | None \<Rightarrow> ''unknown''))), handle', None))"

section \<open>Lemmas\<close>

lemma get_or_create_hit: "c key = Some v \<Longrightarrow> get_or_create key create c w = Some (Inr v, c, w)"
  by (simp add: get_or_create_def)

lemma get_or_create_cases [consumes 1, case_names cached thrown made]:
  assumes "get_or_create key create c w = Some (r, c', w')"
  obtains v where "c key = Some v" "r = Inr v" "c' = c" "w' = w"
  | e where "c key = None" "create w = Some (Inl e, w')" "r = Inl e" "c' = c"
  | v where "c key = None" "create w = Some (Inr v, w')" "r = Inr v" "c' = c(key \<mapsto> v)"
  using assms by (auto simp: get_or_create_def emplace_def split: option.splits sum.splits)

text \<open>A value is kept, so later requests for the key get it without the factory.\<close>

lemma get_or_create_kept:
  assumes "get_or_create key create c w = Some (Inr v, c', w')"
  shows "c' key = Some v \<and> get_or_create key create' c' w'' = Some (Inr v, c', w'')"
  using assms by (cases rule: get_or_create_cases) (simp_all add: get_or_create_def)

lemma get_or_create_others:
  assumes "get_or_create key create c w = Some (r, c', w')" and "c k = Some v"
  shows "c' k = Some v"
  using assms(1) by (cases rule: get_or_create_cases) (use assms(2) in auto)

text \<open>A sequence of uses of a lazy object.\<close>

fun lazy_uses :: "nat \<Rightarrow> ('v, 'w) lazy_init \<Rightarrow> 'w \<Rightarrow> 'v result list \<times> ('v, 'w) lazy_init \<times> 'w" where
  "lazy_uses 0 l w = ([], l, w)"
| "lazy_uses (Suc n) l w =
     (case lazy_get l w of (r, l', w') \<Rightarrow>
      case lazy_uses n l' w' of (rs, l'', w'') \<Rightarrow> (r # rs, l'', w''))"

lemma lazy_uses_ready:
  "lazy_ptr l = Some v \<Longrightarrow> lazy_factory l \<noteq> None \<Longrightarrow> lazy_uses n l w = (replicate n (Inr v), l, w)"
  by (induction n) (auto simp: lazy_get_def Let_def)

lemma lazy_get_cases [consumes 1, case_names failed ready made]:
  assumes "lazy_get l w = (r, l', w')"
  obtains e where "r = Inl e" "l' = l"
  | v f where "lazy_ptr l = Some v" "lazy_factory l = Some f" "r = Inr v" "l' = l" "w' = w"
  | f v where "lazy_ptr l = None" "lazy_factory l = Some f" "f w = (Inr (Some v), w')" "r = Inr v"
      "l' = l\<lparr>lazy_ptr := Some v\<rparr>"
proof (cases "lazy_factory l")
  case None
  with assms have "r = Inl (Assertion ''lazy object must be initialized before use'')" "l' = l"
    by (auto simp: lazy_get_def)
  then show ?thesis by (rule that(1))
next
  case f: (Some f)
  show ?thesis
  proof (cases "lazy_ptr l")
    case (Some v)
    with f assms have "r = Inr v" "l' = l" "w' = w" by (auto simp: lazy_get_def)
    with f Some show ?thesis by (intro that(2))
  next
    case None
    obtain q w2 where q: "f w = (q, w2)" by fastforce
    show ?thesis
    proof (cases q)
      case (Inl e)
      with f None q assms have "r = Inl e" "l' = l" by (auto simp: lazy_get_def)
      then show ?thesis by (rule that(1))
    next
      case (Inr p)
      with f None q assms show ?thesis
        by (cases p) (auto simp: lazy_get_def intro: that(1,3))
    qed
  qed
qed

section \<open>Properties\<close>

text \<open>A lazy object is made once: after the first use that succeeds every use returns the
  same object, without running the factory again and without any effect; a use that fails
  leaves the object as it was, so the next one tries again.\<close>

theorem lazy_get_once:
  assumes "lazy_get l w = (r, l', w')"
  shows "(\<forall>v. r = Inr v \<longrightarrow> lazy_uses n l' w'' = (replicate n (Inr v), l', w'')) \<and>
    (\<forall>e. r = Inl e \<longrightarrow> l' = l)"
  using assms
proof (cases rule: lazy_get_cases)
  case (ready v f)
  with lazy_uses_ready[of l v] show ?thesis by auto
next
  case (made f v)
  with lazy_uses_ready[of l' v] show ?thesis by auto
qed auto

theorem lazy_get_once_witness:
  "lazy_uses 2 \<lparr>lazy_ptr = Some (7 :: nat), lazy_factory = Some (\<lambda>w. (Inr (Some 7), Suc w))\<rparr> 5 =
     ([Inr 7, Inr 7], \<lparr>lazy_ptr = Some 7, lazy_factory = Some (\<lambda>w. (Inr (Some 7), Suc w))\<rparr>, 5)"
proof -
  have "lazy_get (new_lazy (Some (\<lambda>w :: nat. (Inr (Some (7 :: nat)), Suc w)))) 0 =
      (Inr 7, \<lparr>lazy_ptr = Some 7, lazy_factory = Some (\<lambda>w. (Inr (Some 7), Suc w))\<rparr>, 1)"
    by (simp add: lazy_get_def new_lazy_def)
  from lazy_get_once[OF this, of 2 5] show ?thesis by (simp add: numeral_2_eq_2)
qed

end
