(* ===== verification/Precompiler.thy ===== *)
theory Precompiler
  imports Prelude
begin

text \<open>
  \<^verbatim>\<open>runtime/precompiler.hpp\<close>: one producer, a pool of workers and a queue of jobs. The
  operations between two releases of the mutex are one function each; the interleavings of
  the threads are the step relations. A job is its position in \<^verbatim>\<open>results\<close>, the value of
  its future is \<open>None\<close> until it has run.
\<close>

section \<open>State\<close>

datatype worker = Waiting | Running_job nat | Job_returned | Exited_thread

record precompiler =
  submitted :: "string set"
  results :: "unit result option list"
  jobs :: "nat list"
  workers :: "worker list"
  stopping :: bool
  num_completed :: nat

section \<open>Operations\<close>

text \<open>The constructor; \<open>started n\<close> is whether the \<open>n\<close>-th thread can be started.\<close>

definition make_precompiler :: "int \<Rightarrow> (nat \<Rightarrow> bool) \<Rightarrow> precompiler result" where
  "make_precompiler num_workers started =
     (if num_workers \<le> 0 then Inl (Invalid_argument ''precompiler worker count must be positive'')
      else if list_all started [0..<nat num_workers]
      then Inr \<lparr>submitted = {}, results = [], jobs = [], workers = replicate (nat num_workers) Waiting,
                stopping = False, num_completed = 0\<rparr>
      else Inl (Std_exception ''Resource temporarily unavailable''))"

text \<open>\<open>oom\<close>: an allocation fails after the key was inserted; then the key is taken out again.\<close>

definition enqueue :: "bool \<Rightarrow> string \<Rightarrow> precompiler \<Rightarrow> unit result \<times> precompiler" where
  "enqueue oom key p =
     (if stopping p \<or> key \<in> submitted p then (Inr (), p)
      else let p1 = p\<lparr>submitted := insert key (submitted p)\<rparr>
           in if oom then (Inl (Std_exception ''std::bad_alloc''), p1\<lparr>submitted := submitted p1 - {key}\<rparr>)
              else (Inr (), p1\<lparr>results := results p1 @ [None], jobs := jobs p1 @ [length (results p1)]\<rparr>))"

text \<open>The worker loop: a job is taken from the front, run without the mutex, then counted.\<close>

definition take_job :: "nat \<Rightarrow> precompiler \<Rightarrow> precompiler" where
  "take_job w p = p\<lparr>workers := (workers p)[w := Running_job (hd (jobs p))], jobs := tl (jobs p)\<rparr>"

definition job_returns :: "nat \<Rightarrow> nat \<Rightarrow> unit result \<Rightarrow> precompiler \<Rightarrow> precompiler" where
  "job_returns w j r p = p\<lparr>workers := (workers p)[w := Job_returned], results := (results p)[j := Some r]\<rparr>"

definition count_job :: "nat \<Rightarrow> precompiler \<Rightarrow> precompiler" where
  "count_job w p = p\<lparr>workers := (workers p)[w := Waiting], num_completed := Suc (num_completed p)\<rparr>"

definition worker_exit :: "nat \<Rightarrow> precompiler \<Rightarrow> precompiler" where
  "worker_exit w p = p\<lparr>workers := (workers p)[w := Exited_thread]\<rparr>"

definition request_stop :: "precompiler \<Rightarrow> precompiler" where
  "request_stop p = p\<lparr>stopping := True\<rparr>"

definition joined :: "precompiler \<Rightarrow> bool" where
  "joined p \<longleftrightarrow> list_all (\<lambda>w. w = Exited_thread) (workers p)"

text \<open>
  The loop of \<^verbatim>\<open>finish\<close> over the futures; \<open>None\<close> would be to wait for a job that nobody runs.
\<close>

fun get_results :: "unit result option list \<Rightarrow> unit result option" where
  "get_results [] = Some (Inr ())"
| "get_results (None # rs) = None"
| "get_results (Some (Inl e) # rs) = Some (Inl e)"
| "get_results (Some (Inr u) # rs) = get_results rs"

definition finish :: "precompiler \<Rightarrow> unit result option" where
  "finish p = (if joined p then get_results (results p) else None)"

text \<open>The destructor: it finishes the pool, and ends the process with failure on an error.\<close>

datatype destruction = Destroyed | Exit_process nat

definition destroy_precompiler :: "precompiler \<Rightarrow> destruction option" where
  "destroy_precompiler p = map_option (\<lambda>r. case r of Inr _ \<Rightarrow> Destroyed | Inl _ \<Rightarrow> Exit_process 1) (finish p)"

text \<open>The progress line: \<^verbatim>\<open>size_t\<close> arithmetic, and the character of the spinner.\<close>

definition progress :: "precompiler \<Rightarrow> char \<times> nat \<times> nat \<times> nat \<times> nat" where
  "progress p =
     (let total = word_of_nat (length (results p)) :: 64 word;
          queued = word_of_nat (length (jobs p));
          completed = word_of_nat (num_completed p);
          running = total - completed - queued
      in ([CHR ''|'', CHR ''/'', CHR ''-'', CHR 0x5C] ! (num_completed p mod 4), unat completed, unat total, unat running, unat queued))"

section \<open>Interleavings\<close>

text \<open>A step of worker \<open>w\<close>; what a job returns is not determined here.\<close>

inductive worker_step :: "precompiler \<Rightarrow> precompiler \<Rightarrow> bool" where
  Take: "w < length (workers p) \<Longrightarrow> workers p ! w = Waiting \<Longrightarrow> jobs p \<noteq> [] \<Longrightarrow> worker_step p (take_job w p)"
| Return_job: "w < length (workers p) \<Longrightarrow> workers p ! w = Running_job j \<Longrightarrow> worker_step p (job_returns w j r p)"
| Count: "w < length (workers p) \<Longrightarrow> workers p ! w = Job_returned \<Longrightarrow> worker_step p (count_job w p)"
| Leave: "w < length (workers p) \<Longrightarrow> workers p ! w = Waiting \<Longrightarrow> jobs p = [] \<Longrightarrow> stopping p \<Longrightarrow>
    worker_step p (worker_exit w p)"

inductive pre_step :: "precompiler \<Rightarrow> precompiler \<Rightarrow> bool" where
  Enqueue: "pre_step p (snd (enqueue oom key p))"
| Stop: "pre_step p (request_stop p)"
| Worker: "worker_step p p' \<Longrightarrow> pre_step p p'"

definition pre_reachable :: "int \<Rightarrow> precompiler \<Rightarrow> bool" where
  "pre_reachable n p \<longleftrightarrow> (\<exists>p0. make_precompiler n (\<lambda>_. True) = Inr p0 \<and> pre_step\<^sup>*\<^sup>* p0 p)"

section \<open>The invariant\<close>

fun busy :: "worker \<Rightarrow> bool" where
  "busy (Running_job j) = True"
| "busy Job_returned = True"
| "busy _ = False"

definition num_busy :: "worker list \<Rightarrow> nat" where
  "num_busy ws = length (filter busy ws)"

definition runs :: "precompiler \<Rightarrow> nat \<Rightarrow> bool" where
  "runs p j \<longleftrightarrow> Running_job j \<in> set (workers p)"

definition pre_inv :: "precompiler \<Rightarrow> bool" where
  "pre_inv p \<longleftrightarrow>
     distinct (jobs p) \<and>
     (\<forall>j \<in> set (jobs p). j < length (results p) \<and> results p ! j = None \<and> \<not> runs p j) \<and>
     (\<forall>j. runs p j \<longrightarrow> j < length (results p) \<and> results p ! j = None \<and> count_list (workers p) (Running_job j) = 1) \<and>
     (\<forall>j < length (results p). results p ! j = None \<longrightarrow> j \<in> set (jobs p) \<or> runs p j) \<and>
     (Exited_thread \<in> set (workers p) \<longrightarrow> stopping p \<and> jobs p = []) \<and>
     num_completed p + length (jobs p) + num_busy (workers p) = length (results p) \<and>
     finite (submitted p) \<and> card (submitted p) = length (results p)"

lemma filter_update:
  assumes "w < length ws"
  shows "length (filter P (ws[w := x])) + (if P (ws ! w) then 1 else 0) =
    length (filter P ws) + (if P x then 1 else 0)"
proof -
  have "ws = take w ws @ ws ! w # drop (Suc w) ws" using assms by (simp add: id_take_nth_drop)
  from arg_cong[OF this, of "\<lambda>l. length (filter P l)"] show ?thesis
    using assms by (simp add: upd_conv_take_nth_drop)
qed

lemmas num_busy_update = filter_update[where P = busy, folded num_busy_def]

lemma count_list_filter: "count_list ws y = length (filter (\<lambda>x. x = y) ws)"
  by (induction ws) auto

lemma count_list_update:
  "w < length ws \<Longrightarrow>
   count_list (ws[w := x]) y + (if ws ! w = y then 1 else 0) = count_list ws y + (if x = y then 1 else 0)"
  unfolding count_list_filter by (rule filter_update)

lemma runs_iff_count: "runs p j \<longleftrightarrow> count_list (workers p) (Running_job j) \<noteq> 0"
  by (auto simp: runs_def count_list_0_iff)

lemma exited_update:
  "w < length ws \<Longrightarrow> x \<noteq> Exited_thread \<Longrightarrow> Exited_thread \<in> set (ws[w := x]) \<Longrightarrow> Exited_thread \<in> set ws"
  by (auto dest!: set_update_subset_insert[THEN subsetD])

lemma pre_inv_take:
  assumes "pre_inv p" "w < length (workers p)" "workers p ! w = Waiting" "jobs p \<noteq> []"
  shows "pre_inv (take_job w p)"
proof -
  let ?p = "take_job w p"
  obtain j js where js: "jobs p = j # js" using assms(4) by (cases "jobs p") auto
  have cnt: "count_list (workers ?p) (Running_job i) = count_list (workers p) (Running_job i) + (if i = j then 1 else 0)" for i
    using count_list_update[OF assms(2), of "Running_job j" "Running_job i"] assms(3) js
    by (auto simp: take_job_def)
  have run: "runs ?p i \<longleftrightarrow> runs p i \<or> i = j" for i by (simp add: runs_iff_count cnt)
  have idle: "\<not> runs p j" "j \<notin> set js" using assms(1) js by (auto simp: pre_inv_def)
  have c0: "count_list (workers p) (Running_job j) = 0" using idle(1) by (simp add: runs_iff_count)
  have "num_busy (workers ?p) = Suc (num_busy (workers p))"
    using num_busy_update[OF assms(2), of "Running_job j"] assms(3) js by (simp add: take_job_def)
  moreover have "Exited_thread \<notin> set (workers ?p)"
    using assms(1) js exited_update[OF assms(2), of "Running_job j"] by (auto simp: pre_inv_def take_job_def)
  ultimately show ?thesis
    using assms(1) js idle c0 run cnt unfolding pre_inv_def by (auto simp: take_job_def)
qed

lemma pre_inv_return:
  assumes "pre_inv p" "w < length (workers p)" "workers p ! w = Running_job j"
  shows "pre_inv (job_returns w j r p)"
proof -
  let ?p = "job_returns w j r p"
  have rj: "runs p j" using assms(2,3) by (metis nth_mem runs_def)
  have cnt: "count_list (workers ?p) (Running_job i) + (if i = j then 1 else 0) = count_list (workers p) (Running_job i)" for i
    using count_list_update[OF assms(2), of Job_returned "Running_job i"] assms(3)
    by (auto simp: job_returns_def)
  have one: "count_list (workers p) (Running_job j) = 1" using assms(1) rj by (auto simp: pre_inv_def)
  have run: "runs ?p i \<longleftrightarrow> runs p i \<and> i \<noteq> j" for i
    using cnt[of i] one by (auto simp: runs_iff_count)
  have "num_busy (workers ?p) = num_busy (workers p)"
    using num_busy_update[OF assms(2), of Job_returned] assms(3) by (simp add: job_returns_def)
  moreover have "Exited_thread \<in> set (workers ?p) \<Longrightarrow> Exited_thread \<in> set (workers p)"
    using exited_update[OF assms(2), of Job_returned] by (simp add: job_returns_def)
  moreover have "\<forall>i. i \<noteq> j \<longrightarrow> count_list (workers ?p) (Running_job i) = count_list (workers p) (Running_job i)"
    using cnt by (metis add_0_right)
  ultimately show ?thesis
    using assms(1) rj run unfolding pre_inv_def by (auto simp: job_returns_def nth_list_update)
qed

lemma pre_inv_other:
  assumes "pre_inv p" "w < length (workers p)" "\<forall>j. workers p ! w \<noteq> Running_job j" "\<forall>j. x \<noteq> Running_job j"
    "x = Exited_thread \<longrightarrow> stopping p \<and> jobs p = []"
    "m + num_busy ((workers p)[w := x]) = num_completed p + num_busy (workers p)"
  shows "pre_inv (p\<lparr>workers := (workers p)[w := x], num_completed := m\<rparr>)"
proof -
  let ?p = "p\<lparr>workers := (workers p)[w := x], num_completed := m\<rparr>"
  have cnt: "count_list (workers ?p) (Running_job i) = count_list (workers p) (Running_job i)" for i
    using count_list_update[OF assms(2), of x "Running_job i"] assms(3,4) by simp
  then have run: "runs ?p i \<longleftrightarrow> runs p i" for i by (simp add: runs_iff_count)
  have "Exited_thread \<in> set (workers ?p) \<Longrightarrow> stopping p \<and> jobs p = []"
    using exited_update[OF assms(2), of x] assms(1,5) by (cases "x = Exited_thread") (auto simp: pre_inv_def)
  then show ?thesis using assms(1,6) cnt run unfolding pre_inv_def by simp
qed

lemma pre_inv_enqueue: "pre_inv p \<Longrightarrow> pre_inv (snd (enqueue oom key p))"
proof -
  assume inv: "pre_inv p"
  have run: "runs (p\<lparr>submitted := S, results := R, jobs := J\<rparr>) i \<longleftrightarrow> runs p i" for S R J i by (simp add: runs_def)
  show ?thesis
  proof (cases "stopping p \<or> key \<in> submitted p \<or> oom")
    case True
    with inv show ?thesis by (auto simp: enqueue_def Let_def)
  next
    case False
    with inv have "Exited_thread \<notin> set (workers p)" by (auto simp: pre_inv_def)
    moreover have "length (results p) \<notin> set (jobs p)" "\<not> runs p (length (results p))"
      using inv by (auto simp: pre_inv_def)
    ultimately show ?thesis
      using inv False unfolding pre_inv_def
      by (auto simp: enqueue_def Let_def run nth_append less_Suc_eq)
  qed
qed

lemma worker_step_inv:
  assumes "worker_step p p'" "pre_inv p"
  shows "pre_inv p'"
  using assms
proof cases
  case (Take w)
  with assms(2) show ?thesis by (simp add: pre_inv_take)
next
  case (Return_job w j r)
  with assms(2) show ?thesis by (simp add: pre_inv_return)
next
  case (Count w)
  have "pre_inv (p\<lparr>workers := (workers p)[w := Waiting], num_completed := Suc (num_completed p)\<rparr>)"
    using Count assms(2) num_busy_update[OF Count(2), of Waiting] by (intro pre_inv_other) auto
  with Count(1) show ?thesis by (simp add: count_job_def)
next
  case (Leave w)
  have "pre_inv (p\<lparr>workers := (workers p)[w := Exited_thread], num_completed := num_completed p\<rparr>)"
    using Leave assms(2) num_busy_update[OF Leave(2), of Exited_thread] by (intro pre_inv_other) auto
  with Leave(1) show ?thesis by (simp add: worker_exit_def)
qed

lemma pre_step_inv: "pre_step p p' \<Longrightarrow> pre_inv p \<Longrightarrow> pre_inv p'"
  by (induction rule: pre_step.induct)
    (auto simp: pre_inv_enqueue worker_step_inv, auto simp: pre_inv_def request_stop_def runs_def)

lemma worker_step_workers: "worker_step p p' \<Longrightarrow> length (workers p') = length (workers p) \<and> stopping p' = stopping p"
  by (induction rule: worker_step.induct)
    (auto simp: take_job_def job_returns_def count_job_def worker_exit_def)

lemma pre_step_workers: "pre_step p p' \<Longrightarrow> length (workers p') = length (workers p)"
  by (induction rule: pre_step.induct)
    (auto simp: worker_step_workers enqueue_def request_stop_def Let_def)

lemma pre_steps_inv:
  "pre_step\<^sup>*\<^sup>* p p' \<Longrightarrow> pre_inv p \<Longrightarrow> pre_inv p' \<and> length (workers p') = length (workers p)"
  by (induction rule: rtranclp_induct) (auto dest: pre_step_inv pre_step_workers)

lemma pre_reachable_inv:
  assumes "pre_reachable n p"
  shows "pre_inv p \<and> length (workers p) = nat n \<and> 0 < n"
proof -
  from assms obtain p0 where p0: "make_precompiler n (\<lambda>_. True) = Inr p0" "pre_step\<^sup>*\<^sup>* p0 p"
    by (auto simp: pre_reachable_def)
  then have "pre_inv p0" "length (workers p0) = nat n" "0 < n"
    by (auto simp: make_precompiler_def pre_inv_def runs_def num_busy_def split: if_splits)
  with pre_steps_inv[OF p0(2)] show ?thesis by simp
qed

text \<open>A result that is there stays.\<close>

lemma pre_step_results:
  assumes "pre_step p p'" "pre_inv p"
  shows "length (results p) \<le> length (results p') \<and>
    (\<forall>j r. j < length (results p) \<longrightarrow> results p ! j = Some r \<longrightarrow> results p' ! j = Some r)"
  using assms
proof cases
  case (Enqueue oom key)
  then show ?thesis by (auto simp: enqueue_def Let_def nth_append)
next
  case Stop
  then show ?thesis by (simp add: request_stop_def)
next
  case Worker
  then show ?thesis
  proof cases
    case (Return_job w j r)
    then have "runs p j" unfolding runs_def by (metis nth_mem)
    with assms(2) have "results p ! j = None" by (simp add: pre_inv_def)
    then have "(results p)[j := Some r] ! i = Some q" if "results p ! i = Some q" for i q
      using that by (cases "i = j") auto
    with Return_job show ?thesis by (simp add: job_returns_def)
  qed (auto simp: take_job_def count_job_def worker_exit_def)
qed

lemma pre_steps_results:
  "pre_step\<^sup>*\<^sup>* p p' \<Longrightarrow> pre_inv p \<Longrightarrow> j < length (results p) \<Longrightarrow> results p ! j = Some r \<Longrightarrow>
   j < length (results p') \<and> results p' ! j = Some r"
proof (induction rule: rtranclp_induct)
  case (step q q')
  then have "pre_inv q" using pre_steps_inv by blast
  with step pre_step_results[OF step(2)] show ?case by (meson less_le_trans)
qed simp

text \<open>The workers' steps come to an end.\<close>

fun weight :: "worker \<Rightarrow> nat" where
  "weight (Running_job j) = 3"
| "weight Job_returned = 2"
| "weight Waiting = 1"
| "weight Exited_thread = 0"

definition work_left :: "precompiler \<Rightarrow> nat" where
  "work_left p = 3 * length (jobs p) + sum_list (map weight (workers p))"

lemma weight_update:
  assumes "w < length ws"
  shows "sum_list (map weight (ws[w := x])) + weight (ws ! w) = sum_list (map weight ws) + weight x"
proof -
  have "ws = take w ws @ ws ! w # drop (Suc w) ws" using assms by (simp add: id_take_nth_drop)
  from arg_cong[OF this, of "\<lambda>l. sum_list (map weight l)"] show ?thesis
    using assms by (simp add: upd_conv_take_nth_drop)
qed

lemma worker_step_work_left: "worker_step p p' \<Longrightarrow> work_left p' < work_left p"
proof (induction rule: worker_step.induct)
  case (Take w p)
  then show ?case
    using weight_update[OF Take(1), of "Running_job (hd (jobs p))"]
    by (cases "jobs p") (auto simp: work_left_def take_job_def)
next
  case (Return_job w p j r)
  then show ?case using weight_update[OF Return_job(1), of Job_returned]
    by (auto simp: work_left_def job_returns_def)
next
  case (Count w p)
  then show ?case using weight_update[OF Count(1), of Waiting]
    by (auto simp: work_left_def count_job_def)
next
  case (Leave w p)
  then show ?case using weight_update[OF Leave(1), of Exited_thread]
    by (auto simp: work_left_def worker_exit_def)
qed

lemma worker_steps_end: "\<not> (\<exists>f. f (0 :: nat) = p \<and> (\<forall>i. worker_step (f i) (f (Suc i))))"
proof
  assume "\<exists>f. f (0 :: nat) = p \<and> (\<forall>i. worker_step (f i) (f (Suc i)))"
  then obtain f where f: "\<And>i. worker_step (f i) (f (Suc i))" by blast
  have "wf (measure work_left)" by simp
  moreover have "\<forall>i. (f (Suc i), f i) \<in> measure work_left" using worker_step_work_left[OF f] by simp
  ultimately show False using wf_iff_no_infinite_down_chain by blast
qed

lemma worker_steps_pre: "worker_step\<^sup>*\<^sup>* p p' \<Longrightarrow> pre_step\<^sup>*\<^sup>* p p' \<and> stopping p' = stopping p \<and>
    length (results p') = length (results p)"
proof (induction rule: rtranclp_induct)
  case (step q q')
  then have "length (results q') = length (results q)"
    by (auto elim!: worker_step.cases simp: take_job_def job_returns_def count_job_def worker_exit_def)
  with step worker_step_workers[OF step(2)] show ?case by (auto intro: rtranclp.rtrancl_into_rtrancl pre_step.Worker)
qed simp

lemma stuck_is_joined:
  assumes "pre_inv p" "stopping p" "workers p \<noteq> []" "\<nexists>q. worker_step p q"
  shows "joined p \<and> None \<notin> set (results p)"
proof -
  have "workers p ! w = Exited_thread" if "w < length (workers p)" for w
  proof (cases "workers p ! w")
    case Waiting
    with assms(2,4) Take[OF that] Leave[OF that] show ?thesis by (cases "jobs p = []") blast+
  next
    case Running_job
    with assms(4) Return_job[OF that] show ?thesis by blast
  next
    case Job_returned
    with assms(4) Count[OF that] show ?thesis by blast
  qed
  then have all: "\<forall>x \<in> set (workers p). x = Exited_thread" by (auto simp: in_set_conv_nth)
  with assms(3) have "Exited_thread \<in> set (workers p)" by (cases "workers p") auto
  with assms(1) have empty: "jobs p = []" by (simp add: pre_inv_def)
  have idle: "\<not> runs p j" for j using all by (auto simp: runs_def)
  have "results p ! j \<noteq> None" if "j < length (results p)" for j
    using assms(1) empty idle that by (simp add: pre_inv_def)
  then have "None \<notin> set (results p)" by (metis in_set_conv_nth)
  with all show ?thesis by (simp add: joined_def list_all_iff)
qed

definition errors_of :: "unit result option list \<Rightarrow> exn list" where
  "errors_of rs = concat (map (\<lambda>r. case r of Some (Inl e) \<Rightarrow> [e] | _ \<Rightarrow> []) rs)"

lemma get_results_first:
  "None \<notin> set rs \<Longrightarrow> get_results rs = Some (case errors_of rs of [] \<Rightarrow> Inr () | e # _ \<Rightarrow> Inl e)"
  by (induction rs rule: get_results.induct) (auto simp: errors_of_def)

section \<open>Properties\<close>

text \<open>C17: Every accepted key has exactly one job and every job runs at most once: however the
  producer and the workers interleave, there are as many jobs as distinct keys, and the
  result of a job, once there, is never replaced.\<close>

theorem precompiler_runs_once:
  assumes "pre_reachable n p" and "pre_step\<^sup>*\<^sup>* p p'"
  shows "card (submitted p) = length (results p) \<and>
    (\<forall>j < length (results p). \<forall>r. results p ! j = Some r \<longrightarrow> results p' ! j = Some r)"
  using pre_reachable_inv[OF assms(1)] pre_steps_results[OF assms(2)] by (simp add: pre_inv_def)

text \<open>C28: Stopping drains the queue: once stopping is requested, the workers cannot run for
  ever, and when they have nothing left to do every worker has exited, every job has run,
  and \<^verbatim>\<open>finish\<close> returns the first error in the order of submission, or none.\<close>

theorem precompiler_drains:
  assumes "pre_reachable n p" and "stopping p"
  shows "\<not> (\<exists>f. f (0 :: nat) = p \<and> (\<forall>i. worker_step (f i) (f (Suc i)))) \<and>
    (\<forall>p'. worker_step\<^sup>*\<^sup>* p p' \<and> (\<nexists>q. worker_step p' q) \<longrightarrow>
       length (results p') = length (results p) \<and> None \<notin> set (results p') \<and>
       finish p' = Some (case errors_of (results p') of [] \<Rightarrow> Inr () | e # _ \<Rightarrow> Inl e))"
proof (intro conjI allI impI worker_steps_end)
  fix p' assume "worker_step\<^sup>*\<^sup>* p p' \<and> (\<nexists>q. worker_step p' q)"
  note run = this worker_steps_pre[OF conjunct1[OF this]]
  note inv = pre_reachable_inv[OF assms(1)]
  have "pre_inv p'" "workers p' \<noteq> []" using run(2) pre_steps_inv[of p p'] inv by auto
  with stuck_is_joined[of p'] run assms(2) have "joined p'" "None \<notin> set (results p')" by blast+
  then show "length (results p') = length (results p)" "None \<notin> set (results p')"
    "finish p' = Some (case errors_of (results p') of [] \<Rightarrow> Inr () | e # _ \<Rightarrow> Inl e)"
    using run(2) get_results_first by (simp_all add: finish_def)
qed

text \<open>The progress line is right: the unsigned subtractions never wrap around, so the
  number of running jobs that is shown is the number of workers busy with a job, and the
  three numbers add up to the total.\<close>

theorem progress_exact:
  assumes "pre_reachable n p" and "length (results p) < 2 ^ 64"
    and "progress p = (spinner, completed, all, running, queued)"
  shows "all = length (results p) \<and> queued = length (jobs p) \<and> running = num_busy (workers p) \<and>
    running \<le> nat n \<and> completed + running + queued = all"
proof -
  from pre_reachable_inv[OF assms(1)]
  have sum: "num_completed p + length (jobs p) + num_busy (workers p) = length (results p)"
    and n: "length (workers p) = nat n" by (simp_all add: pre_inv_def)
  have "num_busy (workers p) \<le> nat n" using n length_filter_le[of busy "workers p"] by (simp add: num_busy_def)
  moreover have "word_of_nat (length (results p)) - word_of_nat (num_completed p) - word_of_nat (length (jobs p)) =
      (word_of_nat (num_busy (workers p)) :: 64 word)"
    unfolding sum[symmetric] by simp
  moreover have "num_completed p < 2 ^ 64" "length (jobs p) < 2 ^ 64" "num_busy (workers p) < 2 ^ 64"
    using sum assms(2) by linarith+
  ultimately show ?thesis
    using assms(2,3) sum unfolding progress_def Let_def by (auto simp: unat_of_nat take_bit_nat_eq_self)
qed

text \<open>Two jobs and one worker: the second fails, the first is still running when stopping is requested.\<close>

definition one_worker :: precompiler where
  "one_worker = \<lparr>submitted = {}, results = [], jobs = [], workers = [Waiting], stopping = False, num_completed = 0\<rparr>"

definition two_jobs :: precompiler where
  "two_jobs = take_job 0 (snd (enqueue False ''b.1'' (snd (enqueue False ''a.0'' one_worker))))"

definition two_jobs_done :: precompiler where
  "two_jobs_done = worker_exit 0 (count_job 0 (job_returns 0 1 (Inl (Panic ''x'')) (take_job 0 (count_job 0
     (job_returns 0 0 (Inr ()) (request_stop two_jobs))))))"

lemmas two_jobs_simps = two_jobs_done_def two_jobs_def one_worker_def take_job_def job_returns_def
  count_job_def worker_exit_def request_stop_def enqueue_def Let_def

lemma two_jobs_reachable: "pre_reachable 1 two_jobs"
proof -
  let ?p1 = "snd (enqueue False ''a.0'' one_worker)"
  let ?p2 = "snd (enqueue False ''b.1'' ?p1)"
  have "pre_step one_worker ?p1" "pre_step ?p1 ?p2" by (rule pre_step.Enqueue)+
  moreover have "pre_step ?p2 two_jobs"
    unfolding two_jobs_def by (rule pre_step.Worker, rule worker_step.Take) (auto simp: two_jobs_simps)
  moreover have "make_precompiler 1 (\<lambda>_. True) = Inr one_worker"
    by (simp add: make_precompiler_def one_worker_def)
  ultimately show ?thesis unfolding pre_reachable_def
    by (meson converse_rtranclp_into_rtranclp rtranclp.rtrancl_refl)
qed

lemma two_jobs_run: "worker_step\<^sup>*\<^sup>* (request_stop two_jobs) two_jobs_done"
proof -
  let ?p1 = "job_returns 0 0 (Inr ()) (request_stop two_jobs)"
  let ?p3 = "take_job 0 (count_job 0 ?p1)"
  let ?p4 = "job_returns 0 1 (Inl (Panic ''x'')) ?p3"
  have "worker_step (request_stop two_jobs) ?p1" by (rule Return_job) (auto simp: two_jobs_simps)
  moreover have "worker_step ?p1 (count_job 0 ?p1)" by (rule Count) (auto simp: two_jobs_simps)
  moreover have "worker_step (count_job 0 ?p1) ?p3" by (rule Take) (auto simp: two_jobs_simps)
  moreover have "worker_step ?p3 ?p4" by (rule Return_job) (auto simp: two_jobs_simps)
  moreover have "worker_step ?p4 (count_job 0 ?p4)" by (rule Count) (auto simp: two_jobs_simps)
  moreover have "worker_step (count_job 0 ?p4) two_jobs_done"
    unfolding two_jobs_done_def by (rule Leave) (auto simp: two_jobs_simps)
  ultimately show ?thesis by (meson converse_rtranclp_into_rtranclp rtranclp.rtrancl_refl)
qed

theorem precompiler_runs_once_witness: "card (submitted two_jobs) = 2"
  using precompiler_runs_once[OF two_jobs_reachable rtranclp.rtrancl_refl]
  by (simp add: two_jobs_simps)

theorem precompiler_drains_witness: "finish two_jobs_done = Some (Inl (Panic ''x''))"
proof -
  have "pre_reachable 1 (request_stop two_jobs)"
    using two_jobs_reachable pre_step.Stop unfolding pre_reachable_def
    by (meson rtranclp.rtrancl_into_rtrancl)
  moreover have "stopping (request_stop two_jobs)" by (simp add: request_stop_def)
  moreover have "\<nexists>q. worker_step two_jobs_done q"
    by (auto elim!: worker_step.cases simp: two_jobs_simps)
  ultimately have "finish two_jobs_done =
      Some (case errors_of (results two_jobs_done) of [] \<Rightarrow> Inr () | e # _ \<Rightarrow> Inl e)"
    using precompiler_drains two_jobs_run by blast
  then show ?thesis by (simp add: two_jobs_simps errors_of_def)
qed

theorem progress_exact_witness: "progress two_jobs = (CHR ''|'', 0, 2, 1, 1) \<and> num_busy (workers two_jobs) = 1"
proof -
  have shown: "progress two_jobs = (CHR ''|'', 0, 2, 1, 1)" by code_simp
  have "length (results two_jobs) < 2 ^ 64" by (simp add: two_jobs_simps)
  from progress_exact[OF two_jobs_reachable this shown] have "num_busy (workers two_jobs) = 1" by simp
  with shown show ?thesis by blast
qed

end
