(* ===== verification/Runtime.thy ===== *)
theory Runtime
  imports Prog_Logic Lazy_Values Precompiler Include_Parser Config
begin

text \<open>
  \<^verbatim>\<open>runtime/runtime.hpp\<close>: the cache key, the loop over the cache roots that builds, publishes
  and loads a kernel, and the runtime object with its in-memory cache and its dry-run mode.
  The template parameter \<^verbatim>\<open>Backend\<close> is a record of operations; the theories of the two
  backends fill it in.
\<close>

section \<open>One attempt on an entry\<close>

text \<open>Building and publishing, on a miss: the \<^verbatim>\<open>if (not entry.hit)\<close> of the loop.\<close>

definition build_entry ::
  "environ \<Rightarrow> bool \<Rightarrow> faults \<Rightarrow> nat \<Rightarrow> (fpath \<Rightarrow> world \<Rightarrow> unit io) \<Rightarrow> disk_cache_entry \<Rightarrow> world \<Rightarrow>
   (unit result \<times> disk_cache_entry \<times> world) option" where
  "build_entry e thr F depth compile_to en w =
     (if hit en then Some (Inr (), en, w)
      else case compile_to (entry_path en) w of
        None \<Rightarrow> None
      | Some (Inl x, w1) \<Rightarrow> Some (Inl x, en, w1)
      | Some (Inr _, w1) \<Rightarrow>
      case commit e thr F depth en w1 of
        None \<Rightarrow> None
      | Some (Inl x, en1, w2) \<Rightarrow> Some (Inl x, en1, w2)
      | Some (Inr _, en1, w2) \<Rightarrow> Some (Inr (), en1, w2))"

text \<open>
  What is done with the directory of an entry: \<^verbatim>\<open>Backend::load\<close>, or handing out its path.
  A load may look up further entries of the cache and keeps a state of the backend.
\<close>

type_synonym ('v, 's) loader = "fpath \<Rightarrow> disk_cache \<Rightarrow> 's \<Rightarrow> world \<Rightarrow> ('v result \<times> disk_cache \<times> 's \<times> world) option"

definition give_path :: "(fpath, 's) loader" where
  "give_path p dc s w = Some (Inr p, dc, s, w)"

definition try_entry ::
  "environ \<Rightarrow> bool \<Rightarrow> faults \<Rightarrow> nat \<Rightarrow> (fpath \<Rightarrow> world \<Rightarrow> unit io) \<Rightarrow> ('v, 's) loader \<Rightarrow> disk_cache_entry \<Rightarrow>
   disk_cache \<Rightarrow> 's \<Rightarrow> world \<Rightarrow> ('v result \<times> disk_cache_entry \<times> disk_cache \<times> 's \<times> world) option" where
  "try_entry e thr F depth compile_to load en dc s w =
     (case build_entry e thr F depth compile_to en w of
        None \<Rightarrow> None
      | Some (Inl x, en1, w1) \<Rightarrow> Some (Inl x, en1, dc, s, w1)
      | Some (Inr _, en1, w1) \<Rightarrow>
      case load (entry_path en1) dc s w1 of
        None \<Rightarrow> None
      | Some (r, dc1, s1, w2) \<Rightarrow> Some (r, en1, dc1, s1, w2))"

text \<open>Only timed-out tasks and timed-out commands can still be using the directory.\<close>

definition left_running :: "exn \<Rightarrow> bool" where
  "left_running x \<longleftrightarrow> x = IOTimeoutError \<or> sublist ''command timed out'' (what x)"

text \<open>The end of the scope of an entry: its destructor, then the result goes on.\<close>

definition leave_scope ::
  "environ \<Rightarrow> bool \<Rightarrow> faults \<Rightarrow> nat \<Rightarrow> disk_cache_entry \<Rightarrow> world \<Rightarrow> (world \<Rightarrow> 'r) \<Rightarrow> 'r option" where
  "leave_scope e thr F depth en w k = map_option k (destroy e thr F depth en w)"

section \<open>The loop over the roots\<close>

lemma entry_root_range:
  assumes "entry e thr F uuid dc tag digest first_root w = Some (Inr en, dc', w')"
  shows "first_root \<le> root_index en \<and> root_index en < length (paths dc) \<and> paths dc' = paths dc"
  using assms
proof (cases rule: entry_cases)
  case (hit i fl nt)
  from lookup_roots_spec[OF hit(1)] hit(2,3) show ?thesis
    by (simp add: new_entry_def lookup_result_def)
next
  case (created fl nt w1 nt')
  from create_in_roots_spec[OF created(2)] created(3) show ?thesis
    by (fastforce simp: new_entry_def)
qed simp_all

text \<open>
  \<^verbatim>\<open>compile_impl\<close>. The paths of a disk cache are constant, so a load can only change the
  counts of its timeouts. The names of the temporary directories are drawn anew in each
  pass. \<open>None\<close> is a call that never returns.
\<close>

definition keep_paths :: "disk_cache \<Rightarrow> disk_cache \<Rightarrow> disk_cache" where
  "keep_paths dc dc1 = dc\<lparr>num_timeouts := num_timeouts dc1\<rparr>"

lemma keep_paths_paths [simp]: "paths (keep_paths dc dc1) = paths dc"
  by (simp add: keep_paths_def)

definition report_to :: "disk_cache_entry \<Rightarrow> exn \<Rightarrow> disk_cache \<Rightarrow> disk_cache" where
  "report_to en x dc = dc\<lparr>num_timeouts := report_error (root_index en) x (num_timeouts dc)\<rparr>"

lemma report_to_paths [simp]: "paths (report_to en x dc) = paths dc"
  by (simp add: report_to_def)

text \<open>
  The loop is shared with \<^verbatim>\<open>build_loader\<close> of the Ascend backend, which has the same
  \<^verbatim>\<open>catch\<close>; \<open>attempt\<close> is the \<^verbatim>\<open>try\<close> block on an entry.
\<close>

type_synonym ('v, 's) attempt =
  "disk_cache_entry \<Rightarrow> disk_cache \<Rightarrow> 's \<Rightarrow> world \<Rightarrow> ('v result \<times> disk_cache_entry \<times> disk_cache \<times> 's \<times> world) option"

function root_loop ::
  "environ \<Rightarrow> bool \<Rightarrow> faults \<Rightarrow> nat \<Rightarrow> (nat \<Rightarrow> nat \<Rightarrow> string) \<Rightarrow> ('v, 's) attempt \<Rightarrow>
   string \<Rightarrow> string \<Rightarrow> nat \<Rightarrow> disk_cache \<Rightarrow> 's \<Rightarrow> world \<Rightarrow> ('v result \<times> disk_cache \<times> 's \<times> world) option" where
  "root_loop e thr F depth uuid attempt tag key first_root dc s w =
     (case entry e thr F (uuid first_root) dc tag key first_root w of
        None \<Rightarrow> None
      | Some (Inl x, dc1, w1) \<Rightarrow> Some (Inl x, dc1, s, w1)
      | Some (Inr en, dc1, w1) \<Rightarrow>
      case attempt en dc1 s w1 of
        None \<Rightarrow> None
      | Some (Inr v, en2, dc2, s2, w2) \<Rightarrow>
          leave_scope e thr F depth en2 w2 (\<lambda>w3. (Inr v, keep_paths dc1 dc2, s2, w3))
      | Some (Inl x, en2, dc2, s2, w2) \<Rightarrow>
      case disable_cache_fallback e of
        Inl y \<Rightarrow> leave_scope e thr F depth en2 w2 (\<lambda>w3. (Inl y, keep_paths dc1 dc2, s2, w3))
      | Inr True \<Rightarrow> leave_scope e thr F depth en2 w2 (\<lambda>w3. (Inl x, keep_paths dc1 dc2, s2, w3))
      | Inr False \<Rightarrow>
          (case leave_scope e thr F depth (en2\<lparr>abandoned := left_running x\<rparr>) w2 (\<lambda>w3. w3) of
             None \<Rightarrow> None
           | Some w3 \<Rightarrow>
               (let dc3 = report_to en x (keep_paths dc1 dc2); next_root = root_index en + 1
                in if next_root = length (paths dc3) then Some (Inl x, dc3, s2, w3)
                   else root_loop e thr F depth uuid attempt tag key next_root dc3 s2 w3)))"
  by pat_completeness auto
termination
proof (relation "measure (\<lambda>(e, thr, F, depth, uuid, attempt, tag, key, first_root, dc, s, w).
    length (paths dc) - first_root)", goal_cases)
  case 1
  then show ?case by simp
next
  case (2 e thr F depth uuid attempt tag key first_root dc s w a p q en y z)
  then show ?case using entry_root_range by (fastforce split: prod.splits)
qed

declare root_loop.simps [simp del]

definition compile_impl ::
  "environ \<Rightarrow> bool \<Rightarrow> faults \<Rightarrow> nat \<Rightarrow> (nat \<Rightarrow> nat \<Rightarrow> string) \<Rightarrow> (fpath \<Rightarrow> world \<Rightarrow> unit io) \<Rightarrow> ('v, 's) loader \<Rightarrow>
   string \<Rightarrow> string \<Rightarrow> nat \<Rightarrow> disk_cache \<Rightarrow> 's \<Rightarrow> world \<Rightarrow> ('v result \<times> disk_cache \<times> 's \<times> world) option" where
  "compile_impl e thr F depth uuid compile_to load =
     root_loop e thr F depth uuid (try_entry e thr F depth compile_to load)"

lemmas compile_impl_unfold = root_loop.simps
  [where e = e and thr = thr and F = F and depth = depth and attempt = "try_entry e thr F depth compile_to load"
    for e thr F depth compile_to load, folded compile_impl_def]

section \<open>One pass of the loop\<close>

lemma root_loop_cases [consumes 1, case_names no_entry finished stopped last again]:
  assumes "root_loop e thr F depth uuid attempt tag key first_root dc s w = Some (r, dc', s', w')"
  obtains x where "entry e thr F (uuid first_root) dc tag key first_root w = Some (Inl x, dc', w')" "r = Inl x" "s' = s"
  | en dc1 w1 v en2 dc2 w2 where
      "entry e thr F (uuid first_root) dc tag key first_root w = Some (Inr en, dc1, w1)"
      "attempt en dc1 s w1 = Some (Inr v, en2, dc2, s', w2)"
      "destroy e thr F depth en2 w2 = Some w'" "r = Inr v" "dc' = keep_paths dc1 dc2"
  | en dc1 w1 x en2 dc2 w2 y where
      "entry e thr F (uuid first_root) dc tag key first_root w = Some (Inr en, dc1, w1)"
      "attempt en dc1 s w1 = Some (Inl x, en2, dc2, s', w2)"
      "disable_cache_fallback e \<noteq> Inr False" "destroy e thr F depth en2 w2 = Some w'" "r = Inl y" "dc' = keep_paths dc1 dc2"
  | en dc1 w1 x en2 dc2 w2 where
      "entry e thr F (uuid first_root) dc tag key first_root w = Some (Inr en, dc1, w1)"
      "attempt en dc1 s w1 = Some (Inl x, en2, dc2, s', w2)"
      "disable_cache_fallback e = Inr False" "Suc (root_index en) = length (paths dc)"
      "destroy e thr F depth (en2\<lparr>abandoned := left_running x\<rparr>) w2 = Some w'" "r = Inl x"
      "dc' = report_to en x (keep_paths dc1 dc2)"
  | en dc1 w1 x en2 dc2 s2 w2 w3 where
      "entry e thr F (uuid first_root) dc tag key first_root w = Some (Inr en, dc1, w1)"
      "attempt en dc1 s w1 = Some (Inl x, en2, dc2, s2, w2)"
      "disable_cache_fallback e = Inr False" "Suc (root_index en) < length (paths dc)"
      "destroy e thr F depth (en2\<lparr>abandoned := left_running x\<rparr>) w2 = Some w3"
      "root_loop e thr F depth uuid attempt tag key (Suc (root_index en))
         (report_to en x (keep_paths dc1 dc2)) s2 w3 = Some (r, dc', s', w')"
proof -
  note run = assms[unfolded root_loop.simps[of e thr F depth uuid attempt tag key first_root dc s w]]
  obtain q dc1 w1 where ent: "entry e thr F (uuid first_root) dc tag key first_root w = Some (q, dc1, w1)"
    using run by (auto split: option.splits)
  show ?thesis
  proof (cases q)
    case (Inl x)
    with run ent that(1) show ?thesis by simp
  next
    case (Inr en)
    note range = entry_root_range[OF ent[unfolded Inr]]
    obtain t en2 dc2 s2 w2 where att: "attempt en dc1 s w1 = Some (t, en2, dc2, s2, w2)"
      using run ent Inr by (auto split: option.splits)
    show ?thesis
    proof (cases t)
      case (Inr v)
      with run ent \<open>q = Inr en\<close> att that(2) show ?thesis by (auto simp: leave_scope_def)
    next
      case (Inl x)
      show ?thesis
      proof (cases "disable_cache_fallback e = Inr False")
        case False
        with run ent \<open>q = Inr en\<close> att Inl that(3) show ?thesis
          by (cases "disable_cache_fallback e") (auto simp: leave_scope_def split: bool.splits)
      next
        case True
        obtain w3 where w3: "destroy e thr F depth (en2\<lparr>abandoned := left_running x\<rparr>) w2 = Some w3"
          using run ent \<open>q = Inr en\<close> att Inl True by (auto simp: leave_scope_def split: option.splits)
        show ?thesis
        proof (cases "Suc (root_index en) = length (paths dc)")
          case last: True
          with run ent \<open>q = Inr en\<close> att Inl True w3 range have "r = Inl x" "s' = s2" "w' = w3" "dc' = report_to en x (keep_paths dc1 dc2)"
            by (simp_all add: leave_scope_def Let_def)
          with ent \<open>q = Inr en\<close> att Inl True w3 last show ?thesis by (intro that(4)) auto
        next
          case False
          with run ent \<open>q = Inr en\<close> att Inl True w3 range have
            "root_loop e thr F depth uuid attempt tag key (Suc (root_index en))
               (report_to en x (keep_paths dc1 dc2)) s2 w3 = Some (r, dc', s', w')"
            by (simp add: leave_scope_def Let_def)
          with ent \<open>q = Inr en\<close> att Inl True False w3 range show ?thesis by (intro that(5)) auto
        qed
      qed
    qed
  qed
qed

lemmas compile_impl_cases [consumes 1, case_names no_entry finished stopped last again] = root_loop_cases
  [where e = e and thr = thr and F = F and depth = depth and attempt = "try_entry e thr F depth compile_to load"
    for e thr F depth compile_to load, folded compile_impl_def]

text \<open>What is known about an entry: where it is and where it is to be published.\<close>

definition placed :: "disk_cache_entry \<Rightarrow> fpath \<Rightarrow> world \<Rightarrow> bool" where
  "placed en p w \<longleftrightarrow>
     (if hit en then entry_path en = p \<and> lookup (tree w) (p @ [kCommitFileName]) \<noteq> None
      else \<not> committed en \<and> commit_path en = p \<and> apart (entry_path en) p)"

lemma entry_places:
  assumes "entry e thr F uuid dc tag digest first_root w = Some (Inr en, dc', w')"
  defines "p \<equiv> entry_dir (paths dc ! root_index en) (entry_name tag digest)"
  shows "root_index en < length (paths dc) \<and> placed en p w'"
  using assms(1)
proof (cases rule: entry_cases)
  case (hit i fl nt)
  from lookup_roots_spec[OF hit(1)] hit(2) show ?thesis
    by (simp add: new_entry_def p_def lookup_result_def marker_at_def placed_def)
next
  case (created fl nt w1 nt')
  from create_in_roots_spec[OF created(2)] show ?thesis
    by (fastforce simp: new_entry_def p_def tmp_entry_apart placed_def)
qed simp_all

lemma commit_placed:
  assumes "commit e thr F depth en w = Some (Inr q, en', w')" and "\<not> hit en" and "placed en p w0"
  shows "hit en' \<and> entry_path en' = p \<and> q = p \<and> lookup (tree w') (p @ [kCommitFileName]) \<noteq> None"
proof -
  from assms(2,3) have ok: "\<not> committed en" "apart (entry_path en) (commit_path en)" "commit_path en = p"
    by (auto simp: placed_def)
  from commit_marker[OF assms(1,2) ok(1,2)] have "lookup (tree w') (p @ [kCommitFileName]) \<noteq> None"
    using ok(3) by auto
  moreover have "hit en' \<and> entry_path en' = p \<and> q = p"
    by (cases rule: commit_cases[OF assms(1,2) ok(1)]) (use ok(3) in auto)
  ultimately show ?thesis by blast
qed

lemma build_entry_marker:
  assumes "build_entry e thr F depth compile_to en w = Some (Inr u, en', w')" and "placed en p w"
  shows "hit en' \<and> entry_path en' = p \<and> lookup (tree w') (p @ [kCommitFileName]) \<noteq> None"
proof (cases "hit en")
  case True
  with assms show ?thesis by (auto simp: build_entry_def placed_def)
next
  case False
  with assms(1) obtain w1 q where "commit e thr F depth en w1 = Some (Inr q, en', w')"
    by (auto simp: build_entry_def split: option.splits sum.splits)
  from commit_placed[OF this False assms(2)] show ?thesis by blast
qed

lemma destroy_hit: "hit en \<Longrightarrow> destroy e thr F depth en w = Some w"
  by (simp add: destroy_def)

text \<open>
  What the loop relies on in an attempt that hands something out, a value that belongs to
  the place \<open>p\<close>: by then the entry at \<open>p\<close> is published. Then so is what the loop returns.
\<close>

locale root_attempt =
  fixes attempt :: "('v, 's) attempt"
    and handed :: "'v \<Rightarrow> fpath \<Rightarrow> bool"
  assumes marks: "attempt en dc s w = Some (Inr v, en', dc', s', w') \<Longrightarrow> placed en p w \<Longrightarrow>
    hit en' \<and> handed v p \<and> lookup (tree w') (p @ [kCommitFileName]) \<noteq> None"
begin

lemma loop_hands_out:
  "root_loop e thr F depth uuid attempt tag key first_root dc s w = Some (Inr v, dc', s', w') \<Longrightarrow>
   \<exists>i < length (paths dc). handed v (entry_dir (paths dc ! i) (entry_name tag key)) \<and>
     lookup (tree w') (entry_dir (paths dc ! i) (entry_name tag key) @ [kCommitFileName]) \<noteq> None"
proof (induction "length (paths dc) - first_root" arbitrary: first_root dc s w rule: less_induct)
  case less
  from less.prems show ?case
  proof (cases rule: root_loop_cases)
    case (finished en dc1 w1 v en2 dc2 w2)
    note places = entry_places[OF finished(1)]
    from marks[OF finished(2) conjunct2[OF places]] finished(3,4) places show ?thesis
      by (auto simp: destroy_hit)
  next
    case (again en dc1 w1 x en2 dc2 s2 w2 w3)
    note range = entry_root_range[OF again(1)]
    let ?dc = "report_to en x (keep_paths dc1 dc2)"
    have "length (paths ?dc) - Suc (root_index en) < length (paths dc) - first_root"
      using range by auto
    from less.hyps[OF this again(6)] range show ?thesis by simp
  qed simp_all
qed

end

interpretation path_attempt: root_attempt "try_entry e thr F depth compile_to give_path" "(=)"
  for e thr F depth compile_to
  by unfold_locales
    (auto simp: try_entry_def give_path_def split: option.splits sum.splits dest!: build_entry_marker)

text \<open>The loop returns, and fails only for the reasons given.\<close>

lemma try_entry_returns:
  assumes "disable_cache_fallback e = Inr False" and "io_timeout e = Inr ms" and "0 < ms"
    and "\<forall>p w. compile_to p w \<noteq> None" and "\<forall>p dc s w. load p dc s w \<noteq> None"
  shows "\<exists>r en' dc' s' w'. try_entry e False F depth compile_to load en dc s w = Some (r, en', dc', s', w')"
proof -
  have "commit e False F depth en w1 \<noteq> None" for w1
    using commit_returns[OF assms(1-3), of F depth en w1] by auto
  then have "build_entry e False F depth compile_to en w \<noteq> None"
    using assms(4)[rule_format, of "entry_path en" w]
    by (auto simp: build_entry_def simp del: not_None_eq split: option.split sum.split)
  then obtain q en1 w1 where "build_entry e False F depth compile_to en w = Some (q, en1, w1)" by auto
  with assms(5)[rule_format, of "entry_path en1" dc s w1] show ?thesis
    by (cases q) (auto simp: try_entry_def)
qed

definition last_root_error ::
  "environ \<Rightarrow> faults \<Rightarrow> nat \<Rightarrow> (fpath \<Rightarrow> world \<Rightarrow> unit io) \<Rightarrow> ('v, 's) loader \<Rightarrow> nat \<Rightarrow> exn \<Rightarrow> bool" where
  "last_root_error e F depth compile_to load n x \<longleftrightarrow>
     (\<exists>en dc s w en2 dc2 s2 w2. Suc (root_index en) = n \<and>
        try_entry e False F depth compile_to load en dc s w = Some (Inl x, en2, dc2, s2, w2))"

lemma compile_impl_total:
  assumes "disable_cache_fallback e = Inr False" and "io_timeout e = Inr ms" and "0 < ms"
    and "\<forall>p w. compile_to p w \<noteq> None" and "\<forall>p dc s w. load p dc s w \<noteq> None"
  shows "\<exists>r dc' s' w'. compile_impl e False F depth uuid compile_to load tag key first_root dc s w = Some (r, dc', s', w') \<and>
    (\<forall>x. r = Inl x \<longrightarrow> check_tag tag = Inl x \<or> x = Panic ''all cache roots failed'' \<or>
       last_root_error e F depth compile_to load (length (paths dc)) x)"
proof (induction "length (paths dc) - first_root" arbitrary: first_root dc s w rule: less_induct)
  case less
  obtain q dc1 w1 where ent: "entry e False F (uuid first_root) dc tag key first_root w = Some (q, dc1, w1)"
      "\<forall>x. q = Inl x \<longrightarrow> check_tag tag = Inl x \<or> x = Panic ''all cache roots failed''"
    using entry_total[OF assms(1-3)] by blast
  note unfold = compile_impl_unfold[where e = e and thr = False and F = F and depth = depth and compile_to = compile_to and load = load
      and uuid = uuid and tag = tag and key = key and first_root = first_root and dc = dc and s = s and w = w]
  show ?case
  proof (cases q)
    case (Inl x)
    with ent show ?thesis unfolding unfold by auto
  next
    case (Inr en)
    note range = entry_root_range[OF ent(1)[unfolded Inr]]
    obtain t en2 dc2 s2 w2 where att: "try_entry e False F depth compile_to load en dc1 s w1 = Some (t, en2, dc2, s2, w2)"
      using try_entry_returns[OF assms] by blast
    show ?thesis
    proof (cases t)
      case (Inr v)
      obtain w3 where "destroy e False F depth en2 w2 = Some w3" using destroy_returns[OF assms(1-3)] by blast
      with ent \<open>q = Inr en\<close> att Inr show ?thesis by (simp add: unfold leave_scope_def)
    next
      case (Inl x)
      obtain w3 where w3: "destroy e False F depth (en2\<lparr>abandoned := left_running x\<rparr>) w2 = Some w3"
        using destroy_returns[OF assms(1-3)] by blast
      let ?dc = "report_to en x (keep_paths dc1 dc2)"
      show ?thesis
      proof (cases "Suc (root_index en) = length (paths dc)")
        case True
        then have "last_root_error e F depth compile_to load (length (paths dc)) x"
          using att Inl unfolding last_root_error_def by blast
        with ent \<open>q = Inr en\<close> att Inl w3 assms(1) range True show ?thesis
          by (simp add: unfold leave_scope_def Let_def)
      next
        case False
        have "length (paths ?dc) - Suc (root_index en) < length (paths dc) - first_root" using range by auto
        note IH = less[OF this, of s2 w3]
        from ent \<open>q = Inr en\<close> att Inl w3 assms(1) range False
        have "compile_impl e False F depth uuid compile_to load tag key first_root dc s w =
            compile_impl e False F depth uuid compile_to load tag key (Suc (root_index en)) ?dc s2 w3"
          by (simp add: unfold leave_scope_def Let_def)
        with IH range show ?thesis by simp
      qed
    qed
  qed
qed

section \<open>The runtime\<close>

text \<open>
  The template parameter \<^verbatim>\<open>Backend\<close>: options \<open>'o\<close> and launch options \<open>'l\<close>, the backend object
  \<open>'b\<close>, the state \<open>'s\<close> that its operations change, kernels \<open>'k\<close>, arguments \<open>'a\<close> of a
  launch and what a launch does, \<open>'c\<close>.
\<close>

record ('o, 'l, 'b, 's, 'k, 'a, 'c) backend =
  make_options :: "env \<Rightarrow> 'o result"
  make_launch_options :: "env \<Rightarrow> 'l result"
  make_backend :: "env \<Rightarrow> 'b comp"
  compiler_hash :: "'b \<Rightarrow> string"
  merge_options :: "'o \<Rightarrow> 'o \<Rightarrow> 'o"
  merge_launch_options :: "'l \<Rightarrow> 'l \<Rightarrow> 'l"
  hash_options :: "'o \<Rightarrow> fnv1a \<Rightarrow> fnv1a result"
  hook_hash :: "config \<Rightarrow> 'o \<Rightarrow> 's \<Rightarrow> string result \<times> 's"
  compile_source :: "'b \<Rightarrow> env \<Rightarrow> config \<Rightarrow> 'o \<Rightarrow> string \<Rightarrow> fpath \<Rightarrow> world \<Rightarrow> unit io"
  load_dir :: "'b \<Rightarrow> env \<Rightarrow> ('k, 's) loader"
  launch_kernel :: "'k \<Rightarrow> 'l \<Rightarrow> 'a \<Rightarrow> 'c"

record ('o, 'l, 'b, 'k) runtime =
  rt_config :: config
  rt_env :: env
  rt_default_options :: 'o
  rt_default_launch :: 'l
  rt_disk_cache :: disk_cache
  rt_backend :: 'b
  rt_parser :: parser
  rt_parser_state :: pstate
  rt_mem_cache :: "(string, 'k) mem_cache"
  rt_hash_base :: fnv1a
  rt_precompiler :: "precompiler option"

text \<open>
  What the operating system gives to a call: the faults, a bound on the nesting of
  directories, the names drawn for temporary directories, the files the include scanner
  sees and the depth it may go to.
\<close>

record os_setting =
  os_faults :: faults
  os_depth :: nat
  os_uuid :: "nat \<Rightarrow> nat \<Rightarrow> string"
  os_files :: snapshot
  os_fuel :: nat

text \<open>The members in their order, then the hash base and the pool of a dry run.\<close>

definition num_workers :: "env \<Rightarrow> nat \<Rightarrow> int result" where
  "num_workers env num_cpus = env_int env ''JIT_COMPILE_THREADS'' (if num_cpus = 0 then 1 else int num_cpus)"

definition dry_run :: "env \<Rightarrow> nat \<Rightarrow> (nat \<Rightarrow> bool) \<Rightarrow> precompiler option result" where
  "dry_run env num_cpus can_start =
     bind_result (env_bool env ''JIT_DRY_RUN'' False) (\<lambda>dry.
     if dry then bind_result (num_workers env num_cpus) (\<lambda>n.
                 bind_result (make_precompiler n can_start) (\<lambda>p. Inr (Some p)))
     else Inr None)"

definition make_runtime ::
  "('o, 'l, 'b, 's, 'k, 'a, 'c) backend \<Rightarrow> path \<Rightarrow> snapshot \<Rightarrow> nat \<Rightarrow> (nat \<Rightarrow> bool) \<Rightarrow> environ \<Rightarrow> config \<Rightarrow>
   ('o, 'l, 'b, 'k) runtime comp" where
  "make_runtime B cwd files num_cpus can_start e cfg =
     bind_io (give (make_env (cfg_env_prefix cfg) e)) (\<lambda>env.
     bind_io (give (make_options B env)) (\<lambda>opts.
     bind_io (give (make_launch_options B env)) (\<lambda>lopts.
     bind_io (give (disk_cache_from_env cwd env)) (\<lambda>dc.
     bind_io (make_backend B env) (\<lambda>b.
     bind_io (give (dry_run env num_cpus can_start)) (\<lambda>pre.
     give (Inr \<lparr>rt_config = cfg, rt_env = env, rt_default_options = opts, rt_default_launch = lopts,
          rt_disk_cache = dc, rt_backend = b,
          rt_parser = \<lparr>p_include_dirs = include_dirs cfg, p_include_prefixes = include_prefixes cfg,
                       p_files = files\<rparr>,
          rt_parser_state = new_pstate, rt_mem_cache = Map.empty,
          rt_hash_base = update (update fnv_new (extra_signature cfg)) (compiler_hash B b),
          rt_precompiler = pre\<rparr>)))))))"

text \<open>\<^verbatim>\<open>cache_key\<close>: a copy of the base hash takes the options, the hook and the source.\<close>

definition cache_key ::
  "('o, 'l, 'b, 's, 'k, 'a, 'c) backend \<Rightarrow> os_setting \<Rightarrow> ('o, 'l, 'b, 'k) runtime \<Rightarrow> string \<Rightarrow> 'o \<Rightarrow> 's \<Rightarrow>
   (string result \<times> pstate \<times> 's) option" where
  "cache_key B os rt source opts s =
     (case hash_options B opts (rt_hash_base rt) of
        Inl x \<Rightarrow> Some (Inl x, rt_parser_state rt, s)
      | Inr h \<Rightarrow>
      case hook_hash B (rt_config rt) opts s of
        (Inl x, s1) \<Rightarrow> Some (Inl x, rt_parser_state rt, s1)
      | (Inr hook, s1) \<Rightarrow>
      case parse_into_hash (os_fuel os) ((rt_parser rt)\<lparr>p_files := os_files os\<rparr>) (rt_parser_state rt) source of
        None \<Rightarrow> None
      | Some (Inl x, ps) \<Rightarrow> Some (Inl x, ps, s1)
      | Some (Inr code, ps) \<Rightarrow> Some (Inr (get_hex_digest (update (update h hook) code)), ps, s1))"

text \<open>\<^verbatim>\<open>compile_impl\<close> of this runtime; a load may change the state of the backend.\<close>

definition run_compile ::
  "('o, 'l, 'b, 's, 'k, 'a, 'c) backend \<Rightarrow> os_setting \<Rightarrow> ('o, 'l, 'b, 'k) runtime \<Rightarrow> ('v, 's) loader \<Rightarrow>
   string \<Rightarrow> string \<Rightarrow> string \<Rightarrow> 'o \<Rightarrow> disk_cache \<times> 's \<times> world \<Rightarrow> ('v result \<times> disk_cache \<times> 's \<times> world) option" where
  "run_compile B os rt load name source key opts st =
     (case st of (dc, s, w) \<Rightarrow>
        compile_impl (environ (rt_env rt)) False (os_faults os) (os_depth os) (os_uuid os)
          (compile_source B (rt_backend rt) (rt_env rt) (rt_config rt) opts source) load name key 0 dc s w)"

text \<open>
  \<^verbatim>\<open>compile\<close>: in a dry run the job is queued and a null kernel is returned. \<open>oom\<close> is an
  allocation that fails in the queue.
\<close>

definition rt_compile ::
  "('o, 'l, 'b, 's, 'k, 'a, 'c) backend \<Rightarrow> os_setting \<Rightarrow> bool \<Rightarrow> string \<Rightarrow> string \<Rightarrow> 'o \<Rightarrow>
   ('o, 'l, 'b, 'k) runtime \<Rightarrow> 's \<Rightarrow> world \<Rightarrow>
   ('k option result \<times> ('o, 'l, 'b, 'k) runtime \<times> 's \<times> world) option" where
  "rt_compile B os oom name source override_options rt s w =
     (let opts = merge_options B (rt_default_options rt) override_options
      in case cache_key B os rt source opts s of
           None \<Rightarrow> None
         | Some (Inl x, ps, s1) \<Rightarrow> Some (Inl x, rt\<lparr>rt_parser_state := ps\<rparr>, s1, w)
         | Some (Inr key, ps, s1) \<Rightarrow>
      case rt_precompiler rt of
        Some p \<Rightarrow>
          (case enqueue oom (name @ ''.'' @ key) p of (r, p') \<Rightarrow>
             Some (bind_result r (\<lambda>_. Inr None), rt\<lparr>rt_parser_state := ps, rt_precompiler := Some p'\<rparr>, s1, w))
      | None \<Rightarrow>
          (case get_or_create key (run_compile B os rt (load_dir B (rt_backend rt) (rt_env rt)) name source key opts)
                  (rt_mem_cache rt) (rt_disk_cache rt, s1, w) of
             None \<Rightarrow> None
           | Some (r, mc, dc, s2, w2) \<Rightarrow>
               Some (bind_result r (\<lambda>k. Inr (Some k)),
                     rt\<lparr>rt_parser_state := ps, rt_mem_cache := mc, rt_disk_cache := dc\<rparr>, s2, w2)))"

text \<open>The overload with a given key, and \<^verbatim>\<open>compile_without_load\<close>.\<close>

definition compile_with_key ::
  "('o, 'l, 'b, 's, 'k, 'a, 'c) backend \<Rightarrow> os_setting \<Rightarrow> string \<Rightarrow> string \<Rightarrow> string \<Rightarrow> 'o \<Rightarrow>
   ('o, 'l, 'b, 'k) runtime \<Rightarrow> 's \<Rightarrow> world \<Rightarrow>
   (fpath result \<times> ('o, 'l, 'b, 'k) runtime \<times> 's \<times> world) option" where
  "compile_with_key B os name source key opts rt s w =
     map_option (\<lambda>(r, dc, s1, w1). (r, rt\<lparr>rt_disk_cache := dc\<rparr>, s1, w1))
       (run_compile B os rt give_path name source key opts (rt_disk_cache rt, s, w))"

definition compile_without_load ::
  "('o, 'l, 'b, 's, 'k, 'a, 'c) backend \<Rightarrow> os_setting \<Rightarrow> string \<Rightarrow> string \<Rightarrow> 'o \<Rightarrow>
   ('o, 'l, 'b, 'k) runtime \<Rightarrow> 's \<Rightarrow> world \<Rightarrow>
   (fpath result \<times> ('o, 'l, 'b, 'k) runtime \<times> 's \<times> world) option" where
  "compile_without_load B os name source override_options rt s w =
     (let opts = merge_options B (rt_default_options rt) override_options
      in case cache_key B os rt source opts s of
           None \<Rightarrow> None
         | Some (Inl x, ps, s1) \<Rightarrow> Some (Inl x, rt\<lparr>rt_parser_state := ps\<rparr>, s1, w)
         | Some (Inr key, ps, s1) \<Rightarrow>
             compile_with_key B os name source key opts (rt\<lparr>rt_parser_state := ps\<rparr>) s1 w)"

text \<open>\<^verbatim>\<open>launch\<close>: \<open>Inr None\<close> is the empty launch of a dry run.\<close>

definition rt_launch ::
  "('o, 'l, 'b, 's, 'k, 'a, 'c) backend \<Rightarrow> 'k option \<Rightarrow> 'l \<Rightarrow> 'a \<Rightarrow> ('o, 'l, 'b, 'k) runtime \<Rightarrow> 'c option result" where
  "rt_launch B k override_options args rt =
     (if rt_precompiler rt \<noteq> None then Inr None
      else case k of
             None \<Rightarrow> Inl (Assertion ''kernel must not be null'')
           | Some kern \<Rightarrow>
               Inr (Some (launch_kernel B kern (merge_launch_options B (rt_default_launch rt) override_options) args)))"

text \<open>\<^verbatim>\<open>create_lazy_jit\<close>\<close>

definition create_lazy_jit ::
  "(config \<Rightarrow> 'w \<Rightarrow> ('o, 'l, 'b, 'k) runtime result \<times> 'w) \<Rightarrow> config \<Rightarrow>
   (('o, 'l, 'b, 'k) runtime, 'w) lazy_init" where
  "create_lazy_jit construct cfg =
     new_lazy (Some (\<lambda>w. case construct cfg w of (r, w') \<Rightarrow> (bind_result r (\<lambda>rt. Inr (Some rt)), w')))"

section \<open>The cache key as a list of parts\<close>

text \<open>
  What the runtime relies on in the options of a backend: hashing them is a chain of
  updates. Then the key is the digest of a chain over all parts, the way the base was made.
\<close>

locale keyed_options =
  fixes hash_opts :: "'o \<Rightarrow> fnv1a \<Rightarrow> fnv1a result"
    and parts :: "'o \<Rightarrow> string list result"
  assumes hash_parts: "hash_opts opts h = bind_result (parts opts) (\<lambda>ps. Inr (foldl update h ps))"
begin

lemma cache_key_parts:
  assumes "hash_options B = hash_opts"
    and "cache_key B os rt source opts s = Some (Inr key, pst, s1)"
    and "rt_hash_base rt = foldl update fnv_new base"
  shows "\<exists>ps hook code. parts opts = Inr ps \<and> hook_hash B (rt_config rt) opts s = (Inr hook, s1) \<and>
    parse_into_hash (os_fuel os) ((rt_parser rt)\<lparr>p_files := os_files os\<rparr>) (rt_parser_state rt) source = Some (Inr code, pst) \<and>
    key = get_hex_digest (foldl update fnv_new (base @ ps @ [hook, code]))"
proof -
  from assms(1,2) obtain h where h: "hash_opts opts (rt_hash_base rt) = Inr h"
    by (auto simp: cache_key_def split: sum.splits)
  then obtain ps where ps: "parts opts = Inr ps" "h = foldl update (rt_hash_base rt) ps"
    by (auto simp: hash_parts result_simps)
  from assms(1,2) h obtain hook code where
    "hook_hash B (rt_config rt) opts s = (Inr hook, s1)"
    "parse_into_hash (os_fuel os) ((rt_parser rt)\<lparr>p_files := os_files os\<rparr>) (rt_parser_state rt) source = Some (Inr code, pst)"
    "key = get_hex_digest (update (update h hook) code)"
    by (auto simp: cache_key_def split: sum.splits prod.splits option.splits)
  with ps assms(3) show ?thesis by simp
qed

end

text \<open>What a new runtime holds.\<close>

lemma make_runtime_base:
  assumes "make_runtime B cwd files num_cpus can_start e cfg w = Some (Inr rt, w')"
  shows "rt_hash_base rt = foldl update fnv_new [extra_signature cfg, compiler_hash B (rt_backend rt)]"
  using assms unfolding make_runtime_def by (elim bind_io_Inr) auto

section \<open>Compiling twice\<close>

lemma rt_compile_loaded:
  assumes "rt_compile B os oom name source ov rt s w = Some (Inr (Some k), rt1, s1, w1)"
    and "cache_key B os rt source (merge_options B (rt_default_options rt) ov) s = Some (Inr key, ps, s0)"
  shows "rt_mem_cache rt1 key = Some k \<and> rt_precompiler rt1 = None"
proof -
  have no_pre: "rt_precompiler rt = None"
  proof (cases "rt_precompiler rt")
    case (Some p)
    with assms show ?thesis
      by (auto simp: rt_compile_def Let_def result_simps split: prod.splits)
  qed
  obtain r mc dc s2 w2 where goc: "get_or_create key
      (run_compile B os rt (load_dir B (rt_backend rt) (rt_env rt)) name source key
        (merge_options B (rt_default_options rt) ov)) (rt_mem_cache rt) (rt_disk_cache rt, s0, w) =
      Some (r, mc, dc, s2, w2)"
    using assms no_pre by (auto simp: rt_compile_def Let_def split: option.splits)
  with assms no_pre have "r = Inr k" "rt_mem_cache rt1 = mc" "rt_precompiler rt1 = None"
    by (auto simp: rt_compile_def Let_def result_simps)
  with conjunct1[OF get_or_create_kept[OF goc[unfolded \<open>r = Inr k\<close>]]] show ?thesis by simp
qed

lemma rt_compile_hit:
  assumes "rt_precompiler rt = None" "rt_mem_cache rt key = Some k"
    and "cache_key B os rt source (merge_options B (rt_default_options rt) ov) s = Some (Inr key, ps, s1)"
  shows "rt_compile B os oom name source ov rt s w = Some (Inr (Some k), rt\<lparr>rt_parser_state := ps\<rparr>, s1, w)"
  using assms by (simp add: rt_compile_def Let_def get_or_create_hit)

section \<open>Properties\<close>

text \<open>C3: A directory that is handed out is a published entry: whatever fails or hangs on the
  way, the path that \<^verbatim>\<open>compile_without_load\<close> returns is the place of the entry in one of
  the roots, never a temporary directory, and its commit marker is there.\<close>

theorem handed_out_path_committed:
  assumes "compile_with_key B os name source key opts rt s w = Some (Inr p, rt', s', w')"
  shows "\<exists>i < length (paths (rt_disk_cache rt)).
    p = entry_dir (paths (rt_disk_cache rt) ! i) (entry_name name key) \<and>
    lookup (tree w') (p @ [kCommitFileName]) \<noteq> None"
  using assms path_attempt.loop_hands_out
  by (fastforce simp: compile_with_key_def run_compile_def compile_impl_def)




text \<open>In a dry run nothing is compiled, loaded or launched by the caller: a compilation
  leaves the file system, both caches and the state of the backend as the key computation
  left it and returns a null kernel, which a launch accepts and ignores.\<close>

theorem dry_run_has_no_effect:
  assumes "rt_compile B os oom name source ov rt s w = Some (r, rt1, s1, w1)" and "rt_precompiler rt \<noteq> None"
  shows "w1 = w \<and> rt_mem_cache rt1 = rt_mem_cache rt \<and> rt_disk_cache rt1 = rt_disk_cache rt \<and>
    (\<forall>k. r = Inr k \<longrightarrow> k = None) \<and> rt_launch B k' lov args rt1 = Inr None"
proof -
  from assms(2) obtain p where p: "rt_precompiler rt = Some p" by auto
  obtain q ps s0 where key: "cache_key B os rt source (merge_options B (rt_default_options rt) ov) s = Some (q, ps, s0)"
    using assms(1) by (auto simp: rt_compile_def Let_def split: option.splits)
  show ?thesis
  proof (cases q)
    case (Inl x)
    with assms(1) key p show ?thesis by (auto simp: rt_compile_def Let_def rt_launch_def)
  next
    case (Inr h)
    obtain q2 p2 where "enqueue oom (name @ ''.'' @ h) p = (q2, p2)" by fastforce
    with assms(1) key p Inr show ?thesis by (auto simp: rt_compile_def Let_def rt_launch_def result_simps)
  qed
qed


section \<open>A small instance\<close>

text \<open>A backend without options whose kernels are numbers, and a runtime on it.\<close>

definition toy_backend :: "(unit, unit, unit, unit, nat, unit, nat) backend" where
  "toy_backend =
     \<lparr>make_options = (\<lambda>_. Inr ()), make_launch_options = (\<lambda>_. Inr ()), make_backend = (\<lambda>_. give (Inr ())),
      compiler_hash = (\<lambda>_. ''v''), merge_options = (\<lambda>_ _. ()), merge_launch_options = (\<lambda>_ _. ()),
      hash_options = (\<lambda>_ h. Inr h), hook_hash = (\<lambda>_ _ s. (Inr [], s)),
      compile_source = (\<lambda>_ _ _ _ _ p w. Some (Inr (), w)),
      load_dir = (\<lambda>_ _ p dc s w. Some (Inr (length p), dc, s, w)), launch_kernel = (\<lambda>k _ _. k)\<rparr>"

definition toy_runtime :: "(string, nat) mem_cache \<Rightarrow> precompiler option \<Rightarrow> (unit, unit, unit, nat) runtime" where
  "toy_runtime mc pre =
     \<lparr>rt_config = \<lparr>python_library_root = ''/x'', cfg_env_prefix = ''A'', extra_signature = [], include_dirs = [],
                   include_prefixes = []\<rparr>,
      rt_env = \<lparr>env_prefix = ''A'', environ = slow_env\<rparr>, rt_default_options = (), rt_default_launch = (),
      rt_disk_cache = two_roots, rt_backend = (),
      rt_parser = \<lparr>p_include_dirs = [], p_include_prefixes = [],
                   p_files = \<lparr>path_exists = (\<lambda>_. False), open_read = Map.empty\<rparr>\<rparr>,
      rt_parser_state = new_pstate, rt_mem_cache = mc, rt_hash_base = fnv_new, rt_precompiler = pre\<rparr>"

definition toy_os :: os_setting where
  "toy_os = \<lparr>os_faults = no_faults, os_depth = 3, os_uuid = (\<lambda>_ _. ''u''),
     os_files = \<lparr>path_exists = (\<lambda>_. False), open_read = Map.empty\<rparr>, os_fuel = 1\<rparr>"

lemma toy_key:
  "cache_key toy_backend toy_os (toy_runtime mc pre) [] opts s =
     Some (Inr (get_hex_digest (update (update fnv_new []) (get_hex_digest (update fnv_new [])))), new_pstate, s)"
  by (simp add: cache_key_def toy_backend_def toy_runtime_def toy_os_def parse_into_hash_def
      code_lines.simps[of "[]"])

lemma keep_paths_same: "keep_paths dc dc = dc"
  by (simp add: keep_paths_def)

theorem handed_out_path_committed_witness:
  "lookup (tree (one_entry\<lparr>tick := 3\<rparr>)) [''b'', ''cache'', ''kernel.00'', ''.committed''] \<noteq> None"
proof -
  have "compile_with_key toy_backend toy_os ''kernel'' [] ''00'' () (toy_runtime Map.empty None) () one_entry =
      Some (Inr [''b'', ''cache'', ''kernel.00''], toy_runtime Map.empty None, (), one_entry\<lparr>tick := 3\<rparr>)"
    by (simp add: compile_with_key_def run_compile_def compile_impl_unfold toy_os_def toy_runtime_def
        one_entry_hit try_entry_def build_entry_def new_entry_def give_path_def leave_scope_def destroy_hit
        keep_paths_same)
  from handed_out_path_committed[OF this] show ?thesis
    by (auto simp: kCommitFileName_def)
qed


theorem dry_run_has_no_effect_witness:
  "\<exists>r rt1. rt_compile toy_backend toy_os False ''kernel'' [] () (toy_runtime Map.empty (Some one_worker)) () one_entry =
     Some (r, rt1, (), one_entry) \<and> rt_launch toy_backend None () () rt1 = Inr None"
proof -
  have pre: "rt_precompiler (toy_runtime Map.empty (Some one_worker)) = Some one_worker"
    by (simp add: toy_runtime_def)
  obtain r rt1 s1 w1 where run: "rt_compile toy_backend toy_os False ''kernel'' [] ()
      (toy_runtime Map.empty (Some one_worker)) () one_entry = Some (r, rt1, s1, w1)"
    by (cases "enqueue False (''kernel'' @ ''.'' @ get_hex_digest (update (update fnv_new []) (get_hex_digest (update fnv_new [])))) one_worker")
      (auto simp: rt_compile_def pre toy_key)
  from dry_run_has_no_effect[OF run, of None "()" "()"] pre run show ?thesis by auto
qed

definition direct_env :: environ where
  "direct_env = [''DJ_DISABLE_CACHE_FALLBACK'' \<mapsto> ''1'']"

definition empty_root :: world where
  "empty_root = \<lparr>tree = [([''a''], Dir 0x1ED)], tick = 0\<rparr>"

definition fresh_entry :: disk_cache_entry where
  "fresh_entry = new_entry False [''a'', ''tmp'', ''u''] [''a'', ''cache'', ''kernel.00''] False 0"

definition fresh_world :: world where
  "fresh_world = \<lparr>tree = [([''a''], Dir 0x1ED), ([''a'', ''tmp''], Dir 0x1ED), ([''a'', ''tmp'', ''u''], Dir 0x1ED)], tick = 4\<rparr>"


end
