(* ===== verification/Build_Tasks.thy ===== *)
theory Build_Tasks
  imports Runtime Command
begin

text \<open>
  What the compilation pipelines of the two backends share: running a command, validating
  its outputs, and why a validated output is still there when the pipeline ends. The
  command itself is a parameter: what \<^verbatim>\<open>call_external_command\<close> returns for it and what the
  child does to the file system in the meantime.
\<close>

type_synonym shell = "string \<Rightarrow> world \<Rightarrow> string result \<times> world"

definition run_command :: "shell \<Rightarrow> string \<Rightarrow> string comp" where
  "run_command sh cmd w = Some (sh cmd w)"

text \<open>\<^verbatim>\<open>is_regular_file(p) and file_size(p) != 0\<close> as an assertion.\<close>

definition valid_output :: "fpath \<Rightarrow> string \<Rightarrow> unit prog" where
  "valid_output p message = bind_prog (is_regular_file p) (\<lambda>regular.
     if \<not> regular then Raise (Assertion message)
     else Sys (Stat p) (\<lambda>r. case r of
       R_stat (Some (File m d)) \<Rightarrow> if d \<noteq> [] then Return () else Raise (Assertion message)
     | R_err e \<Rightarrow> Raise (filesystem_error p e)
     | _ \<Rightarrow> Raise (filesystem_error p ENOENT)))"

text \<open>\<^verbatim>\<open>cd dir && command\<close>\<close>

definition in_dir :: "fpath \<Rightarrow> string \<Rightarrow> string" where
  "in_dir dir cmd = ''cd '' @ show_path dir @ '' && '' @ cmd"

definition path_in :: "fpath \<Rightarrow> string \<Rightarrow> string" where
  "path_in dir name = show_path (dir @ [name])"

text \<open>The calls on the file system are made by the caller's own thread.\<close>

definition here :: "faults \<Rightarrow> 'a prog \<Rightarrow> 'a comp" where
  "here F p = run_directly F p"

text \<open>\<^verbatim>\<open>run_in_iothread\<close> of the caller.\<close>

definition on_iothread :: "environ \<Rightarrow> faults \<Rightarrow> 'a prog \<Rightarrow> 'a comp" where
  "on_iothread e F p = run_in_iothread e False F p"

lemma run_command_Inr: "run_command sh cmd w = Some (Inr out, w') \<longleftrightarrow> sh cmd w = (Inr out, w')"
  by (simp add: run_command_def)

lemma here_Inr: "here F q w = Some (Inr d, w') \<Longrightarrow> exec F q w = (Returned d, w')"
  by (simp add: here_def run_directly_def split: prod.splits outcome.splits)

lemma on_iothread_exec: "on_iothread e F p w = Some (Inr x, w') \<Longrightarrow> exec F p w = (Returned x, w')"
  unfolding on_iothread_def by (rule run_io_Inr)

lemma on_iothread_ok:
  "exec no_faults p w = (Returned x, w') \<Longrightarrow> on_iothread slow_env no_faults p w = Some (Inr x, w')"
  by (simp add: on_iothread_def run_in_iothread_def slow_env_ok run_on_worker_def)

section \<open>Outputs stay\<close>

definition nonempty_file :: "fs \<Rightarrow> fpath \<Rightarrow> bool" where
  "nonempty_file fs p \<longleftrightarrow> (\<exists>m d. lookup fs p = Some (File m d) \<and> d \<noteq> [])"

fun spares :: "fpath \<Rightarrow> syscall \<Rightarrow> bool" where
  "spares p (Open_write q) \<longleftrightarrow> q \<noteq> p"
| "spares p (Rename a b) \<longleftrightarrow> False"
| "spares p (Remove q) \<longleftrightarrow> \<not> prefix q p"
| "spares p c \<longleftrightarrow> True"

lemma spares_keeps: "spares p c \<Longrightarrow> p \<noteq> [] \<Longrightarrow> keeps (\<lambda>fs. nonempty_file fs p) c"
  by (cases c)
    (auto simp: keeps_def nonempty_file_def on_node_def lookup_def update_conv' map_of_add_dirs map_of_erase_tree
      missing_dirs_def split: option.split node.split dest: in_set_takeD)

lemma spares_permissions: "only (spares p) (set_shared_permissions q d sh)"
  by (auto simp: set_shared_permissions_def intro!: only_bind split: reply.split)

lemma spares_fsync_file: "only (spares p) (fsync_file q)"
  by (auto simp: fsync_file_def split: reply.split)

lemma spares_write: "q \<noteq> p \<Longrightarrow> only (spares p) (write_file_sync q d sh)"
  by (auto simp: write_file_sync_def intro!: only_bind spares_permissions spares_fsync_file split: reply.split)

lemma spares_valid_output: "only (spares p) (valid_output q m)"
  by (auto simp: valid_output_def is_regular_file_def split: reply.split option.split node.split)

lemma spares_removes: "removes_below r c \<Longrightarrow> \<not> prefix r p \<Longrightarrow> spares p c"
  by (cases c) (auto simp: removes_below_def)

lemma spares_safe_remove_all: "\<not> prefix r p \<Longrightarrow> only (spares p) (safe_remove_all n r)"
  by (rule only_mono[OF only_safe_remove_all[of r n "[]", simplified] spares_removes])

lemma exec_spares:
  "only (spares p) q \<Longrightarrow> exec F q w = (out, w') \<Longrightarrow> p \<noteq> [] \<Longrightarrow> nonempty_file (tree w) p \<Longrightarrow> nonempty_file (tree w') p"
  using exec_keeps[of "spares p" q "\<lambda>fs. nonempty_file fs p"] spares_keeps by blast

lemma valid_output_nonempty:
  assumes "exec F (valid_output p m) w = (Returned u, w')"
  shows "nonempty_file (tree w') p"
  using assms unfolding valid_output_def
proof (rule exec_bind_Returned)
  fix b w1
  assume r: "exec F (if \<not> b then Raise (Assertion m) else Sys (Stat p) (\<lambda>r. case r of
       R_stat (Some (File m' d)) \<Rightarrow> if d \<noteq> [] then Return () else Raise (Assertion m)
     | R_err e \<Rightarrow> Raise (filesystem_error p e)
     | _ \<Rightarrow> Raise (filesystem_error p ENOENT))) w1 = (Returned u, w')"
  then have "b" by (cases b) auto
  with r show ?thesis
    by (auto simp: exec.simps(4) nonempty_file_def split: fault.splits option.splits node.splits if_splits)
qed

lemma valid_output_ok:
  assumes "nonempty_file (tree w) p"
  shows "exec no_faults (valid_output p m) w = (Returned (), w\<lparr>tick := Suc (Suc (tick w))\<rparr>)"
proof -
  obtain md d where "lookup (tree w) p = Some (File md d)" "d \<noteq> []" using assms by (auto simp: nonempty_file_def)
  then show ?thesis by (cases w) (simp add: valid_output_def is_regular_file_def)
qed

section \<open>Searching a text\<close>

text \<open>
  The regular expressions of the pipelines: words separated by white space, without regard
  to case (the words contain no white space, so the greedy match is the only one).
\<close>

definition is_white :: "char \<Rightarrow> bool" where
  "is_white c \<longleftrightarrow> (of_char c :: nat) \<in> {32, 9, 10, 11, 12, 13}"

fun match_words :: "string list \<Rightarrow> string \<Rightarrow> bool" where
  "match_words [] s \<longleftrightarrow> True"
| "match_words [word] s \<longleftrightarrow> prefix word s"
| "match_words (word # ws) s \<longleftrightarrow>
     (let rest = drop (length word) s
      in prefix word s \<and> rest \<noteq> [] \<and> is_white (hd rest) \<and> match_words ws (dropWhile is_white rest))"

definition search_words :: "string list \<Rightarrow> string \<Rightarrow> bool" where
  "search_words ws s = (let t = map to_lower s in list_ex (\<lambda>i. match_words ws (drop i t)) [0..<Suc (length t)])"

text \<open>What the search finds.\<close>

fun spaced :: "string list \<Rightarrow> string \<Rightarrow> bool" where
  "spaced [] s \<longleftrightarrow> s = []"
| "spaced [word] s \<longleftrightarrow> s = word"
| "spaced (word # ws) s \<longleftrightarrow> (\<exists>gap r. s = word @ gap @ r \<and> gap \<noteq> [] \<and> list_all is_white gap \<and> spaced ws r)"

lemma dropWhile_spaced:
  assumes "list_all is_white gap" "spaced (word # ws) r" "word \<noteq> []" "\<not> is_white (hd word)"
  shows "dropWhile is_white (gap @ r @ t) = r @ t"
proof -
  from assms(2,3) obtain r' where "r = word @ r'" by (cases ws) auto
  with assms(1,3,4) show ?thesis
    by (cases word) (auto simp: dropWhile_append2 list_all_iff)
qed

lemma match_words_spaced:
  assumes "\<forall>word \<in> set ws. word \<noteq> [] \<and> \<not> is_white (hd word)"
  shows "match_words ws s \<longleftrightarrow> (\<exists>r t. s = r @ t \<and> spaced ws r)"
  using assms
proof (induction ws s rule: match_words.induct)
  case (2 word s)
  then show ?case by (auto simp: prefix_def)
next
  case (3 word w2 ws s)
  define rest where "rest = drop (length word) s"
  have IH: "match_words (w2 # ws) (dropWhile is_white rest) \<longleftrightarrow>
      (\<exists>r t. dropWhile is_white rest = r @ t \<and> spaced (w2 # ws) r)"
    using 3 by (simp add: rest_def)
  show ?case
  proof
    assume "match_words (word # w2 # ws) s"
    then have m: "prefix word s" "rest \<noteq> []" "is_white (hd rest)" "match_words (w2 # ws) (dropWhile is_white rest)"
      by (auto simp: rest_def Let_def)
    then obtain r t where rt: "dropWhile is_white rest = r @ t" "spaced (w2 # ws) r" using IH by blast
    have "s = word @ takeWhile is_white rest @ r @ t"
      using m(1) rt(1) by (metis append_eq_conv_conj prefix_def rest_def takeWhile_dropWhile_id)
    moreover have "takeWhile is_white rest \<noteq> []" using m(2,3) by (cases rest) auto
    moreover have "list_all is_white (takeWhile is_white rest)" by (auto simp: list_all_iff dest: set_takeWhileD)
    ultimately show "\<exists>r t. s = r @ t \<and> spaced (word # w2 # ws) r"
      using rt(2) by (intro exI[of _ "word @ takeWhile is_white rest @ r"] exI[of _ t]) auto
  next
    assume "\<exists>r t. s = r @ t \<and> spaced (word # w2 # ws) r"
    then obtain gap r t where s: "s = word @ gap @ r @ t" "gap \<noteq> []" "list_all is_white gap" "spaced (w2 # ws) r"
      by auto
    then have "rest = gap @ r @ t" by (simp add: rest_def)
    moreover from this have "dropWhile is_white rest = r @ t"
      using dropWhile_spaced[OF s(3,4)] 3(2) by simp
    ultimately show "match_words (word # w2 # ws) s"
      using s IH by (cases gap) (auto simp: rest_def Let_def)
  qed
qed simp

lemma search_words_iff:
  assumes "\<forall>word \<in> set ws. word \<noteq> [] \<and> \<not> is_white (hd word)"
  shows "search_words ws s \<longleftrightarrow> (\<exists>a r t. map to_lower s = a @ r @ t \<and> spaced ws r)"
proof
  assume "search_words ws s"
  then obtain i where "match_words ws (drop i (map to_lower s))"
    by (auto simp: search_words_def Let_def list_ex_iff simp del: upt_Suc)
  then obtain r t where "drop i (map to_lower s) = r @ t" "spaced ws r"
    using match_words_spaced[OF assms] by blast
  then show "\<exists>a r t. map to_lower s = a @ r @ t \<and> spaced ws r"
    by (metis append_take_drop_id)
next
  assume "\<exists>a r t. map to_lower s = a @ r @ t \<and> spaced ws r"
  then obtain a r t where s: "map to_lower s = a @ r @ t" "spaced ws r" by blast
  then have "match_words ws (drop (length a) (map to_lower s))"
    using match_words_spaced[OF assms, of "r @ t"] by auto
  moreover have "length a < Suc (length s)" using arg_cong[OF s(1), of length] by simp
  ultimately show "search_words ws s" by (auto simp: search_words_def Let_def list_ex_iff simp del: upt_Suc)
qed

end
