(* ===== verification/Cuda_Device.thy ===== *)
theory Cuda_Device
  imports Prelude
begin

text \<open>
  \<^verbatim>\<open>backend/cuda/device.hpp\<close>: the cached device properties, the clock rate and the
  architecture names. The CUDA runtime is a parameter: what each call returns, as a pair
  of the error code (0 is \<^verbatim>\<open>cudaSuccess\<close>) and the value it writes.
\<close>

record cuda_prop =
  multiProcessorCount :: int
  l2CacheSize :: int
  sharedMemPerBlockOptin :: "64 word"
  prop_major :: int
  prop_minor :: int

record cuda_runtime =
  cudaGetDevice :: "int \<times> int"
  cudaFree_null :: int
  cudaGetDeviceProperties :: "int \<Rightarrow> int \<times> cuda_prop"
  cudaDevAttrClockRate :: "int \<Rightarrow> int \<times> int"
  cudaGetErrorName :: "int \<Rightarrow> string"
  cudaGetErrorString :: "int \<Rightarrow> string"

record cuda_device =
  dev_prop :: cuda_prop
  clock_rate :: int
  initialized :: bool

definition new_cuda_device :: cuda_device where
  "new_cuda_device =
     \<lparr>dev_prop = \<lparr>multiProcessorCount = 0, l2CacheSize = 0, sharedMemPerBlockOptin = 0,
              prop_major = 0, prop_minor = 0\<rparr>,
      clock_rate = 0, initialized = False\<rparr>"

definition check_cuda_runtime :: "cuda_runtime \<Rightarrow> int \<Rightarrow> string \<Rightarrow> unit result" where
  "check_cuda_runtime rt error expression =
     (if error \<noteq> 0
      then Inl (Panic (expression @ '' failed with CUDA error '' @ show_int error @ '' ('' @
             cudaGetErrorName rt error @ ''): '' @ cudaGetErrorString rt error))
      else Inr ())"

text \<open>
  \<^verbatim>\<open>get_prop\<close>: the properties are written into the member before the third check, the
  flag is set only after it.
\<close>

definition get_prop :: "cuda_runtime \<Rightarrow> cuda_device \<Rightarrow> cuda_prop result \<times> cuda_device" where
  "get_prop rt d =
     (if initialized d then (Inr (dev_prop d), d)
      else let (e1, device_index) = cudaGetDevice rt
      in case check_cuda_runtime rt e1 ''cudaGetDevice(&device_index)'' of
           Inl e \<Rightarrow> (Inl e, d)
         | Inr _ \<Rightarrow>
      (case check_cuda_runtime rt (cudaFree_null rt) ''cudaFree(nullptr)'' of
           Inl e \<Rightarrow> (Inl e, d)
         | Inr _ \<Rightarrow>
      (let (e3, p) = cudaGetDeviceProperties rt device_index; d' = d\<lparr>dev_prop := p\<rparr>
       in case check_cuda_runtime rt e3 ''cudaGetDeviceProperties(&prop, device_index)'' of
            Inl e \<Rightarrow> (Inl e, d')
          | Inr _ \<Rightarrow> (Inr p, d'\<lparr>initialized := True\<rparr>))))"

definition with_prop ::
  "(cuda_prop \<Rightarrow> 'a) \<Rightarrow> cuda_runtime \<Rightarrow> cuda_device \<Rightarrow> 'a result \<times> cuda_device" where
  "with_prop f rt d = (case get_prop rt d of (r, d') \<Rightarrow> (bind_result r (\<lambda>p. Inr (f p)), d'))"

definition get_num_sms :: "cuda_runtime \<Rightarrow> cuda_device \<Rightarrow> int result \<times> cuda_device" where
  "get_num_sms = with_prop multiProcessorCount"

definition get_num_l2_cache_bytes :: "cuda_runtime \<Rightarrow> cuda_device \<Rightarrow> int result \<times> cuda_device" where
  "get_num_l2_cache_bytes = with_prop l2CacheSize"

text \<open>\<^verbatim>\<open>static_cast<int>\<close> of a \<^verbatim>\<open>size_t\<close>.\<close>

definition get_num_smem_bytes :: "cuda_runtime \<Rightarrow> cuda_device \<Rightarrow> int result \<times> cuda_device" where
  "get_num_smem_bytes = with_prop (\<lambda>p. sint (ucast (sharedMemPerBlockOptin p) :: 32 word))"

definition get_clock_rate :: "cuda_runtime \<Rightarrow> cuda_device \<Rightarrow> int result \<times> cuda_device" where
  "get_clock_rate rt d =
     (if clock_rate d \<noteq> 0 then (Inr (clock_rate d), d)
      else let (e1, device_index) = cudaGetDevice rt
      in case check_cuda_runtime rt e1 ''cudaGetDevice(&device_index)'' of
           Inl e \<Rightarrow> (Inl e, d)
         | Inr _ \<Rightarrow>
      (let (e2, rate) = cudaDevAttrClockRate rt device_index
       in case check_cuda_runtime rt e2
              ''cudaDeviceGetAttribute(&rate, cudaDevAttrClockRate, device_index)'' of
            Inl e \<Rightarrow> (Inl e, d)
          | Inr _ \<Rightarrow> (Inr (rate * 1000), d\<lparr>clock_rate := rate * 1000\<rparr>)))"

definition get_arch_pair :: "cuda_runtime \<Rightarrow> cuda_device \<Rightarrow> (int \<times> int) result \<times> cuda_device" where
  "get_arch_pair = with_prop (\<lambda>p. (prop_major p, prop_minor p))"

text \<open>The name of an architecture, from its major and minor version.\<close>

definition arch_name :: "int \<times> int \<Rightarrow> bool \<Rightarrow> bool \<Rightarrow> string" where
  "arch_name pair use_arch_family number_only =
     (case pair of (major, minor) \<Rightarrow>
        let arch = show_int (major * 10 + minor)
        in if number_only \<or> major < 9 then arch
           else if major > 9 then arch @ (if use_arch_family then ''f'' else ''a'')
           else arch @ ''a'')"

definition get_arch ::
  "cuda_runtime \<Rightarrow> cuda_device \<Rightarrow> bool \<Rightarrow> bool \<Rightarrow> string result \<times> cuda_device" where
  "get_arch rt d use_arch_family number_only =
     (case get_arch_pair rt d of
        (r, d') \<Rightarrow> (bind_result r (\<lambda>pair. Inr (arch_name pair use_arch_family number_only)), d'))"

section \<open>The cache of the properties\<close>

lemma check_cuda_runtime_Inr [simp]: "check_cuda_runtime rt e x = Inr u \<longleftrightarrow> e = 0"
  by (simp add: check_cuda_runtime_def)

lemma get_prop_memo:
  assumes "get_prop rt d = (Inr p, d')"
  shows "initialized d' \<and> get_prop rt' d' = (Inr p, d')"
proof (cases "initialized d")
  case True
  with assms show ?thesis by (auto simp: get_prop_def)
next
  case False
  with assms show ?thesis
    by (auto simp: get_prop_def Let_def split: prod.splits sum.splits)
qed

lemma get_prop_failed:
  assumes "get_prop rt d = (Inl e, d')"
  shows "\<not> initialized d' \<and> clock_rate d' = clock_rate d"
  using assms by (auto simp: get_prop_def Let_def split: prod.splits sum.splits if_splits)

lemma with_prop_memo:
  assumes "get_prop rt d = (Inr p, d')"
  shows "with_prop f rt d = (Inr (f p), d') \<and> with_prop f rt' d' = (Inr (f p), d')"
  using get_prop_memo [OF assms] by (simp add: with_prop_def assms)

lemma get_arch_value:
  assumes "get_prop rt d = (Inr p, d')"
  shows "get_arch rt d fam num = (Inr (arch_name (prop_major p, prop_minor p) fam num), d')"
  by (simp add: get_arch_def get_arch_pair_def with_prop_memo [OF assms])

section \<open>Properties\<close>

text \<open>The device properties are queried once: after a first success every later query
  gives the same values without a call of the CUDA runtime (any other runtime would give
  them too), while a failed query leaves the cache uninitialised, so that the next one asks
  again.\<close>

theorem device_properties_cached:
  "(get_prop rt d = (Inr p, d') \<longrightarrow>
      get_prop rt' d' = (Inr p, d') \<and> get_num_sms rt' d' = (Inr (multiProcessorCount p), d') \<and>
      get_arch rt' d' fam num = (Inr (arch_name (prop_major p, prop_minor p) fam num), d')) \<and>
   (get_prop rt d = (Inl e, d') \<longrightarrow> \<not> initialized d')"
proof (intro conjI impI)
  assume ok: "get_prop rt d = (Inr p, d')"
  note again = get_prop_memo[OF ok, THEN conjunct2, of rt']
  show "get_prop rt' d' = (Inr p, d')" by (rule again)
  show "get_num_sms rt' d' = (Inr (multiProcessorCount p), d')"
    unfolding get_num_sms_def using with_prop_memo[OF again] by blast
  show "get_arch rt' d' fam num = (Inr (arch_name (prop_major p, prop_minor p) fam num), d')"
    by (rule get_arch_value[OF again])
qed (use get_prop_failed in blast)

definition h100_runtime :: cuda_runtime where
  "h100_runtime =
     \<lparr>cudaGetDevice = (0, 0), cudaFree_null = 0,
      cudaGetDeviceProperties = (\<lambda>_. (0, \<lparr>multiProcessorCount = 132, l2CacheSize = 52428800,
        sharedMemPerBlockOptin = 232448, prop_major = 9, prop_minor = 0\<rparr>)),
      cudaDevAttrClockRate = (\<lambda>_. (0, 1980000)),
      cudaGetErrorName = (\<lambda>_. []), cudaGetErrorString = (\<lambda>_. [])\<rparr>"

definition no_runtime :: cuda_runtime where
  "no_runtime = h100_runtime\<lparr>cudaGetDevice := (100, 0)\<rparr>"

theorem device_properties_cached_witness:
  "fst (get_arch no_runtime (snd (get_prop h100_runtime new_cuda_device)) True False) = Inr ''90a''"
proof -
  have first: "get_prop h100_runtime new_cuda_device =
      (Inr (snd (cudaGetDeviceProperties h100_runtime 0)), snd (get_prop h100_runtime new_cuda_device))"
    by (simp add: get_prop_def new_cuda_device_def h100_runtime_def check_cuda_runtime_def)
  from device_properties_cached[THEN conjunct1, rule_format, OF first]
  have "get_arch no_runtime (snd (get_prop h100_runtime new_cuda_device)) True False =
      (Inr (arch_name (9, 0) True False), snd (get_prop h100_runtime new_cuda_device))"
    by (simp add: h100_runtime_def)
  moreover have "arch_name (9, 0) True False = ''90a''" by code_simp
  ultimately show ?thesis by simp
qed

end
