(* ===== verification/Cuda_Options.thy ===== *)
theory Cuda_Options
  imports Override Hash_FNV Env_Vars Config Cuda_Device
begin

text \<open>
  \<^verbatim>\<open>backend/cuda/options.hpp\<close>: the compiler and launch options of the CUDA backend, how
  defaults are overridden, the command-line flags they generate and what of them enters
  the cache key.
\<close>

section \<open>Compiler options\<close>

record compiler_options =
  optimize_level :: "string option"
  fast_math :: "bool option"
  ptxas_verbose :: "bool option"
  ptxas_register_usage_level :: "int option"
  check_no_spills :: "bool option"
  check_no_local_memory :: "bool option"
  with_line_info :: "bool option"
  dump_ptx :: "bool option"
  dump_sass :: "bool option"
  arch :: "string option"
  nvcc_flags :: "string list option"
  extra_nvcc_flags :: "string list"
  post_hook :: "string option"

definition unset_options :: compiler_options where
  "unset_options =
     \<lparr>optimize_level = None, fast_math = None, ptxas_verbose = None,
      ptxas_register_usage_level = None, check_no_spills = None, check_no_local_memory = None,
      with_line_info = None, dump_ptx = None, dump_sass = None, arch = None, nvcc_flags = None,
      extra_nvcc_flags = [], post_hook = None\<rparr>"

text \<open>
  \<^verbatim>\<open>default_options\<close>: the environment is read in the order of the source, the device is
  asked for its architecture after the dump flags.
\<close>

definition default_options ::
  "env \<Rightarrow> cuda_runtime \<Rightarrow> cuda_device \<Rightarrow> compiler_options result \<times> cuda_device" where
  "default_options env rt d =
     (case
        bind_result (env_bool env ''JIT_DEBUG'' False) (\<lambda>debug.
        bind_result (or_env debug env ''JIT_DUMP_ASM'') (\<lambda>dump_asm.
        bind_result (or_env debug env ''JIT_PTXAS_VERBOSE'') (\<lambda>verbose.
        bind_result (env_bool env ''JIT_CHECK_NO_SPILLS'' False) (\<lambda>no_spills.
        bind_result (env_bool env ''JIT_CHECK_NO_LOCAL_MEMORY'' False) (\<lambda>no_local.
        bind_result (or_env debug env ''JIT_WITH_LINEINFO'') (\<lambda>line_info.
        bind_result (or_env dump_asm env ''JIT_DUMP_PTX'') (\<lambda>ptx.
        bind_result (or_env dump_asm env ''JIT_DUMP_SASS'') (\<lambda>sass.
        Inr (verbose, no_spills, no_local, line_info, ptx, sass)))))))))
      of
        Inl e \<Rightarrow> (Inl e, d)
      | Inr (verbose, no_spills, no_local, line_info, ptx, sass) \<Rightarrow>
          (case get_arch rt d True False of
             (r, d') \<Rightarrow>
               (bind_result r (\<lambda>a.
                bind_result (env_int env ''JIT_CPP_STANDARD'' 20) (\<lambda>std.
                Inr \<lparr>optimize_level = Some ''3'', fast_math = Some False,
                     ptxas_verbose = Some verbose, ptxas_register_usage_level = Some 10,
                     check_no_spills = Some no_spills, check_no_local_memory = Some no_local,
                     with_line_info = Some line_info, dump_ptx = Some ptx, dump_sass = Some sass,
                     arch = Some a,
                     nvcc_flags = Some
                       [''-std=c++'' @ show_int std, ''--compiler-options=-fPIC'',
                        ''--compiler-options=-fconcepts'', ''--expt-relaxed-constexpr'',
                        ''--expt-extended-lambda''],
                     extra_nvcc_flags = [], post_hook = None\<rparr>)), d')))"

definition override_with :: "compiler_options \<Rightarrow> compiler_options \<Rightarrow> compiler_options" where
  "override_with base overrides =
     \<lparr>optimize_level = override_field (optimize_level base) (optimize_level overrides),
      fast_math = override_field (fast_math base) (fast_math overrides),
      ptxas_verbose = override_field (ptxas_verbose base) (ptxas_verbose overrides),
      ptxas_register_usage_level =
        override_field (ptxas_register_usage_level base) (ptxas_register_usage_level overrides),
      check_no_spills = override_field (check_no_spills base) (check_no_spills overrides),
      check_no_local_memory =
        override_field (check_no_local_memory base) (check_no_local_memory overrides),
      with_line_info = override_field (with_line_info base) (with_line_info overrides),
      dump_ptx = override_field (dump_ptx base) (dump_ptx overrides),
      dump_sass = override_field (dump_sass base) (dump_sass overrides),
      arch = override_field (arch base) (arch overrides),
      nvcc_flags = override_field (nvcc_flags base) (nvcc_flags overrides),
      extra_nvcc_flags = extra_nvcc_flags base @ extra_nvcc_flags overrides,
      post_hook = override_field (post_hook base) (post_hook overrides)\<rparr>"

interpretation cuda_compiler: override_contract override_with unset_options
  by unfold_locales (simp_all add: override_with_def unset_options_def)

definition flag_if :: "bool option \<Rightarrow> string \<Rightarrow> string list" where
  "flag_if v flag = (if value_or_false v then [flag] else [])"

definition has_text :: "string option \<Rightarrow> bool" where
  "has_text v \<longleftrightarrow> v \<noteq> None \<and> v \<noteq> Some []"

definition get_flags :: "compiler_options \<Rightarrow> string list result" where
  "get_flags opts =
     bind_result (dj_host_assert (has_text (arch opts)) ''CUDA architecture must be specified'') (\<lambda>_.
     bind_result (dj_host_assert (has_text (optimize_level opts)) ''optimization level must be specified'') (\<lambda>_.
     bind_result (dj_host_assert (ptxas_register_usage_level opts \<noteq> None)
        ''PTXAS register usage level must be specified'') (\<lambda>_.
     Inr ([''--gpu-architecture=sm_'' @ the (arch opts),
           ''-O'' @ the (optimize_level opts),
           ''--compiler-options=-O'' @ the (optimize_level opts)] @
          flag_if (fast_math opts) ''--use_fast_math'' @
          flag_if (ptxas_verbose opts) ''--ptxas-options=--verbose'' @
          [''--ptxas-options=--register-usage-level='' @ show_int (the (ptxas_register_usage_level opts))] @
          flag_if (check_no_spills opts) ''--ptxas-options=--warn-on-spills'' @
          flag_if (check_no_local_memory opts) ''--ptxas-options=--warn-on-local-memory-usage'' @
          flag_if (with_line_info opts) ''--generate-line-info'' @
          (case nvcc_flags opts of Some fs \<Rightarrow> fs | None \<Rightarrow> []) @
          extra_nvcc_flags opts))))"

definition update_hash :: "compiler_options \<Rightarrow> fnv1a \<Rightarrow> fnv1a result" where
  "update_hash opts hasher =
     bind_result (get_flags opts) (\<lambda>flags. Inr (update hasher (join flags '' '')))"

text \<open>
  \<^verbatim>\<open>get_post_hook_hash\<close> with its thread-local map from hook paths to digests;
  \<open>read_file\<close> is \<^verbatim>\<open>read\<close> of \<^verbatim>\<open>utils/filesystem.hpp\<close> on the file system of the moment.
\<close>

definition get_post_hook_hash ::
  "(path \<Rightarrow> string result) \<Rightarrow> config \<Rightarrow> compiler_options \<Rightarrow> (path \<rightharpoonup> string) \<Rightarrow>
   string result \<times> (path \<rightharpoonup> string)" where
  "get_post_hook_hash read_file cfg opts hashes =
     (case post_hook opts of
        None \<Rightarrow> (Inr [], hashes)
      | Some hook \<Rightarrow>
          let path = get_python_path cfg hook
          in case hashes path of
               Some digest \<Rightarrow> (Inr digest, hashes)
             | None \<Rightarrow>
                 (case read_file path of
                    Inl e \<Rightarrow> (Inl e, hashes)
                  | Inr text \<Rightarrow>
                      let digest = get_hex_digest (update (update fnv_new hook) text)
                      in (Inr digest, hashes(path \<mapsto> digest))))"

definition options_to_json :: "compiler_options \<Rightarrow> json" where
  "options_to_json opts = Object
     [(''optimize_level'', json_optional Str (optimize_level opts)),
      (''use_fast_math'', json_optional Bool (fast_math opts)),
      (''ptxas_verbose'', json_optional Bool (ptxas_verbose opts)),
      (''ptxas_register_usage_level'', json_optional json_of_int (ptxas_register_usage_level opts)),
      (''check_no_spills'', json_optional Bool (check_no_spills opts)),
      (''check_no_local_memory'', json_optional Bool (check_no_local_memory opts)),
      (''with_line_info'', json_optional Bool (with_line_info opts)),
      (''dump_ptx'', json_optional Bool (dump_ptx opts)),
      (''dump_sass'', json_optional Bool (dump_sass opts)),
      (''arch'', json_optional Str (arch opts)),
      (''nvcc_flags'', json_optional (json_vector Str) (nvcc_flags opts)),
      (''extra_nvcc_flags'', json_vector Str (extra_nvcc_flags opts)),
      (''post_hook'', json_optional Str (post_hook opts))]"

section \<open>Launch options\<close>

record dim3 =
  dim_x :: "32 word"
  dim_y :: "32 word"
  dim_z :: "32 word"

text \<open>A stream is an opaque handle; 0 is the null stream.\<close>

record launch_options =
  stream :: "64 word option"
  num_smem_bytes :: "int option"
  grid_dim :: "dim3 option"
  block_dim :: "dim3 option"
  cluster_dim :: "dim3 option"
  cooperative :: "bool option"
  enable_pdl :: "bool option"
  nonportable_cluster_size_allowed :: "bool option"

definition unset_launch_options :: launch_options where
  "unset_launch_options =
     \<lparr>stream = None, num_smem_bytes = None, grid_dim = None, block_dim = None, cluster_dim = None,
      cooperative = None, enable_pdl = None, nonportable_cluster_size_allowed = None\<rparr>"

definition default_launch_options :: launch_options where
  "default_launch_options =
     \<lparr>stream = None, num_smem_bytes = Some 0, grid_dim = None, block_dim = None,
      cluster_dim = Some \<lparr>dim_x = 1, dim_y = 1, dim_z = 1\<rparr>,
      cooperative = Some False, enable_pdl = Some False,
      nonportable_cluster_size_allowed = Some False\<rparr>"

definition launch_override_with :: "launch_options \<Rightarrow> launch_options \<Rightarrow> launch_options" where
  "launch_override_with base overrides =
     \<lparr>stream = override_field (stream base) (stream overrides),
      num_smem_bytes = override_field (num_smem_bytes base) (num_smem_bytes overrides),
      grid_dim = override_field (grid_dim base) (grid_dim overrides),
      block_dim = override_field (block_dim base) (block_dim overrides),
      cluster_dim = override_field (cluster_dim base) (cluster_dim overrides),
      cooperative = override_field (cooperative base) (cooperative overrides),
      enable_pdl = override_field (enable_pdl base) (enable_pdl overrides),
      nonportable_cluster_size_allowed =
        override_field (nonportable_cluster_size_allowed base)
          (nonportable_cluster_size_allowed overrides)\<rparr>"

interpretation cuda_launch: override_contract launch_override_with unset_launch_options
  by unfold_locales (simp_all add: launch_override_with_def unset_launch_options_def)

section \<open>What enters the cache key\<close>

lemma get_flags_Inr:
  "get_flags opts = Inr flags \<Longrightarrow>
   has_text (arch opts) \<and> has_text (optimize_level opts) \<and>
   ptxas_register_usage_level opts \<noteq> None \<and> flags \<noteq> []"
  by (auto simp: get_flags_def result_simps)

lemma get_flags_dumps:
  "get_flags (opts\<lparr>dump_ptx := a, dump_sass := b, post_hook := c\<rparr>) = get_flags opts"
  by (simp add: get_flags_def)

section \<open>Properties\<close>

text \<open>Overriding options is layering: any split of a sequence of overrides into layers
  gives the same compiler and launch options, so a library's defaults, a project's
  settings and a call's settings can be combined in any grouping, and unset layers change
  nothing.\<close>

theorem options_layering:
  "foldl override_with base (xs @ ys) =
     override_with (foldl override_with base xs) (foldl override_with unset_options ys) \<and>
   foldl override_with base (xs @ unset_options # ys) = foldl override_with base (xs @ ys) \<and>
   foldl launch_override_with lbase (ls @ ms) =
     launch_override_with (foldl launch_override_with lbase ls)
       (foldl launch_override_with unset_launch_options ms)"
  by (intro conjI cuda_compiler.layers_append cuda_compiler.unset_layer cuda_launch.layers_append)

text \<open>The flags are generated exactly when the architecture, the optimisation level and
  the register usage level are set; the failure is the assertion for the first one that is
  missing. Then the cache key depends on the flags alone: two options with the same flags
  hash alike, and the dump flags and the post hook do not enter it here.\<close>

theorem cuda_flags_and_hash:
  "((\<exists>flags. get_flags opts = Inr flags) \<longleftrightarrow>
      has_text (arch opts) \<and> has_text (optimize_level opts) \<and> ptxas_register_usage_level opts \<noteq> None) \<and>
   (\<forall>e. get_flags opts = Inl e \<longrightarrow> e = Assertion
      (if \<not> has_text (arch opts) then ''CUDA architecture must be specified''
       else if \<not> has_text (optimize_level opts) then ''optimization level must be specified''
       else ''PTXAS register usage level must be specified'')) \<and>
   update_hash (opts\<lparr>dump_ptx := a, dump_sass := b, post_hook := c\<rparr>) h = update_hash opts h \<and>
   (get_flags opts = get_flags opts' \<longrightarrow> update_hash opts h = update_hash opts' h)"
proof (intro conjI allI impI)
  show "update_hash (opts\<lparr>dump_ptx := a, dump_sass := b, post_hook := c\<rparr>) h = update_hash opts h"
    unfolding update_hash_def by (simp only: get_flags_dumps)
qed (auto simp: get_flags_def update_hash_def result_simps dj_host_assert_def split: if_splits)

theorem cuda_flags_and_hash_witness:
  "get_flags unset_options = Inl (Assertion ''CUDA architecture must be specified'')"
  using cuda_flags_and_hash[of unset_options None None None fnv_new unset_options]
  by (cases "get_flags unset_options") (auto simp: has_text_def unset_options_def)

end
