(* ===== verification/Cuda_Kernel.thy ===== *)
theory Cuda_Kernel
  imports Cuda_Options
begin

text \<open>
  \<^verbatim>\<open>backend/cuda/kernel.hpp\<close>: loading a CUBIN into a kernel handle, launching it and
  unloading it. The CUDA driver is a parameter, the return code and the written value of
  each entry point; the calls that the code makes, in order, are part of every result.
  Code 0 is \<^verbatim>\<open>CUDA_SUCCESS\<close>, handle 0 is the null handle.
\<close>

type_synonym handle = "64 word"

text \<open>\<^verbatim>\<open>kernel_arg_pointer\<close>: the pointer inside a \<^verbatim>\<open>NoRefPtr\<close>, or the address of any other argument.\<close>

datatype kernel_arg = No_ref_ptr handle | Object_at handle

fun kernel_arg_pointer :: "kernel_arg \<Rightarrow> handle" where
  "kernel_arg_pointer (No_ref_ptr p) = p"
| "kernel_arg_pointer (Object_at a) = a"

datatype launch_attribute =
    Attr_cooperative int
  | Attr_cluster_dimension dim3
  | Attr_programmatic_stream_serialization int

record launch_config =
  gridDim :: dim3
  blockDim :: dim3
  sharedMemBytes :: int
  hStream :: handle
  attrs :: "launch_attribute list option"
  numAttrs :: nat

datatype func_attribute = Max_dynamic_shared_size_bytes | Non_portable_cluster_size_allowed

datatype driver_call =
    LibraryLoadData string
  | LibraryGetKernelCount handle
  | LibraryEnumerateKernels handle
  | KernelGetFunction handle
  | LibraryUnload handle
  | FuncSetAttribute handle func_attribute int
  | LaunchKernelEx launch_config handle "handle list option"

record cuda_driver =
  cuLibraryLoadData :: "string \<Rightarrow> int \<times> handle"
  cuLibraryGetKernelCount :: "handle \<Rightarrow> int \<times> nat"
  cuLibraryEnumerateKernels :: "handle \<Rightarrow> int \<times> handle"
  cuKernelGetFunction :: "handle \<Rightarrow> int \<times> handle"
  cuLibraryUnload :: "handle \<Rightarrow> int"
  cuFuncSetAttribute :: "handle \<Rightarrow> func_attribute \<Rightarrow> int \<Rightarrow> int"
  cuLaunchKernelEx :: "launch_config \<Rightarrow> handle \<Rightarrow> handle list option \<Rightarrow> int"
  cuGetErrorName :: "int \<Rightarrow> string"
  cuGetErrorString :: "int \<Rightarrow> string"

definition check_cuda_driver :: "cuda_driver \<Rightarrow> int \<Rightarrow> string \<Rightarrow> unit result" where
  "check_cuda_driver drv error expression =
     (if error = 0 then Inr ()
      else Inl (Panic (expression @ '' failed with CUDA error '' @ show_int error @ '' ('' @
             cuGetErrorName drv error @ ''): '' @ cuGetErrorString drv error)))"

lemma check_cuda_driver_Inr [simp]: "check_cuda_driver drv e x = Inr u \<longleftrightarrow> e = 0"
  by (simp add: check_cuda_driver_def)

section \<open>Loading and unloading\<close>

record kernel =
  library_handle :: handle
  kernel_handle :: handle

text \<open>The body of the \<^verbatim>\<open>try\<close> block: find the only kernel of the library.\<close>

definition find_kernel ::
  "cuda_driver \<Rightarrow> path \<Rightarrow> handle \<Rightarrow> handle result \<times> driver_call list" where
  "find_kernel drv cubin_path lib =
     (let (e1, num_kernels) = cuLibraryGetKernelCount drv lib; l1 = [LibraryGetKernelCount lib]
      in case check_cuda_driver drv e1 ''driver::lazy_cuLibraryGetKernelCount(&num_kernels, library_handle)'' of
           Inl e \<Rightarrow> (Inl e, l1)
         | Inr _ \<Rightarrow>
      if num_kernels \<noteq> 1
      then (Inl (Panic (''expected exactly one kernel in '' @ cubin_path)), l1)
      else
      let (e2, kern) = cuLibraryEnumerateKernels drv lib; l2 = l1 @ [LibraryEnumerateKernels lib]
      in case check_cuda_driver drv e2
              ''driver::lazy_cuLibraryEnumerateKernels(&library_kernel_handle, 1, library_handle)'' of
           Inl e \<Rightarrow> (Inl e, l2)
         | Inr _ \<Rightarrow>
      let (e3, func) = cuKernelGetFunction drv kern; l3 = l2 @ [KernelGetFunction kern]
      in case check_cuda_driver drv e3
              ''driver::lazy_cuKernelGetFunction(&kernel_handle, library_kernel_handle)'' of
           Inl e \<Rightarrow> (Inl e, l3)
         | Inr _ \<Rightarrow> (Inr func, l3))"

text \<open>
  \<^verbatim>\<open>Kernel::load\<close>; \<open>read_cubin\<close> is the I/O task that checks for a regular file and reads
  it whole. The two environment reads come first, since they may throw.
\<close>

definition load_kernel ::
  "cuda_driver \<Rightarrow> (path \<Rightarrow> string result) \<Rightarrow> path \<Rightarrow> env \<Rightarrow> kernel result \<times> driver_call list" where
  "load_kernel drv read_cubin dir env =
     (let cubin_path = path_append dir ''kernel.cubin''
      in case bind_result (env_bool env ''JIT_DEBUG'' False) (\<lambda>debug. or_env debug env ''JIT_PRINT_LOAD_TIME'') of
           Inl e \<Rightarrow> (Inl e, [])
         | Inr _ \<Rightarrow>
      case read_cubin cubin_path of
           Inl e \<Rightarrow> (Inl e, [])
         | Inr data \<Rightarrow>
      let (e1, lib) = cuLibraryLoadData drv data; l1 = [LibraryLoadData data]
      in case check_cuda_driver drv e1
              ''driver::lazy_cuLibraryLoadData(&library_handle, data.data(), nullptr, nullptr, 0, nullptr, nullptr, 0)'' of
           Inl e \<Rightarrow> (Inl e, l1)
         | Inr _ \<Rightarrow>
      case find_kernel drv cubin_path lib of
           (Inl e, l2) \<Rightarrow> (Inl e, l1 @ l2 @ [LibraryUnload lib])
         | (Inr func, l2) \<Rightarrow> (Inr \<lparr>library_handle = lib, kernel_handle = func\<rparr>, l1 @ l2))"

text \<open>\<^verbatim>\<open>unload\<close>: an error of the driver is swallowed, the handles are cleared.\<close>

definition unload_kernel :: "kernel \<Rightarrow> kernel \<times> driver_call list" where
  "unload_kernel k =
     (if library_handle k = 0 then (k, [])
      else (\<lparr>library_handle = 0, kernel_handle = 0\<rparr>, [LibraryUnload (library_handle k)]))"

section \<open>Launching\<close>

text \<open>The assertions at the head of \<^verbatim>\<open>launch\<close>, in their order.\<close>

definition dim_positive :: "dim3 \<Rightarrow> bool" where
  "dim_positive d \<longleftrightarrow> dim_x d > 0 \<and> dim_y d > 0 \<and> dim_z d > 0"

definition check_launch :: "kernel \<Rightarrow> launch_options \<Rightarrow> unit result" where
  "check_launch k opts =
     bind_result (dj_host_assert (kernel_handle k \<noteq> 0) ''kernel must be loaded before launch'') (\<lambda>_.
     bind_result (dj_host_assert (num_smem_bytes opts \<noteq> None) ''CUDA dynamic shared-memory size must be specified'') (\<lambda>_.
     bind_result (dj_host_assert (grid_dim opts \<noteq> None) ''CUDA grid dimension must be specified'') (\<lambda>_.
     bind_result (dj_host_assert (block_dim opts \<noteq> None) ''CUDA block dimension must be specified'') (\<lambda>_.
     bind_result (dj_host_assert (cluster_dim opts \<noteq> None) ''CUDA cluster dimension must be specified'') (\<lambda>_.
     bind_result (dj_host_assert (cooperative opts \<noteq> None) ''CUDA cooperative option must be specified'') (\<lambda>_.
     bind_result (dj_host_assert (enable_pdl opts \<noteq> None) ''CUDA PDL option must be specified'') (\<lambda>_.
     bind_result (dj_host_assert (nonportable_cluster_size_allowed opts \<noteq> None)
        ''CUDA non-portable cluster option must be specified'') (\<lambda>_.
     bind_result (dj_host_assert (the (num_smem_bytes opts) \<ge> 0)
        ''CUDA dynamic shared-memory size must not be negative'') (\<lambda>_.
     bind_result (dj_host_assert (dim_positive (the (grid_dim opts))) ''CUDA grid dimensions must be positive'') (\<lambda>_.
     bind_result (dj_host_assert (dim_positive (the (block_dim opts))) ''CUDA block dimensions must be positive'') (\<lambda>_.
     bind_result (dj_host_assert (dim_x (the (cluster_dim opts)) > 0) ''CUDA cluster dimension must be positive'') (\<lambda>_.
     dj_host_assert (dim_y (the (cluster_dim opts)) = 1 \<and> dim_z (the (cluster_dim opts)) = 1)
        ''only one-dimensional CUDA clusters are supported''))))))))))))"

text \<open>The attribute array has three slots.\<close>

definition launch_attributes :: "launch_options \<Rightarrow> launch_attribute slots option" where
  "launch_attributes opts =
     (let cluster = the (cluster_dim opts)
      in push_if (the (enable_pdl opts)) (Attr_programmatic_stream_serialization 1)
          (push_if (dim_x cluster > 1)
             (Attr_cluster_dimension \<lparr>dim_x = dim_x cluster, dim_y = 1, dim_z = 1\<rparr>)
            (push_if (the (cooperative opts)) (Attr_cooperative 1)
              (Some (replicate 3 None, 0)))))"

definition set_attribute_if ::
  "cuda_driver \<Rightarrow> bool \<Rightarrow> handle \<Rightarrow> func_attribute \<Rightarrow> int \<Rightarrow> string \<Rightarrow> unit result \<times> driver_call list" where
  "set_attribute_if drv c k attr v expression =
     (if c then (check_cuda_driver drv (cuFuncSetAttribute drv k attr v) expression,
                 [FuncSetAttribute k attr v])
      else (Inr (), []))"

text \<open>\<open>None\<close> is undefined behaviour; \<open>current_stream\<close> is the current PyTorch stream.\<close>

definition launch ::
  "cuda_driver \<Rightarrow> handle result \<Rightarrow> kernel \<Rightarrow> launch_options \<Rightarrow> kernel_arg list \<Rightarrow>
   (unit result \<times> driver_call list) option" where
  "launch drv current_stream k opts args =
     (case check_launch k opts of
        Inl e \<Rightarrow> Some (Inl e, [])
      | Inr _ \<Rightarrow>
      let smem = the (num_smem_bytes opts)
      in case set_attribute_if drv (smem > 0) (kernel_handle k) Max_dynamic_shared_size_bytes smem
              ''driver::lazy_cuFuncSetAttribute(MAX_DYNAMIC_SHARED_SIZE_BYTES)'' of
        (Inl e, l1) \<Rightarrow> Some (Inl e, l1)
      | (Inr _, l1) \<Rightarrow>
      case set_attribute_if drv (the (nonportable_cluster_size_allowed opts)) (kernel_handle k)
              Non_portable_cluster_size_allowed 1
              ''driver::lazy_cuFuncSetAttribute(NON_PORTABLE_CLUSTER_SIZE_ALLOWED)'' of
        (Inl e, l2) \<Rightarrow> Some (Inl e, l1 @ l2)
      | (Inr _, l2) \<Rightarrow>
      case launch_attributes opts of
        None \<Rightarrow> None
      | Some (slots, num_attributes) \<Rightarrow>
      case (case stream opts of Some s \<Rightarrow> Inr s | None \<Rightarrow> current_stream) of
        Inl e \<Rightarrow> Some (Inl e, l1 @ l2)
      | Inr s \<Rightarrow>
      let config = \<lparr>gridDim = the (grid_dim opts), blockDim = the (block_dim opts),
                    sharedMemBytes = smem, hStream = s,
                    attrs = (if num_attributes = 0 then None
                             else Some (map the (take num_attributes slots))),
                    numAttrs = num_attributes\<rparr>;
          ptrs = (if args = [] then None else Some (map kernel_arg_pointer args @ [0]))
      in Some (check_cuda_driver drv (cuLaunchKernelEx drv config (kernel_handle k) ptrs)
                 ''driver::lazy_cuLaunchKernelEx(&config, kernel_handle, kernel_arg_ptrs, nullptr)'',
               l1 @ l2 @ [LaunchKernelEx config (kernel_handle k) ptrs]))"

section \<open>Lemmas\<close>

definition launchable :: "kernel \<Rightarrow> launch_options \<Rightarrow> bool" where
  "launchable k opts \<longleftrightarrow>
     kernel_handle k \<noteq> 0 \<and>
     (\<exists>smem grid block cluster coop pdl np.
        num_smem_bytes opts = Some smem \<and> grid_dim opts = Some grid \<and> block_dim opts = Some block \<and>
        cluster_dim opts = Some cluster \<and> cooperative opts = Some coop \<and> enable_pdl opts = Some pdl \<and>
        nonportable_cluster_size_allowed opts = Some np \<and>
        smem \<ge> 0 \<and> dim_positive grid \<and> dim_positive block \<and>
        dim_x cluster > 0 \<and> dim_y cluster = 1 \<and> dim_z cluster = 1)"

lemma check_launch_Inr: "check_launch k opts = Inr u \<longleftrightarrow> launchable k opts"
  by (auto simp: check_launch_def launchable_def bind_assert_Inr_iff)

text \<open>The attributes that the options ask for, in the order the code writes them.\<close>

definition wanted_attributes :: "launch_options \<Rightarrow> launch_attribute list" where
  "wanted_attributes opts =
     (let cluster = the (cluster_dim opts)
      in (if the (cooperative opts) then [Attr_cooperative 1] else []) @
         (if dim_x cluster > 1 then [Attr_cluster_dimension \<lparr>dim_x = dim_x cluster, dim_y = 1, dim_z = 1\<rparr>] else []) @
         (if the (enable_pdl opts) then [Attr_programmatic_stream_serialization 1] else []))"

lemma launch_attributes_wanted:
  "\<exists>slots n. launch_attributes opts = Some (slots, n) \<and> n = length (wanted_attributes opts) \<and> n \<le> 3 \<and>
     map the (take n slots) = wanted_attributes opts"
  by (simp add: launch_attributes_def wanted_attributes_def push_if_def Let_def numeral_3_eq_3)

lemma find_kernel_calls:
  "find_kernel drv path lib = (r, l) \<Longrightarrow> \<forall>c \<in> set l. \<forall>h. c \<noteq> LibraryUnload h"
  by (auto simp: find_kernel_def Let_def split: prod.splits sum.splits if_splits)

lemma set_attribute_if_cases:
  "set_attribute_if drv c k attr v x = (r, l) \<Longrightarrow>
     l = (if c then [FuncSetAttribute k attr v] else []) \<and>
     (r = Inr () \<longleftrightarrow> \<not> c \<or> cuFuncSetAttribute drv k attr v = 0)"
  by (auto simp: set_attribute_if_def check_cuda_driver_def split: if_splits)

lemma launch_defined: "launch drv cs k opts args \<noteq> None"
  using launch_attributes_wanted [of opts]
  by (auto simp: launch_def Let_def split: sum.splits prod.splits option.splits)

lemma launch_rejected:
  "\<not> launchable k opts \<Longrightarrow> \<exists>m. launch drv cs k opts args = Some (Inl (Assertion m), [])"
proof -
  assume "\<not> launchable k opts"
  then obtain e where e: "check_launch k opts = Inl e"
    using check_launch_Inr [of k opts] by (cases "check_launch k opts") auto
  then have "\<exists>m. e = Assertion m" by (auto simp: check_launch_def result_simps)
  with e show ?thesis by (auto simp: launch_def)
qed

text \<open>The configuration that a successful launch passes to the driver.\<close>

definition config_for :: "launch_options \<Rightarrow> handle \<Rightarrow> launch_config" where
  "config_for opts s =
     \<lparr>gridDim = the (grid_dim opts), blockDim = the (block_dim opts),
      sharedMemBytes = the (num_smem_bytes opts), hStream = s,
      attrs = (if wanted_attributes opts = [] then None else Some (wanted_attributes opts)),
      numAttrs = length (wanted_attributes opts)\<rparr>"

definition args_for :: "kernel_arg list \<Rightarrow> handle list option" where
  "args_for args = (if args = [] then None else Some (map kernel_arg_pointer args @ [0]))"

lemma launch_launched:
  assumes "launch drv cs k opts args = Some (Inr (), l)"
  shows "launchable k opts \<and>
    (\<exists>s. (case stream opts of Some s' \<Rightarrow> s = s' | None \<Rightarrow> cs = Inr s) \<and>
      l = (if the (num_smem_bytes opts) > 0
           then [FuncSetAttribute (kernel_handle k) Max_dynamic_shared_size_bytes (the (num_smem_bytes opts))]
           else []) @
          (if the (nonportable_cluster_size_allowed opts)
           then [FuncSetAttribute (kernel_handle k) Non_portable_cluster_size_allowed 1] else []) @
          [LaunchKernelEx (config_for opts s) (kernel_handle k) (args_for args)])"
proof -
  obtain slots n where sl: "launch_attributes opts = Some (slots, n)"
    and n: "n = length (wanted_attributes opts)" and m: "map the (take n slots) = wanted_attributes opts"
    using launch_attributes_wanted by blast
  define smem where "smem = the (num_smem_bytes opts)"
  have cfg: "\<lparr>gridDim = the (grid_dim opts), blockDim = the (block_dim opts), sharedMemBytes = smem,
      hStream = s, attrs = (if n = 0 then None else Some (map the (take n slots))), numAttrs = n\<rparr> =
      config_for opts s" for s
    using m by (simp add: config_for_def smem_def n)
  obtain r1 l1 where 1: "set_attribute_if drv (smem > 0) (kernel_handle k) Max_dynamic_shared_size_bytes smem
      ''driver::lazy_cuFuncSetAttribute(MAX_DYNAMIC_SHARED_SIZE_BYTES)'' = (r1, l1)" by fastforce
  obtain r2 l2 where 2: "set_attribute_if drv (the (nonportable_cluster_size_allowed opts)) (kernel_handle k)
      Non_portable_cluster_size_allowed 1
      ''driver::lazy_cuFuncSetAttribute(NON_PORTABLE_CLUSTER_SIZE_ALLOWED)'' = (r2, l2)" by fastforce
  note run = assms [unfolded launch_def Let_def smem_def [symmetric] 1 2 sl args_for_def [symmetric]]
  from run have chk: "check_launch k opts = Inr ()" and r: "r1 = Inr ()" "r2 = Inr ()"
    by (auto split: sum.splits)
  from run [unfolded chk r] obtain s where
    s: "(case stream opts of Some s' \<Rightarrow> Inr s' | None \<Rightarrow> cs) = Inr s"
    by (auto split: sum.splits)
  from run [unfolded chk r] have "l = l1 @ l2 @ [LaunchKernelEx (config_for opts s) (kernel_handle k) (args_for args)]"
    by (simp add: s cfg)
  with chk s set_attribute_if_cases [OF 1] set_attribute_if_cases [OF 2] show ?thesis
    by (auto simp: check_launch_Inr smem_def split: option.splits)
qed

section \<open>Libraries are neither leaked nor unloaded twice\<close>

fun loaded_by :: "cuda_driver \<Rightarrow> driver_call \<Rightarrow> handle option" where
  "loaded_by drv (LibraryLoadData data) =
     (if fst (cuLibraryLoadData drv data) = 0 then Some (snd (cuLibraryLoadData drv data)) else None)"
| "loaded_by drv _ = None"

fun unloaded_by :: "driver_call \<Rightarrow> handle option" where
  "unloaded_by (LibraryUnload lib) = Some lib"
| "unloaded_by _ = None"

definition libraries_loaded :: "cuda_driver \<Rightarrow> driver_call list \<Rightarrow> handle list" where
  "libraries_loaded drv l = List.map_filter (loaded_by drv) l"

definition libraries_unloaded :: "driver_call list \<Rightarrow> handle list" where
  "libraries_unloaded l = List.map_filter unloaded_by l"

lemma find_kernel_balance:
  assumes "find_kernel drv path lib = (r, l)"
  shows "libraries_loaded drv l = [] \<and> libraries_unloaded l = []"
  using assms
  by (auto simp: find_kernel_def libraries_loaded_def libraries_unloaded_def map_filter_def Let_def
      split: prod.splits sum.splits if_splits)

lemma libraries_append [simp]:
  "libraries_loaded drv (l @ m) = libraries_loaded drv l @ libraries_loaded drv m"
  "libraries_unloaded (l @ m) = libraries_unloaded l @ libraries_unloaded m"
  by (simp_all add: libraries_loaded_def libraries_unloaded_def map_filter_def)

lemma libraries_Cons [simp]:
  "libraries_loaded drv (c # l) = (case loaded_by drv c of None \<Rightarrow> [] | Some h \<Rightarrow> [h]) @ libraries_loaded drv l"
  "libraries_unloaded (c # l) = (case unloaded_by c of None \<Rightarrow> [] | Some h \<Rightarrow> [h]) @ libraries_unloaded l"
  "libraries_loaded drv [] = []" "libraries_unloaded [] = []"
  by (simp_all add: libraries_loaded_def libraries_unloaded_def map_filter_def split: option.splits)

section \<open>Properties\<close>

text \<open>C14: Every library that a load puts into the driver has exactly one owner: a load that
  succeeds returns it in the kernel and does not unload it, a load that fails after the
  driver took the binary unloads it before the error leaves the function, and a failure
  before that unloads nothing. Unloading the kernel releases it once: the second call does
  nothing.\<close>

theorem load_kernel_owns_library:
  "load_kernel drv read_cubin dir env = (r, l) \<Longrightarrow>
   libraries_loaded drv l = libraries_unloaded l @ (case r of Inr k \<Rightarrow> [library_handle k] | Inl _ \<Rightarrow> []) \<and>
   length (libraries_loaded drv l) \<le> 1 \<and>
   (\<forall>k. unload_kernel (fst (unload_kernel k)) = (fst (unload_kernel k), []) \<and>
        libraries_unloaded (snd (unload_kernel k)) = (if library_handle k = 0 then [] else [library_handle k]))"
  by (auto simp: load_kernel_def unload_kernel_def Let_def check_cuda_driver_def
      dest: find_kernel_balance split: prod.splits sum.splits if_splits)

definition two_kernel_driver :: cuda_driver where
  "two_kernel_driver =
     \<lparr>cuLibraryLoadData = (\<lambda>_. (0, 7)), cuLibraryGetKernelCount = (\<lambda>_. (0, 2)),
      cuLibraryEnumerateKernels = (\<lambda>_. (0, 8)), cuKernelGetFunction = (\<lambda>_. (0, 9)),
      cuLibraryUnload = (\<lambda>_. 0), cuFuncSetAttribute = (\<lambda>_ _ _. 0),
      cuLaunchKernelEx = (\<lambda>_ _ _. 0), cuGetErrorName = (\<lambda>_. []), cuGetErrorString = (\<lambda>_. [])\<rparr>"

theorem load_kernel_owns_library_witness:
  "libraries_unloaded (snd (load_kernel two_kernel_driver (\<lambda>_. Inr ''ELF'') ''/k''
     \<lparr>env_prefix = ''A'', environ = Map.empty\<rparr>)) = [7]"
proof -
  obtain r l where rl: "load_kernel two_kernel_driver (\<lambda>_. Inr ''ELF'') ''/k''
     \<lparr>env_prefix = ''A'', environ = Map.empty\<rparr> = (r, l)" by fastforce
  then have "libraries_loaded two_kernel_driver l = [7]" "\<exists>e. r = Inl e"
    by (auto simp: load_kernel_def find_kernel_def two_kernel_driver_def check_cuda_driver_def
        env_bool_def or_env_def env_get_or_cases Let_def bind_result_def)
  with load_kernel_owns_library[OF rl] rl show ?thesis by auto
qed

text \<open>C10: A launch never writes outside its array of three attributes; it is rejected with an
  assertion, without any call of the driver, exactly when the kernel is not loaded or an
  option is missing or out of range; and a launch that succeeds has made exactly these
  calls, in order: the shared-memory attribute if a positive size is asked for, the
  non-portable cluster attribute if it is allowed, then one launch with the grid, block,
  shared memory, attributes, stream and null-terminated argument pointers of the options.\<close>

theorem launch_exact:
  "launch drv cs k opts args \<noteq> None \<and>
   (\<not> launchable k opts \<longleftrightarrow> (\<exists>m. launch drv cs k opts args = Some (Inl (Assertion m), []) \<and>
      check_launch k opts = Inl (Assertion m))) \<and>
   (\<forall>l. launch drv cs k opts args = Some (Inr (), l) \<longrightarrow>
      (\<exists>s. (case stream opts of Some s' \<Rightarrow> s = s' | None \<Rightarrow> cs = Inr s) \<and>
        l = (if the (num_smem_bytes opts) > 0
             then [FuncSetAttribute (kernel_handle k) Max_dynamic_shared_size_bytes (the (num_smem_bytes opts))]
             else []) @
            (if the (nonportable_cluster_size_allowed opts)
             then [FuncSetAttribute (kernel_handle k) Non_portable_cluster_size_allowed 1] else []) @
            [LaunchKernelEx (config_for opts s) (kernel_handle k) (args_for args)]))"
proof (intro conjI)
  show "\<not> launchable k opts \<longleftrightarrow> (\<exists>m. launch drv cs k opts args = Some (Inl (Assertion m), []) \<and>
      check_launch k opts = Inl (Assertion m))"
  proof
    assume "\<not> launchable k opts"
    then obtain m where m: "launch drv cs k opts args = Some (Inl (Assertion m), [])"
      using launch_rejected by blast
    obtain e where "check_launch k opts = Inl e"
      using \<open>\<not> launchable k opts\<close> check_launch_Inr[of k opts] by (cases "check_launch k opts") auto
    with m show "\<exists>m. launch drv cs k opts args = Some (Inl (Assertion m), []) \<and>
      check_launch k opts = Inl (Assertion m)" by (simp add: launch_def)
  next
    assume "\<exists>m. launch drv cs k opts args = Some (Inl (Assertion m), []) \<and>
      check_launch k opts = Inl (Assertion m)"
    then show "\<not> launchable k opts" using check_launch_Inr[of k opts] by auto
  qed
qed (use launch_defined launch_launched in blast)+

definition demo_launch :: launch_options where
  "demo_launch =
     \<lparr>stream = Some 5, num_smem_bytes = Some 1024, grid_dim = Some \<lparr>dim_x = 4, dim_y = 1, dim_z = 1\<rparr>,
      block_dim = Some \<lparr>dim_x = 32, dim_y = 1, dim_z = 1\<rparr>,
      cluster_dim = Some \<lparr>dim_x = 2, dim_y = 1, dim_z = 1\<rparr>, cooperative = Some False,
      enable_pdl = Some True, nonportable_cluster_size_allowed = Some False\<rparr>"

theorem launch_exact_witness:
  "launchable \<lparr>library_handle = 7, kernel_handle = 9\<rparr> demo_launch \<and>
   \<not> launchable \<lparr>library_handle = 7, kernel_handle = 9\<rparr> (demo_launch\<lparr>grid_dim := None\<rparr>)"
proof -
  have ok: "check_launch \<lparr>library_handle = 7, kernel_handle = 9\<rparr> demo_launch = Inr ()"
    and bad: "\<exists>m. check_launch \<lparr>library_handle = 7, kernel_handle = 9\<rparr> (demo_launch\<lparr>grid_dim := None\<rparr>) = Inl (Assertion m)"
    by (simp_all add: check_launch_def demo_launch_def dim_positive_def)
  from bad obtain m where m: "check_launch \<lparr>library_handle = 7, kernel_handle = 9\<rparr> (demo_launch\<lparr>grid_dim := None\<rparr>) =
      Inl (Assertion m)" by blast
  then have "launch two_kernel_driver (Inr 0) \<lparr>library_handle = 7, kernel_handle = 9\<rparr>
      (demo_launch\<lparr>grid_dim := None\<rparr>) [] = Some (Inl (Assertion m), [])" by (simp add: launch_def)
  with m ok launch_exact[of two_kernel_driver "Inr 0" "\<lparr>library_handle = 7, kernel_handle = 9\<rparr>" "demo_launch\<lparr>grid_dim := None\<rparr>" "[]"]
    launch_exact[of two_kernel_driver "Inr 0" "\<lparr>library_handle = 7, kernel_handle = 9\<rparr>" demo_launch "[]"]
  show ?thesis by auto
qed

end
