(* ===== verification/Cuda_Backend.thy ===== *)
theory Cuda_Backend
  imports Build_Tasks Cuda_Kernel
begin

text \<open>
  \<^verbatim>\<open>backend/cuda/backend.hpp\<close>: the discovery of the toolkit, the version of the compiler, the
  compilation pipeline, and the backend as an instance of the runtime. Output on the
  terminal is left out; the shell is a parameter.
\<close>

section \<open>The compiler\<close>

record compiler_info =
  info_path :: path
  info_version :: string

definition get_hash :: "compiler_info \<Rightarrow> string" where
  "get_hash info = hex_digest_of (info_version info)"

definition info_to_json :: "compiler_info \<Rightarrow> json" where
  "info_to_json info = Object [(''path'', Str (info_path info)), (''version'', Str (info_version info))]"

record toolkit =
  nvcc :: path
  cuobjdump :: "path option"

record cuda =
  cuda_toolkit :: toolkit
  cuda_info :: compiler_info

text \<open>The leftmost match of \<^verbatim>\<open>release (\d+)\.(\d+)\<close>, as its two groups.\<close>

definition version_here :: "string \<Rightarrow> (string \<times> string) option" where
  "version_here s =
     (if \<not> prefix ''release '' s then None
      else let rest = drop 8 s; major = takeWhile is_digit rest; rest2 = dropWhile is_digit rest
      in if major = [] \<or> \<not> prefix ''.'' rest2 then None
      else let minor = takeWhile is_digit (drop 1 rest2)
      in if minor = [] then None else Some (major, minor))"

fun find_version :: "string \<Rightarrow> (string \<times> string) option" where
  "find_version [] = version_here []"
| "find_version (c # s) = (case version_here (c # s) of Some v \<Rightarrow> Some v | None \<Rightarrow> find_version s)"

definition stoi :: "string \<Rightarrow> int result" where
  "stoi digits = (if read_nat digits < 2 ^ 31 then Inr (int (read_nat digits)) else Inl (Std_exception ''stoi''))"

definition check_version :: "string \<Rightarrow> unit result" where
  "check_version version =
     bind_result (case find_version version of
         None \<Rightarrow> Inl (Assertion (''failed to parse NVCC version from:'' @ [CHR 0x0A] @ version))
       | Some v \<Rightarrow> Inr v) (\<lambda>(a, b).
     bind_result (stoi a) (\<lambda>major.
     bind_result (stoi b) (\<lambda>minor.
     dj_host_assert (major > 12 \<or> (major = 12 \<and> minor \<ge> 9)) ''NVCC version must be at least 12.9'')))"

definition get_compiler_info :: "shell \<Rightarrow> toolkit \<Rightarrow> compiler_info comp" where
  "get_compiler_info sh tk =
     bind_io (run_command sh (nvcc tk @ '' --version'')) (\<lambda>version.
     bind_io (give (check_version version)) (\<lambda>_.
     give (Inr \<lparr>info_path = nvcc tk, info_version = version\<rparr>)))"

section \<open>Discovery\<close>

definition is_line_end :: "char \<Rightarrow> bool" where
  "is_line_end c \<longleftrightarrow> (of_char c :: nat) \<in> {10, 13}"

definition strip_line_end :: "string \<Rightarrow> string" where
  "strip_line_end s = rev (dropWhile is_line_end (rev s))"

text \<open>\<^verbatim>\<open>which nvcc\<close>: every exception is swallowed.\<close>

definition which_nvcc :: "shell \<Rightarrow> path comp" where
  "which_nvcc sh w =
     (case sh ''which nvcc'' w of
        (Inl _, w') \<Rightarrow> Some (Inr [], w')
      | (Inr out, w') \<Rightarrow>
          let p = strip_line_end out
          in Some (Inr (if p \<noteq> [] then parent_path (parent_path p) else []), w'))"

definition find_cuda_home :: "shell \<Rightarrow> faults \<Rightarrow> path \<Rightarrow> environ \<Rightarrow> path comp" where
  "find_cuda_home sh F cwd e =
     bind_io (give (get_env_string e ''CUDA_HOME'')) (\<lambda>home.
     bind_io (if home = [] then give (get_env_string e ''CUDA_PATH'') else give (Inr home)) (\<lambda>home.
     bind_io (if home = [] then which_nvcc sh else give (Inr home)) (\<lambda>home.
     bind_io (if home = []
              then bind_io (here F (exists_file (resolve cwd ''/usr/local/cuda''))) (\<lambda>there.
                     give (Inr (if there then ''/usr/local/cuda'' else [])))
              else give (Inr home)) (\<lambda>home.
     bind_io (if home = [] then give (Inr False) else here F (exists_file (resolve cwd home))) (\<lambda>there.
     bind_io (give (dj_host_assert there ''not home_path.empty() and std::filesystem::exists(home_path)'')) (\<lambda>_.
     give (Inr (lexically_normal (absolute_path cwd home)))))))))"

definition find_cuda_toolkit :: "shell \<Rightarrow> faults \<Rightarrow> path \<Rightarrow> env \<Rightarrow> toolkit comp" where
  "find_cuda_toolkit sh F cwd env =
     bind_io (find_cuda_home sh F cwd (environ env)) (\<lambda>home.
     bind_io (give (env_string env ''JIT_NVCC_COMPILER'')) (\<lambda>compiler.
     let nvcc_path = (case compiler of
            Some p \<Rightarrow> if p \<noteq> [] then lexically_normal (absolute_path cwd p) else path_append home ''bin/nvcc''
          | None \<Rightarrow> path_append home ''bin/nvcc'')
     in
     bind_io (here F (is_executable (resolve cwd nvcc_path))) (\<lambda>ok.
     bind_io (give (dj_host_assert ok (''NVCC compiler is not executable: '' @ nvcc_path))) (\<lambda>_.
     let cuobjdump_path = path_append home ''bin/cuobjdump''
     in
     bind_io (here F (is_executable (resolve cwd cuobjdump_path))) (\<lambda>ok.
     give (Inr \<lparr>nvcc = nvcc_path, cuobjdump = (if ok then Some cuobjdump_path else None)\<rparr>))))))"

definition make_cuda :: "shell \<Rightarrow> faults \<Rightarrow> path \<Rightarrow> env \<Rightarrow> cuda comp" where
  "make_cuda sh F cwd env =
     bind_io (find_cuda_toolkit sh F cwd env) (\<lambda>tk.
     bind_io (get_compiler_info sh tk) (\<lambda>info.
     give (Inr \<lparr>cuda_toolkit = tk, cuda_info = info\<rparr>)))"

section \<open>The pipeline\<close>

text \<open>The arguments of the compiler; \<open>kind\<close> and \<open>out\<close> are replaced for the PTX dump.\<close>

definition nvcc_args :: "cuda \<Rightarrow> config \<Rightarrow> fpath \<Rightarrow> string list \<Rightarrow> string \<Rightarrow> string \<Rightarrow> string list" where
  "nvcc_args c cfg dir flags kind out =
     [nvcc (cuda_toolkit c), path_in dir ''kernel.cu'', kind, ''--output-file'', path_in dir out] @ flags @
     concat (map (\<lambda>d. [''--include-path'', d]) (include_dirs cfg))"

definition compiler_checks :: "compiler_options \<Rightarrow> string \<Rightarrow> unit result" where
  "compiler_checks opts out =
     bind_result (dj_host_assert (\<not> value_or_false (check_no_spills opts) \<or>
                    \<not> search_words [''spilled'', ''to'', ''local'', ''memory''] out)
                    (''PTXAS reported register spills:'' @ [CHR 0x0A] @ out)) (\<lambda>_.
     dj_host_assert (\<not> value_or_false (check_no_local_memory opts) \<or>
                    \<not> search_words [''local'', ''memory'', ''used''] out)
                    (''PTXAS reported local memory usage:'' @ [CHR 0x0A] @ out))"

text \<open>The task that checks the outputs and writes the metadata.\<close>

definition finish_cuda_build :: "fpath \<Rightarrow> bool \<Rightarrow> string \<Rightarrow> string \<Rightarrow> unit prog" where
  "finish_cuda_build dir ptx sass data =
     bind_prog (valid_output (dir @ [''kernel.cubin''])
                  (''NVCC did not produce a valid CUBIN: '' @ path_in dir ''kernel.cubin'')) (\<lambda>_.
     bind_prog (if ptx then valid_output (dir @ [''kernel.ptx''])
                  (''NVCC did not produce a valid PTX: '' @ path_in dir ''kernel.ptx'') else Return ()) (\<lambda>_.
     bind_prog (if sass \<noteq> [] then write_file_sync (dir @ [''kernel.sass'']) sass False else Return ()) (\<lambda>_.
     write_file_sync (dir @ [''meta.json'']) data False)))"

definition cuda_metadata :: "cuda \<Rightarrow> config \<Rightarrow> compiler_options \<Rightarrow> string \<Rightarrow> json" where
  "cuda_metadata c cfg opts cmd = Object
     [(''command'', Str cmd), (''config'', config_to_json cfg),
      (''compiler_info'', info_to_json (cuda_info c)), (''compiler_options'', options_to_json opts)]"

definition cuda_compile ::
  "shell \<Rightarrow> faults \<Rightarrow> cuda \<Rightarrow> env \<Rightarrow> config \<Rightarrow> compiler_options \<Rightarrow> string \<Rightarrow> fpath \<Rightarrow> unit comp" where
  "cuda_compile sh F c env cfg opts source dir =
     bind_io (give (bind_result (env_bool env ''JIT_DEBUG'' False) (\<lambda>debug.
                    or_env debug env ''JIT_PRINT_COMPILER_COMMAND''))) (\<lambda>_.
     bind_io (on_iothread (environ env) F (write_file_sync (dir @ [''kernel.cu'']) source False)) (\<lambda>_.
     bind_io (give (get_flags opts)) (\<lambda>flags.
     let cmd = join (nvcc_args c cfg dir flags ''--cubin'' ''kernel.cubin'') '' ''
     in
     bind_io (run_command sh (in_dir dir cmd)) (\<lambda>out.
     bind_io (give (compiler_checks opts out)) (\<lambda>_.
     bind_io (case post_hook opts of
         None \<Rightarrow> give (Inr [])
       | Some hook \<Rightarrow> run_command sh (in_dir dir (''python '' @ get_python_path cfg hook @ '' '' @
                                       path_in dir ''kernel.cubin''))) (\<lambda>_.
     bind_io (if value_or_false (dump_ptx opts)
         then run_command sh (in_dir dir (join (nvcc_args c cfg dir flags ''--ptx'' ''kernel.ptx'') '' ''))
         else give (Inr [])) (\<lambda>_.
     bind_io (if value_or_false (dump_sass opts)
         then (case cuobjdump (cuda_toolkit c) of
                 None \<Rightarrow> give (Inl (Assertion ''toolkit.cuobjdump.has_value()''))
               | Some tool \<Rightarrow>
                   bind_io (run_command sh (in_dir dir (tool @ '' --dump-sass '' @ path_in dir ''kernel.cubin''))) (\<lambda>sass.
                   bind_io (give (dj_host_assert (sass \<noteq> [])
                      (''cuobjdump did not produce valid SASS for '' @ path_in dir ''kernel.cubin''))) (\<lambda>_.
                   give (Inr sass))))
         else give (Inr [])) (\<lambda>sass.
     on_iothread (environ env) F
       (finish_cuda_build dir (value_or_false (dump_ptx opts)) sass (dump (cuda_metadata c cfg opts cmd)))))))))))"

section \<open>The backend of the runtime\<close>

text \<open>What the CUDA backend gets from outside: driver, runtime, shell, file system and stream.\<close>

record cuda_context =
  cx_driver :: cuda_driver
  cx_runtime :: cuda_runtime
  cx_shell :: shell
  cx_faults :: faults
  cx_cwd :: path
  cx_read :: "path \<Rightarrow> string result"
  cx_stream :: "handle result"

text \<open>What its operations change: the digests of the hooks and the calls of the driver.\<close>

record cuda_state =
  hook_digests :: "path \<rightharpoonup> string"
  driver_calls :: "driver_call list"

definition read_cubin_task :: "fpath \<Rightarrow> string prog" where
  "read_cubin_task p = bind_prog (is_regular_file p) (\<lambda>regular.
     if \<not> regular then Raise (Assertion (''missing CUDA CUBIN: '' @ show_path p)) else read_bytes p)"

definition cuda_load :: "cuda_context \<Rightarrow> env \<Rightarrow> (kernel, cuda_state) loader" where
  "cuda_load cx env dir dc s w =
     (case bind_io (give (bind_result (env_bool env ''JIT_DEBUG'' False) (\<lambda>debug. or_env debug env ''JIT_PRINT_LOAD_TIME'')))
            (\<lambda>_. on_iothread (environ env) (cx_faults cx) (read_cubin_task (dir @ [''kernel.cubin'']))) w of
        None \<Rightarrow> None
      | Some (data, w1) \<Rightarrow>
          (case load_kernel (cx_driver cx) (\<lambda>_. data) (show_path dir) env of
             (r, calls) \<Rightarrow> Some (r, dc, s\<lparr>driver_calls := driver_calls s @ calls\<rparr>, w1)))"

definition cuda_backend ::
  "cuda_context \<Rightarrow>
   (compiler_options, launch_options, cuda, cuda_state, kernel, kernel_arg list, (unit result \<times> driver_call list) option) backend" where
  "cuda_backend cx =
     \<lparr>make_options = (\<lambda>env. fst (default_options env (cx_runtime cx) new_cuda_device)),
      make_launch_options = (\<lambda>_. Inr default_launch_options),
      make_backend = make_cuda (cx_shell cx) (cx_faults cx) (cx_cwd cx),
      compiler_hash = (\<lambda>c. get_hash (cuda_info c)),
      merge_options = override_with,
      merge_launch_options = launch_override_with,
      hash_options = update_hash,
      hook_hash = (\<lambda>cfg opts s. case get_post_hook_hash (cx_read cx) cfg opts (hook_digests s) of
        (r, m) \<Rightarrow> (r, s\<lparr>hook_digests := m\<rparr>)),
      compile_source = (\<lambda>c env cfg opts source. cuda_compile (cx_shell cx) (cx_faults cx) c env cfg opts source),
      load_dir = (\<lambda>_ env. cuda_load cx env),
      launch_kernel = (\<lambda>k opts args. launch (cx_driver cx) (cx_stream cx) k opts args)\<rparr>"

text \<open>The parts of a key that the options give: the flags, joined.\<close>

definition cuda_parts :: "compiler_options \<Rightarrow> string list result" where
  "cuda_parts opts = bind_result (get_flags opts) (\<lambda>flags. Inr [join flags '' ''])"

interpretation cuda_key: keyed_options update_hash cuda_parts
  by unfold_locales (simp add: update_hash_def cuda_parts_def bind_result_def split: sum.split)

section \<open>Lemmas\<close>

lemma nonempty_exists: "nonempty_file fs p \<Longrightarrow> lookup fs p \<noteq> None"
  by (auto simp: nonempty_file_def)

lemma finish_cuda_build_outputs:
  assumes "exec F (finish_cuda_build dir ptx sass data) w = (Returned u, w')"
  shows "nonempty_file (tree w') (dir @ [''kernel.cubin'']) \<and>
    (ptx \<longrightarrow> nonempty_file (tree w') (dir @ [''kernel.ptx''])) \<and> lookup (tree w') (dir @ [''meta.json'']) \<noteq> None"
proof -
  let ?cubin = "dir @ [''kernel.cubin'']" and ?ptx = "dir @ [''kernel.ptx'']"
  let ?sass = "if sass \<noteq> [] then write_file_sync (dir @ [''kernel.sass'']) sass False else Return ()"
  let ?check = "if ptx then valid_output ?ptx (''NVCC did not produce a valid PTX: '' @ path_in dir ''kernel.ptx'')
      else Return ()"
  from assms obtain w1 w2 w3 where run:
    "exec F (valid_output ?cubin (''NVCC did not produce a valid CUBIN: '' @ path_in dir ''kernel.cubin'')) w = (Returned (), w1)"
    "exec F ?check w1 = (Returned (), w2)" "exec F ?sass w2 = (Returned (), w3)"
    "exec F (write_file_sync (dir @ [''meta.json'']) data False) w3 = (Returned (), w')"
    unfolding finish_cuda_build_def by (auto elim!: exec_bind_Returned)
  have spare: "only (spares q) ?sass" "only (spares q) (write_file_sync (dir @ [''meta.json'']) data False)"
    if "q = ?cubin \<or> q = ?ptx" for q
    using that by (auto intro: spares_write)
  have rest: "nonempty_file (tree w') q" if "nonempty_file (tree w2) q" "q = ?cubin \<or> q = ?ptx" for q
    using exec_spares[OF spare(2)[OF that(2)] run(4)] exec_spares[OF spare(1)[OF that(2)] run(3) _ that(1)] that(2) by auto
  have "nonempty_file (tree w1) ?cubin" by (rule valid_output_nonempty[OF run(1)])
  moreover have "only (spares ?cubin) ?check" by (simp add: spares_valid_output)
  ultimately have "nonempty_file (tree w2) ?cubin" using exec_spares[OF _ run(2)] by blast
  moreover have "nonempty_file (tree w2) ?ptx" if ptx
    using run(2) that valid_output_nonempty by simp
  ultimately show ?thesis using rest written_file_exists[OF run(4)] by simp
qed

section \<open>Properties\<close>

text \<open>C35: A CUDA build that reports success is complete: its directory holds a CUBIN that is
  not empty and the metadata, and a PTX file when one was asked for, and the output of the
  compiler was checked for the spills and the local memory that the options forbid.\<close>

theorem cuda_build_complete:
  assumes "cuda_compile sh F c env cfg opts source dir w = Some (Inr u, w')"
  shows "nonempty_file (tree w') (dir @ [''kernel.cubin'']) \<and> lookup (tree w') (dir @ [''meta.json'']) \<noteq> None \<and>
    (dump_ptx opts = Some True \<longrightarrow> nonempty_file (tree w') (dir @ [''kernel.ptx''])) \<and>
    (\<exists>flags w1 out w2. get_flags opts = Inr flags \<and>
       sh (in_dir dir (join (nvcc_args c cfg dir flags ''--cubin'' ''kernel.cubin'') '' '')) w1 = (Inr out, w2) \<and>
       (check_no_spills opts = Some True \<longrightarrow> \<not> search_words [''spilled'', ''to'', ''local'', ''memory''] out) \<and>
       (check_no_local_memory opts = Some True \<longrightarrow> \<not> search_words [''local'', ''memory'', ''used''] out))"
proof -
  from assms obtain w1 w2 w3 flags out sass data where run:
    "get_flags opts = Inr flags"
    "sh (in_dir dir (join (nvcc_args c cfg dir flags ''--cubin'' ''kernel.cubin'') '' '')) w1 = (Inr out, w2)"
    "compiler_checks opts out = Inr ()"
    "exec F (finish_cuda_build dir (value_or_false (dump_ptx opts)) sass data) w3 = (Returned u, w')"
    unfolding cuda_compile_def Let_def
    by (elim bind_io_Inr) (auto simp: run_command_Inr dest!: on_iothread_exec)
  moreover from run(3) have "(check_no_spills opts = Some True \<longrightarrow> \<not> search_words [''spilled'', ''to'', ''local'', ''memory''] out) \<and>
       (check_no_local_memory opts = Some True \<longrightarrow> \<not> search_words [''local'', ''memory'', ''used''] out)"
    by (auto simp: compiler_checks_def result_simps value_or_false_def)
  ultimately show ?thesis
    using finish_cuda_build_outputs[OF run(4)] by (auto simp: value_or_false_def)
qed

text \<open>A build of an empty source with a compiler that writes one byte.\<close>

definition demo_dir :: fpath where
  "demo_dir = [''t'']"

definition demo_shell :: shell where
  "demo_shell cmd w = (Inr ''ptxas info'', w\<lparr>tree := AList.update (demo_dir @ [''kernel.cubin'']) (File 0x1A4 ''x'') (tree w)\<rparr>)"

definition demo_cuda :: cuda where
  "demo_cuda = \<lparr>cuda_toolkit = \<lparr>nvcc = ''/n'', cuobjdump = None\<rparr>, cuda_info = \<lparr>info_path = ''/n'', info_version = ''release 12.9''\<rparr>\<rparr>"

definition demo_options :: compiler_options where
  "demo_options = unset_options\<lparr>optimize_level := Some ''3'', arch := Some ''90a'', ptxas_register_usage_level := Some 5,
     check_no_spills := Some True\<rparr>"

definition demo_config :: config where
  "demo_config = \<lparr>python_library_root = ''/x'', cfg_env_prefix = ''A'', extra_signature = ''s'', include_dirs = [], include_prefixes = []\<rparr>"

definition demo_env :: env where
  "demo_env = \<lparr>env_prefix = ''A'', environ = slow_env\<rparr>"

definition demo_cuda_world :: world where
  "demo_cuda_world = \<lparr>tree = [(demo_dir, Dir 0x1ED)], tick = 0\<rparr>"

lemma demo_cuda_compile:
  "\<exists>w'. cuda_compile demo_shell no_faults demo_cuda demo_env demo_config demo_options [] demo_dir demo_cuda_world =
     Some (Inr (), w')"
proof -
  let ?cubin = "demo_dir @ [''kernel.cubin'']"
  have dir: "is_dir_at (tree demo_cuda_world) demo_dir" "lookup (tree demo_cuda_world) (demo_dir @ [x]) = None" for x
    by (simp_all add: is_dir_at_def lookup_def demo_cuda_world_def demo_dir_def)
  obtain w1 where w1: "exec no_faults (write_file_sync (demo_dir @ [''kernel.cu'']) [] False) demo_cuda_world = (Returned (), w1)"
      "\<forall>q. q \<noteq> demo_dir @ [''kernel.cu''] \<longrightarrow> lookup (tree w1) q = lookup (tree demo_cuda_world) q"
    using write_file_sync_ok[of demo_cuda_world "demo_dir @ [''kernel.cu'']" "[]"] dir by (auto simp: is_dir_at_def)
  define w2 where "w2 = w1\<lparr>tree := AList.update ?cubin (File 0x1A4 ''x'') (tree w1)\<rparr>"
  have w2: "nonempty_file (tree w2) ?cubin" "is_dir_at (tree w2) demo_dir" "\<not> is_dir_at (tree w2) (demo_dir @ [''meta.json''])"
  proof -
    have "lookup (tree w2) q = (if q = ?cubin then Some (File 0x1A4 ''x'') else lookup (tree w1) q)" for q
      by (simp add: w2_def lookup_def update_conv')
    moreover have "lookup (tree w1) demo_dir = lookup (tree demo_cuda_world) demo_dir"
      "lookup (tree w1) (demo_dir @ [''meta.json'']) = lookup (tree demo_cuda_world) (demo_dir @ [''meta.json''])"
      using w1(2) by (simp_all add: demo_dir_def)
    moreover have "demo_dir \<noteq> ?cubin" by simp
    ultimately show "nonempty_file (tree w2) ?cubin" "is_dir_at (tree w2) demo_dir" "\<not> is_dir_at (tree w2) (demo_dir @ [''meta.json''])"
      using dir by (simp_all add: nonempty_file_def is_dir_at_def)
  qed
  let ?w3 = "w2\<lparr>tick := Suc (Suc (tick w2))\<rparr>"
  have "\<exists>w'. exec no_faults (write_file_sync (demo_dir @ [''meta.json'']) d False) ?w3 = (Returned (), w')" for d
    using write_file_sync_ok[of ?w3 "demo_dir @ [''meta.json'']" d] w2 by auto
  then have fin: "\<exists>w'. exec no_faults (finish_cuda_build demo_dir False [] d) w2 = (Returned (), w')" for d
    using valid_output_ok[OF w2(1)] by (simp add: finish_cuda_build_def exec_bind)
  have flags: "\<exists>flags. get_flags demo_options = Inr flags"
    by (simp add: get_flags_def demo_options_def unset_options_def has_text_def)
  have envs: "env_bool demo_env ''JIT_DEBUG'' False = Inr False"
      "env_bool demo_env ''JIT_PRINT_COMPILER_COMMAND'' False = Inr False"
    by (simp_all add: env_bool_def env_get_or_def env_get_def get_with_prefix_def demo_env_def slow_env_def
      var_name_def Let_def)
  have env_of: "environ demo_env = slow_env" by (simp add: demo_env_def)
  have checks: "compiler_checks demo_options ''ptxas info'' = Inr ()" by code_simp
  have opts: "post_hook demo_options = None" "dump_ptx demo_options = None" "dump_sass demo_options = None"
    by (simp_all add: demo_options_def unset_options_def)
  from flags obtain flags where flags: "get_flags demo_options = Inr flags" by blast
  have shell: "demo_shell cmd w1 = (Inr ''ptxas info'', w2)" for cmd by (simp add: demo_shell_def w2_def)
  obtain w' where w': "exec no_faults (finish_cuda_build demo_dir False [] (dump (cuda_metadata demo_cuda demo_config demo_options
      (join (nvcc_args demo_cuda demo_config demo_dir flags ''--cubin'' ''kernel.cubin'') '' '')))) w2 = (Returned (), w')"
    using fin by blast
  show ?thesis
    using on_iothread_ok[OF w1(1)] on_iothread_ok[OF w'] flags checks
    by (auto simp: cuda_compile_def bind_io_def give_def envs or_env_def run_command_def shell opts
        value_or_false_def env_of Let_def result_simps)
qed

theorem cuda_build_complete_witness:
  "\<exists>w' :: world. nonempty_file (tree w') (demo_dir @ [''kernel.cubin'']) \<and> lookup (tree w') (demo_dir @ [''meta.json'']) \<noteq> None"
proof -
  obtain w' where "cuda_compile demo_shell no_faults demo_cuda demo_env demo_config demo_options [] demo_dir demo_cuda_world =
      Some (Inr (), w')" using demo_cuda_compile by blast
  from cuda_build_complete[OF this] show ?thesis by blast
qed

text \<open>The first two parts are what a new runtime starts from.\<close>

lemma new_cuda_runtime_base:
  assumes "make_runtime (cuda_backend cx) cwd files num_cpus can_start e cfg w = Some (Inr rt, w')"
  shows "rt_hash_base rt = foldl update fnv_new [extra_signature cfg, get_hash (cuda_info (rt_backend rt))]"
  using make_runtime_base[OF assms] by (simp add: cuda_backend_def)

text \<open>C36: The cache key of a CUDA kernel is exactly what the documentation of the key says: the
  digest of the framed chain of the extra signature, the hash of the compiler version (the
  base of every new runtime), the joined flags, the digest of the hook and the digest of the
  source with its tracked includes, in this order and nothing else.\<close>

theorem cuda_cache_key_exact:
  assumes "rt_hash_base rt = foldl update fnv_new [extra_signature (rt_config rt), get_hash (cuda_info (rt_backend rt))]"
    and "cache_key (cuda_backend cx) os rt source opts s = Some (Inr key, pst, s1)"
  shows "\<exists>flags hook code. get_flags opts = Inr flags \<and>
    fst (get_post_hook_hash (cx_read cx) (rt_config rt) opts (hook_digests s)) = Inr hook \<and>
    parse_into_hash (os_fuel os) ((rt_parser rt)\<lparr>p_files := os_files os\<rparr>) (rt_parser_state rt) source = Some (Inr code, pst) \<and>
    key = get_hex_digest (foldl update_byte fnv_new
      (Hash_FNV.stream [extra_signature (rt_config rt), get_hash (cuda_info (rt_backend rt)), join flags '' '', hook, code]))"
proof -
  have ops: "hash_options (cuda_backend cx) = update_hash"
      "\<And>cfg opts s. hook_hash (cuda_backend cx) cfg opts s =
         (case get_post_hook_hash (cx_read cx) cfg opts (hook_digests s) of (r, m) \<Rightarrow> (r, s\<lparr>hook_digests := m\<rparr>))"
    by (simp_all add: cuda_backend_def)
  let ?base = "[extra_signature (rt_config rt), get_hash (cuda_info (rt_backend rt))]"
  from cuda_key.cache_key_parts[OF ops(1) assms(2,1)] obtain ps hook code where k:
    "cuda_parts opts = Inr ps" "hook_hash (cuda_backend cx) (rt_config rt) opts s = (Inr hook, s1)"
    "parse_into_hash (os_fuel os) ((rt_parser rt)\<lparr>p_files := os_files os\<rparr>) (rt_parser_state rt) source = Some (Inr code, pst)"
    "key = get_hex_digest (foldl update fnv_new (?base @ ps @ [hook, code]))"
    by blast
  from k(1) obtain flags where flags: "get_flags opts = Inr flags" "ps = [join flags '' '']"
    by (auto simp: cuda_parts_def result_simps)
  have "fst (get_post_hook_hash (cx_read cx) (rt_config rt) opts (hook_digests s)) = Inr hook"
    using k(2) by (auto simp: ops split: prod.splits)
  moreover have "key = get_hex_digest (foldl update_byte fnv_new (Hash_FNV.stream (?base @ ps @ [hook, code])))"
    using k(4) by (simp only: updates_stream)
  ultimately show ?thesis using k(3) flags by auto
qed

definition demo_context :: cuda_context where
  "demo_context =
     \<lparr>cx_driver = \<lparr>cuLibraryLoadData = (\<lambda>_. (0, 1)), cuLibraryGetKernelCount = (\<lambda>_. (0, 1)),
        cuLibraryEnumerateKernels = (\<lambda>_. (0, 2)), cuKernelGetFunction = (\<lambda>_. (0, 3)), cuLibraryUnload = (\<lambda>_. 0),
        cuFuncSetAttribute = (\<lambda>_ _ _. 0), cuLaunchKernelEx = (\<lambda>_ _ _. 0), cuGetErrorName = (\<lambda>_. []),
        cuGetErrorString = (\<lambda>_. [])\<rparr>,
      cx_runtime = \<lparr>cudaGetDevice = (0, 0), cudaFree_null = 0,
        cudaGetDeviceProperties = (\<lambda>_. (0, \<lparr>multiProcessorCount = 132, l2CacheSize = 50, sharedMemPerBlockOptin = 227,
          prop_major = 9, prop_minor = 0\<rparr>)), cudaDevAttrClockRate = (\<lambda>_. (0, 1)),
        cudaGetErrorName = (\<lambda>_. []), cudaGetErrorString = (\<lambda>_. [])\<rparr>,
      cx_shell = demo_shell, cx_faults = no_faults, cx_cwd = ''/'', cx_read = (\<lambda>_. Inl (Assertion [])), cx_stream = Inr 0\<rparr>"

definition demo_runtime :: "(compiler_options, launch_options, cuda, kernel) runtime" where
  "demo_runtime =
     \<lparr>rt_config = demo_config, rt_env = demo_env, rt_default_options = demo_options,
      rt_default_launch = default_launch_options, rt_disk_cache = two_roots, rt_backend = demo_cuda,
      rt_parser = \<lparr>p_include_dirs = [], p_include_prefixes = [],
                   p_files = \<lparr>path_exists = (\<lambda>_. False), open_read = Map.empty\<rparr>\<rparr>,
      rt_parser_state = new_pstate, rt_mem_cache = Map.empty,
      rt_hash_base = foldl update fnv_new [extra_signature demo_config, get_hash (cuda_info demo_cuda)],
      rt_precompiler = None\<rparr>"

theorem cuda_cache_key_exact_witness:
  "\<exists>key pst s1 flags. cache_key (cuda_backend demo_context) toy_os demo_runtime [] demo_options
       \<lparr>hook_digests = Map.empty, driver_calls = []\<rparr> = Some (Inr key, pst, s1) \<and>
     get_flags demo_options = Inr flags \<and>
     key = get_hex_digest (foldl update_byte fnv_new (Hash_FNV.stream
       [''s'', hex_digest_of ''release 12.9'', join flags '' '', [], hex_digest_of []]))"
proof -
  let ?s = "\<lparr>hook_digests = Map.empty, driver_calls = []\<rparr>"
  have flags: "\<exists>flags. get_flags demo_options = Inr flags"
    by (simp add: get_flags_def demo_options_def unset_options_def has_text_def)
  have hook: "get_post_hook_hash r cfg demo_options m = (Inr [], m)" for r cfg m
    by (simp add: get_post_hook_hash_def demo_options_def unset_options_def)
  have parse: "parse_into_hash (os_fuel toy_os) ((rt_parser demo_runtime)\<lparr>p_files := os_files toy_os\<rparr>)
      (rt_parser_state demo_runtime) [] = Some (Inr (hex_digest_of []), new_pstate)"
    by (simp add: parse_into_hash_def toy_os_def demo_runtime_def code_lines.simps[of "[]"] hex_digest_of_def)
  have parts: "rt_config demo_runtime = demo_config" "rt_backend demo_runtime = demo_cuda"
    "rt_hash_base demo_runtime = foldl update fnv_new [extra_signature demo_config, get_hash (cuda_info demo_cuda)]"
    by (simp_all add: demo_runtime_def)
  have "\<exists>key pst s1. cache_key (cuda_backend demo_context) toy_os demo_runtime [] demo_options ?s = Some (Inr key, pst, s1)"
    using flags by (auto simp: cache_key_def cuda_backend_def update_hash_def bind_result_def hook parse)
  then obtain key pst s1 where k:
    "cache_key (cuda_backend demo_context) toy_os demo_runtime [] demo_options ?s = Some (Inr key, pst, s1)" by blast
  have base: "rt_hash_base demo_runtime =
      foldl update fnv_new [extra_signature (rt_config demo_runtime), get_hash (cuda_info (rt_backend demo_runtime))]"
    by (simp add: parts)
  from cuda_cache_key_exact[OF base k] k show ?thesis
    unfolding parse hook parts by (auto simp: get_hash_def demo_cuda_def demo_config_def)
qed

end
