(* ===== verification/Ascend_Options.thy ===== *)
theory Ascend_Options
  imports Override Hash_FNV Env_Vars Config
begin

text \<open>
  \<^verbatim>\<open>backend/ascend/options.hpp\<close> and \<^verbatim>\<open>backend/ascend/device.hpp\<close>: the compiler and
  launch options of the Ascend backend and the cached device properties. The names carry
  the prefix \<open>npu\<close> where the CUDA backend has the same name.
\<close>

section \<open>Device properties\<close>

record npu_prop =
  soc_name :: string
  num_aicpu_cores :: int
  num_aicore_cores :: int
  num_cube_cores :: int
  num_vec_cores :: int
  num_lanes_per_warp :: int
  num_max_threads_per_vec_core :: int
  num_ubuf_bytes_per_vec_core :: int
  num_total_global_mem_bytes :: int
  num_l2_cache_bytes :: int
  npu_arch :: int

definition zero_prop :: npu_prop where
  "zero_prop =
     \<lparr>soc_name = [], num_aicpu_cores = 0, num_aicore_cores = 0, num_cube_cores = 0,
      num_vec_cores = 0, num_lanes_per_warp = 0, num_max_threads_per_vec_core = 0,
      num_ubuf_bytes_per_vec_core = 0, num_total_global_mem_bytes = 0, num_l2_cache_bytes = 0,
      npu_arch = 0\<rparr>"

datatype dev_attr =
    AICPU_CORE_NUM | AICORE_CORE_NUM | CUBE_CORE_NUM | VECTOR_CORE_NUM | WARP_SIZE
  | MAX_THREAD_PER_VECTOR_CORE | UBUF_PER_VECTOR_CORE | TOTAL_GLOBAL_MEM_SIZE | L2_CACHE_SIZE
  | NPU_ARCH

text \<open>The ACL queries, as the error code and the value written; a null name is \<open>None\<close>.\<close>

record acl_queries =
  aclrtGetDevice :: "int \<times> int"
  aclrtGetSocName :: "string option"
  aclrtGetDeviceInfo :: "int \<Rightarrow> dev_attr \<Rightarrow> int \<times> int"
  aclGetRecentErrMsg :: "int \<Rightarrow> string option"

definition check_acl :: "(int \<Rightarrow> string option) \<Rightarrow> int \<Rightarrow> string \<Rightarrow> unit result" where
  "check_acl recent error expression =
     (if error = 0 then Inr ()
      else Inl (Panic (expression @ '' failed with ACL error '' @ show_int error @ '': '' @
             (case recent error of Some m \<Rightarrow> m | None \<Rightarrow> ''unknown''))))"

record npu_device =
  npu_device_prop :: npu_prop
  npu_initialized :: bool

definition new_npu_device :: npu_device where
  "new_npu_device = \<lparr>npu_device_prop = zero_prop, npu_initialized = False\<rparr>"

text \<open>The ten queries in the order of the source, each with the field it writes.\<close>

definition prop_queries :: "(dev_attr \<times> string \<times> (int \<Rightarrow> npu_prop \<Rightarrow> npu_prop)) list" where
  "prop_queries =
     [(AICPU_CORE_NUM, ''ACL_DEV_ATTR_AICPU_CORE_NUM'', \<lambda>v p. p\<lparr>num_aicpu_cores := v\<rparr>),
      (AICORE_CORE_NUM, ''ACL_DEV_ATTR_AICORE_CORE_NUM'', \<lambda>v p. p\<lparr>num_aicore_cores := v\<rparr>),
      (CUBE_CORE_NUM, ''ACL_DEV_ATTR_CUBE_CORE_NUM'', \<lambda>v p. p\<lparr>num_cube_cores := v\<rparr>),
      (VECTOR_CORE_NUM, ''ACL_DEV_ATTR_VECTOR_CORE_NUM'', \<lambda>v p. p\<lparr>num_vec_cores := v\<rparr>),
      (WARP_SIZE, ''ACL_DEV_ATTR_WARP_SIZE'', \<lambda>v p. p\<lparr>num_lanes_per_warp := v\<rparr>),
      (MAX_THREAD_PER_VECTOR_CORE, ''ACL_DEV_ATTR_MAX_THREAD_PER_VECTOR_CORE'',
        \<lambda>v p. p\<lparr>num_max_threads_per_vec_core := v\<rparr>),
      (UBUF_PER_VECTOR_CORE, ''ACL_DEV_ATTR_UBUF_PER_VECTOR_CORE'',
        \<lambda>v p. p\<lparr>num_ubuf_bytes_per_vec_core := v\<rparr>),
      (TOTAL_GLOBAL_MEM_SIZE, ''ACL_DEV_ATTR_TOTAL_GLOBAL_MEM_SIZE'',
        \<lambda>v p. p\<lparr>num_total_global_mem_bytes := v\<rparr>),
      (L2_CACHE_SIZE, ''ACL_DEV_ATTR_L2_CACHE_SIZE'', \<lambda>v p. p\<lparr>num_l2_cache_bytes := v\<rparr>),
      (NPU_ARCH, ''ACL_DEV_ATTR_NPU_ARCH'', \<lambda>v p. p\<lparr>npu_arch := v\<rparr>)]"

fun query_props ::
  "acl_queries \<Rightarrow> int \<Rightarrow> (dev_attr \<times> string \<times> (int \<Rightarrow> npu_prop \<Rightarrow> npu_prop)) list \<Rightarrow>
   npu_prop \<Rightarrow> unit result \<times> npu_prop" where
  "query_props acl dev [] p = (Inr (), p)"
| "query_props acl dev ((attr, attr_name, put) # qs) p =
     (let (err, v) = aclrtGetDeviceInfo acl dev attr; p' = put v p
      in case check_acl (aclGetRecentErrMsg acl) err (''aclrtGetDeviceInfo('' @ attr_name @ '')'') of
           Inl e \<Rightarrow> (Inl e, p')
         | Inr _ \<Rightarrow> query_props acl dev qs p')"

definition npu_get_prop :: "acl_queries \<Rightarrow> npu_device \<Rightarrow> npu_prop result \<times> npu_device" where
  "npu_get_prop acl d =
     (if npu_initialized d then (Inr (npu_device_prop d), d)
      else let (err, dev) = aclrtGetDevice acl
      in case check_acl (aclGetRecentErrMsg acl) err ''driver::lazy_aclrtGetDevice(&device_index)'' of
           Inl e \<Rightarrow> (Inl e, d)
         | Inr _ \<Rightarrow>
      (case aclrtGetSocName acl of
           None \<Rightarrow> (Inl (Assertion ''aclrtGetSocName returned null''), d)
         | Some soc \<Rightarrow>
      (case query_props acl dev prop_queries ((npu_device_prop d)\<lparr>soc_name := soc\<rparr>) of
           (Inl e, p) \<Rightarrow> (Inl e, d\<lparr>npu_device_prop := p\<rparr>)
         | (Inr _, p) \<Rightarrow> (Inr p, d\<lparr>npu_device_prop := p, npu_initialized := True\<rparr>))))"

text \<open>\<^verbatim>\<open>static_cast<int>\<close> of an \<^verbatim>\<open>int64_t\<close>.\<close>

definition to_int32 :: "int \<Rightarrow> int" where
  "to_int32 n = sint (word_of_int n :: 32 word)"

definition npu_getter :: "(npu_prop \<Rightarrow> int) \<Rightarrow> acl_queries \<Rightarrow> npu_device \<Rightarrow> int result \<times> npu_device" where
  "npu_getter f acl d = (case npu_get_prop acl d of (r, d') \<Rightarrow> (bind_result r (\<lambda>p. Inr (f p)), d'))"

definition get_npu_arch :: "acl_queries \<Rightarrow> npu_device \<Rightarrow> int result \<times> npu_device" where
  "get_npu_arch = npu_getter (\<lambda>p. to_int32 (npu_arch p))"

definition get_num_aicore_cores :: "acl_queries \<Rightarrow> npu_device \<Rightarrow> int result \<times> npu_device" where
  "get_num_aicore_cores = npu_getter (\<lambda>p. to_int32 (num_aicore_cores p))"

definition get_num_vec_cores :: "acl_queries \<Rightarrow> npu_device \<Rightarrow> int result \<times> npu_device" where
  "get_num_vec_cores = npu_getter (\<lambda>p. to_int32 (num_vec_cores p))"

definition get_num_cube_cores :: "acl_queries \<Rightarrow> npu_device \<Rightarrow> int result \<times> npu_device" where
  "get_num_cube_cores = npu_getter (\<lambda>p. to_int32 (num_cube_cores p))"

definition npu_num_l2_cache_bytes :: "acl_queries \<Rightarrow> npu_device \<Rightarrow> int result \<times> npu_device" where
  "npu_num_l2_cache_bytes = npu_getter num_l2_cache_bytes"

definition get_num_ubuf_bytes_per_vec_core :: "acl_queries \<Rightarrow> npu_device \<Rightarrow> int result \<times> npu_device" where
  "get_num_ubuf_bytes_per_vec_core = npu_getter num_ubuf_bytes_per_vec_core"

definition get_num_vec_cores_per_ai_core ::
  "acl_queries \<Rightarrow> npu_device \<Rightarrow> int result \<times> npu_device" where
  "get_num_vec_cores_per_ai_core acl d =
     (case get_num_aicore_cores acl d of
        (Inl e, d1) \<Rightarrow> (Inl e, d1)
      | (Inr num_ai_cores, d1) \<Rightarrow>
      case get_num_vec_cores acl d1 of
        (Inl e, d2) \<Rightarrow> (Inl e, d2)
      | (Inr num_vector_cores, d2) \<Rightarrow>
          if num_ai_cores > 0 \<and> num_ai_cores dvd num_vector_cores
          then (Inr (num_vector_cores div num_ai_cores), d2)
          else (Inl (Assertion ''Ascend vector core count must be divisible by AI core count''), d2))"

section \<open>Compiler options\<close>

record npu_compiler_options =
  aicpu :: "bool option"
  npu_optimize_level :: "string option"
  npu_opt_arch :: "int option"
  debug_info :: "bool option"
  dump_asm :: "bool option"
  bisheng_flags :: "string list option"
  linker_flags :: "string list option"
  aicpu_flags :: "string list option"
  aicpu_linker_flags :: "string list option"
  extra_bisheng_flags :: "string list"
  extra_linker_flags :: "string list"
  extra_aicpu_flags :: "string list"
  extra_aicpu_linker_flags :: "string list"

definition npu_unset_options :: npu_compiler_options where
  "npu_unset_options =
     \<lparr>aicpu = None, npu_optimize_level = None, npu_opt_arch = None, debug_info = None,
      dump_asm = None, bisheng_flags = None, linker_flags = None, aicpu_flags = None,
      aicpu_linker_flags = None, extra_bisheng_flags = [], extra_linker_flags = [],
      extra_aicpu_flags = [], extra_aicpu_linker_flags = []\<rparr>"

definition npu_default_options ::
  "env \<Rightarrow> acl_queries \<Rightarrow> npu_device \<Rightarrow> npu_compiler_options result \<times> npu_device" where
  "npu_default_options env acl d =
     (case get_npu_arch acl d of
        (Inl e, d') \<Rightarrow> (Inl e, d')
      | (Inr a, d') \<Rightarrow>
          (bind_result (env_bool env ''JIT_KERNEL_DEBUG_INFO'' False) (\<lambda>dbg.
           bind_result (env_bool env ''JIT_DUMP_ASM'' False) (\<lambda>asm.
           Inr \<lparr>aicpu = Some False, npu_optimize_level = Some ''2'', npu_opt_arch = Some a,
                debug_info = Some dbg, dump_asm = Some asm,
                bisheng_flags = Some
                  [''--cce-aicore-only'', ''-mllvm'', ''-enable-hiipu-vf-loop-unroll'',
                   ''-mllvm'', ''-cce-aicore-dcpreload-args=false''],
                linker_flags = Some [''-m'', ''aicorelinux'', ''-Ttext'', ''0'', ''--no-mmap-output-file''],
                aicpu_flags = Some
                  [''--cce-aicore-lang'', ''--cce-lite-aicpu'', ''--cce-aicpu-only'',
                   ''--cce-aicpu-launch-with-interface'', ''--cce-aicore-arch=dav-c310-vec'',
                   ''-std=c++17'', ''-D_GNU_SOURCE'', ''-fPIC'', ''-c''],
                aicpu_linker_flags = Some
                  [''-m'', ''aicpulinux'', ''-shared'', ''-soname=libkernel.aicpu.so'',
                   ''-Bsymbolic'', ''--eh-frame-hdr'', ''--no-mmap-output-file''],
                extra_bisheng_flags = [], extra_linker_flags = [],
                extra_aicpu_flags = [], extra_aicpu_linker_flags = []\<rparr>)), d'))"

definition npu_override_with ::
  "npu_compiler_options \<Rightarrow> npu_compiler_options \<Rightarrow> npu_compiler_options" where
  "npu_override_with base overrides =
     \<lparr>aicpu = override_field (aicpu base) (aicpu overrides),
      npu_optimize_level = override_field (npu_optimize_level base) (npu_optimize_level overrides),
      npu_opt_arch = override_field (npu_opt_arch base) (npu_opt_arch overrides),
      debug_info = override_field (debug_info base) (debug_info overrides),
      dump_asm = override_field (dump_asm base) (dump_asm overrides),
      bisheng_flags = override_field (bisheng_flags base) (bisheng_flags overrides),
      linker_flags = override_field (linker_flags base) (linker_flags overrides),
      aicpu_flags = override_field (aicpu_flags base) (aicpu_flags overrides),
      aicpu_linker_flags = override_field (aicpu_linker_flags base) (aicpu_linker_flags overrides),
      extra_bisheng_flags = extra_bisheng_flags base @ extra_bisheng_flags overrides,
      extra_linker_flags = extra_linker_flags base @ extra_linker_flags overrides,
      extra_aicpu_flags = extra_aicpu_flags base @ extra_aicpu_flags overrides,
      extra_aicpu_linker_flags = extra_aicpu_linker_flags base @ extra_aicpu_linker_flags overrides\<rparr>"

interpretation npu_compiler: override_contract npu_override_with npu_unset_options
  by unfold_locales (simp_all add: npu_override_with_def npu_unset_options_def)

definition is_aicpu :: "npu_compiler_options \<Rightarrow> bool" where
  "is_aicpu opts = (case aicpu opts of Some b \<Rightarrow> b | None \<Rightarrow> False)"

definition get_bisheng_flags :: "npu_compiler_options \<Rightarrow> string list result" where
  "get_bisheng_flags opts =
     bind_result (dj_host_assert (npu_optimize_level opts \<noteq> None \<and> npu_optimize_level opts \<noteq> Some [])
        ''optimization level must be specified'') (\<lambda>_.
     bind_result (if is_aicpu opts then Inr ()
        else dj_host_assert (case npu_opt_arch opts of Some a \<Rightarrow> a > 0 | None \<Rightarrow> False)
               ''Ascend architecture must be specified'') (\<lambda>_.
     Inr ([''-O'' @ the (npu_optimize_level opts)] @
          (if is_aicpu opts then [] else [''--npu-arch=dav-'' @ show_int (the (npu_opt_arch opts))]) @
          (if debug_info opts = Some True
           then [''-g'', ''-gdwarf-5'', ''-gembed-source'', ''-gline-tables-only''] else []) @
          (case (if is_aicpu opts then aicpu_flags opts else bisheng_flags opts) of
             Some fs \<Rightarrow> fs | None \<Rightarrow> []) @
          (if is_aicpu opts then extra_aicpu_flags opts else extra_bisheng_flags opts))))"

definition get_linker_flags :: "npu_compiler_options \<Rightarrow> string list" where
  "get_linker_flags opts =
     (case (if is_aicpu opts then aicpu_linker_flags opts else linker_flags opts) of
        Some fs \<Rightarrow> fs | None \<Rightarrow> []) @
     (if is_aicpu opts then extra_aicpu_linker_flags opts else extra_linker_flags opts)"

definition npu_update_hash :: "npu_compiler_options \<Rightarrow> fnv1a \<Rightarrow> fnv1a result" where
  "npu_update_hash opts hasher =
     (let h1 = (if is_aicpu opts then update hasher ''aicpu'' else hasher)
      in bind_result (get_bisheng_flags opts) (\<lambda>flags.
         Inr (update (update h1 (join flags '' '')) (join (get_linker_flags opts) '' ''))))"

definition npu_options_to_json :: "npu_compiler_options \<Rightarrow> json" where
  "npu_options_to_json opts = Object
     [(''aicpu'', json_optional Bool (aicpu opts)),
      (''optimize_level'', json_optional Str (npu_optimize_level opts)),
      (''arch'', json_optional json_of_int (npu_opt_arch opts)),
      (''debug_info'', json_optional Bool (debug_info opts)),
      (''dump_asm'', json_optional Bool (dump_asm opts)),
      (''bisheng_flags'', json_optional (json_vector Str) (bisheng_flags opts)),
      (''linker_flags'', json_optional (json_vector Str) (linker_flags opts)),
      (''aicpu_flags'', json_optional (json_vector Str) (aicpu_flags opts)),
      (''aicpu_linker_flags'', json_optional (json_vector Str) (aicpu_linker_flags opts)),
      (''extra_bisheng_flags'', json_vector Str (extra_bisheng_flags opts)),
      (''extra_linker_flags'', json_vector Str (extra_linker_flags opts)),
      (''extra_aicpu_flags'', json_vector Str (extra_aicpu_flags opts)),
      (''extra_aicpu_linker_flags'', json_vector Str (extra_aicpu_linker_flags opts))]"

section \<open>Launch options\<close>

record npu_launch_options =
  npu_stream :: "64 word option"
  num_blocks :: "int option"
  num_ubuf_bytes :: "int option"
  num_launch_timeout_secs :: "int option"

definition npu_unset_launch_options :: npu_launch_options where
  "npu_unset_launch_options =
     \<lparr>npu_stream = None, num_blocks = None, num_ubuf_bytes = None, num_launch_timeout_secs = None\<rparr>"

definition npu_default_launch_options :: "env \<Rightarrow> npu_launch_options result" where
  "npu_default_launch_options env =
     bind_result (env_int env ''JIT_LAUNCH_TIMEOUT'' 300) (\<lambda>secs.
     Inr \<lparr>npu_stream = None, num_blocks = None, num_ubuf_bytes = Some 0,
          num_launch_timeout_secs = Some secs\<rparr>)"

definition npu_launch_override_with ::
  "npu_launch_options \<Rightarrow> npu_launch_options \<Rightarrow> npu_launch_options" where
  "npu_launch_override_with base overrides =
     \<lparr>npu_stream = override_field (npu_stream base) (npu_stream overrides),
      num_blocks = override_field (num_blocks base) (num_blocks overrides),
      num_ubuf_bytes = override_field (num_ubuf_bytes base) (num_ubuf_bytes overrides),
      num_launch_timeout_secs =
        override_field (num_launch_timeout_secs base) (num_launch_timeout_secs overrides)\<rparr>"

interpretation npu_launch: override_contract npu_launch_override_with npu_unset_launch_options
  by unfold_locales (simp_all add: npu_launch_override_with_def npu_unset_launch_options_def)

section \<open>Lemmas\<close>

lemma check_acl_Inr [simp]: "check_acl rc e x = Inr u \<longleftrightarrow> e = 0"
  by (simp add: check_acl_def)

lemma npu_get_prop_memo:
  assumes "npu_get_prop acl d = (Inr p, d')"
  shows "npu_initialized d' \<and> npu_get_prop acl' d' = (Inr p, d')"
proof (cases "npu_initialized d")
  case True
  with assms show ?thesis by (auto simp: npu_get_prop_def)
next
  case False
  with assms show ?thesis
    by (auto simp: npu_get_prop_def Let_def split: prod.splits sum.splits option.splits)
qed

text \<open>Every query answers from the first successful reading; the ratio of the cores is then exact.\<close>

lemma npu_getter_value:
  "npu_get_prop acl d = (Inr p, d') \<Longrightarrow> npu_getter f acl d = (Inr (f p), d') \<and> npu_getter f acl' d' = (Inr (f p), d')"
  using npu_get_prop_memo[of acl d p d' acl'] by (simp add: npu_getter_def)

lemma vec_cores_per_ai_core_exact:
  assumes "get_num_vec_cores_per_ai_core acl d = (Inr n, d')"
  shows "\<exists>p. npu_get_prop acl d = (Inr p, d') \<and> 0 < to_int32 (num_aicore_cores p) \<and>
    to_int32 (num_vec_cores p) = n * to_int32 (num_aicore_cores p)"
proof -
  obtain r d1 where got: "npu_get_prop acl d = (r, d1)" by fastforce
  then obtain p where p: "r = Inr p" using assms
    by (cases r) (auto simp: get_num_vec_cores_per_ai_core_def get_num_aicore_cores_def npu_getter_def)
  note read = npu_getter_value[OF got[unfolded p]]
  from assms have "d1 = d' \<and> 0 < to_int32 (num_aicore_cores p) \<and> n * to_int32 (num_aicore_cores p) = to_int32 (num_vec_cores p)"
    unfolding get_num_vec_cores_per_ai_core_def get_num_aicore_cores_def get_num_vec_cores_def
    by (auto simp: read[THEN conjunct1] read[THEN conjunct2] split: if_splits)
  with got p show ?thesis by auto
qed

text \<open>The flags of one mode do not depend on the options of the other mode.\<close>

lemma aicore_flags_ignore_aicpu:
  assumes "\<not> is_aicpu opts"
  shows "get_bisheng_flags (opts\<lparr>aicpu_flags := a, extra_aicpu_flags := b\<rparr>) = get_bisheng_flags opts"
    and "get_linker_flags (opts\<lparr>aicpu_linker_flags := c, extra_aicpu_linker_flags := d\<rparr>) = get_linker_flags opts"
  using assms by (simp_all add: get_bisheng_flags_def get_linker_flags_def is_aicpu_def)

lemma aicpu_flags_ignore_aicore:
  assumes "is_aicpu opts"
  shows "get_bisheng_flags (opts\<lparr>npu_opt_arch := x, bisheng_flags := a, extra_bisheng_flags := b\<rparr>) =
      get_bisheng_flags opts"
    and "get_linker_flags (opts\<lparr>linker_flags := c, extra_linker_flags := d\<rparr>) = get_linker_flags opts"
  using assms by (simp_all add: get_bisheng_flags_def get_linker_flags_def is_aicpu_def)

lemma npu_flags_dump: "npu_update_hash (opts\<lparr>dump_asm := a\<rparr>) h = npu_update_hash opts h"
  by (simp add: npu_update_hash_def get_bisheng_flags_def get_linker_flags_def is_aicpu_def)

section \<open>Properties\<close>

text \<open>The flags and the cache key of an Ascend compile depend only on the options of its
  own mode (AICore or AICPU), the dump flag never enters them, and an AICPU compile needs no
  architecture while an AICore compile is rejected without a positive one.\<close>

theorem ascend_mode_separation:
  "(\<not> is_aicpu opts \<longrightarrow>
      npu_update_hash (opts\<lparr>aicpu_flags := a, extra_aicpu_flags := b, aicpu_linker_flags := c,
        extra_aicpu_linker_flags := d, dump_asm := e\<rparr>) h = npu_update_hash opts h) \<and>
   (is_aicpu opts \<longrightarrow>
      npu_update_hash (opts\<lparr>npu_opt_arch := x, bisheng_flags := a, extra_bisheng_flags := b,
        linker_flags := c, extra_linker_flags := d, dump_asm := e\<rparr>) h = npu_update_hash opts h) \<and>
   ((\<exists>flags. get_bisheng_flags opts = Inr flags) \<longleftrightarrow>
      npu_optimize_level opts \<notin> {None, Some []} \<and>
      (is_aicpu opts \<or> (\<exists>n > 0. npu_opt_arch opts = Some n)))"
  by (auto simp: npu_update_hash_def get_bisheng_flags_def get_linker_flags_def is_aicpu_def
      result_simps split: option.splits)

theorem ascend_mode_separation_witness:
  "npu_update_hash (npu_unset_options\<lparr>aicpu := Some True, npu_optimize_level := Some ''2'',
      npu_opt_arch := Some 3510\<rparr>) fnv_new =
   npu_update_hash (npu_unset_options\<lparr>aicpu := Some True, npu_optimize_level := Some ''2''\<rparr>) fnv_new"
  using ascend_mode_separation[of "npu_unset_options\<lparr>aicpu := Some True, npu_optimize_level := Some ''2''\<rparr>"
      None "[]" None "[]" None fnv_new "Some 3510"]
  by (simp add: is_aicpu_def npu_unset_options_def)

end
