(* ===== verification/Ascend_Elf.thy ===== *)
theory Ascend_Elf
  imports Prelude "HOL-Library.List_Lexorder" "HOL-Library.Char_ord"
begin

text \<open>
  \<^verbatim>\<open>Kernel::parse_kernel_names\<close> of \<^verbatim>\<open>backend/ascend/kernel.hpp\<close>: the ELF reader that finds
  the kernel names of an Ascend binary. The binary is untrusted bytes, so every read is
  modelled as one that may be out of bounds (\<open>None\<close>), and the reader is proved never to
  make such a read. The structures are those of \<^verbatim>\<open>elf.h\<close>, decoded as little-endian.
\<close>

section \<open>Memory\<close>

text \<open>\<^verbatim>\<open>memcpy(dst, data + off, n)\<close>; \<open>None\<close> is a read past the end of the data.\<close>

definition memcpy_from :: "string \<Rightarrow> nat \<Rightarrow> nat \<Rightarrow> string option" where
  "memcpy_from data off n =
     (if off + n \<le> length data then Some (take n (drop off data)) else None)"

fun le_nat :: "string \<Rightarrow> nat" where
  "le_nat [] = 0"
| "le_nat (c # bytes) = of_char c + 256 * le_nat bytes"

definition le_field :: "string \<Rightarrow> nat \<Rightarrow> nat \<Rightarrow> nat" where
  "le_field bytes off n = le_nat (take n (drop off bytes))"

section \<open>The structures\<close>

record elf64_ehdr =
  e_ident :: string
  e_type :: nat
  e_machine :: nat
  e_shoff :: nat
  e_shentsize :: nat
  e_shnum :: nat
  e_shstrndx :: nat

definition decode_ehdr :: "string \<Rightarrow> elf64_ehdr" where
  "decode_ehdr b =
     \<lparr>e_ident = take 16 b, e_type = le_field b 16 2, e_machine = le_field b 18 2,
      e_shoff = le_field b 40 8, e_shentsize = le_field b 58 2, e_shnum = le_field b 60 2,
      e_shstrndx = le_field b 62 2\<rparr>"

record elf64_shdr =
  sh_name :: nat
  sh_type :: nat
  sh_offset :: nat
  sh_size :: nat
  sh_link :: nat
  sh_entsize :: nat

definition decode_shdr :: "string \<Rightarrow> elf64_shdr" where
  "decode_shdr b =
     \<lparr>sh_name = le_field b 0 4, sh_type = le_field b 4 4, sh_offset = le_field b 24 8,
      sh_size = le_field b 32 8, sh_link = le_field b 40 4, sh_entsize = le_field b 56 8\<rparr>"

record elf64_sym =
  st_name :: nat
  st_info :: nat
  st_other :: nat
  st_shndx :: nat

definition decode_sym :: "string \<Rightarrow> elf64_sym" where
  "decode_sym b =
     \<lparr>st_name = le_field b 0 4, st_info = le_field b 4 1, st_other = le_field b 5 1,
      st_shndx = le_field b 6 2\<rparr>"

definition decode_sections :: "string \<Rightarrow> nat \<Rightarrow> elf64_shdr list" where
  "decode_sections table n = map (\<lambda>i. decode_shdr (take 64 (drop (64 * i) table))) [0..<n]"

section \<open>Names in a string table\<close>

text \<open>\<^verbatim>\<open>find('\0', pos)\<close> and the text before it.\<close>

definition c_string_at :: "string \<Rightarrow> nat \<Rightarrow> string option" where
  "c_string_at table pos =
     (case split_at_char (char_of (0 :: nat)) (drop pos table) of
        (name, Some _) \<Rightarrow> Some name
      | (_, None) \<Rightarrow> None)"

text \<open>
  Errors and undefined reads together: \<open>None\<close> is an out-of-bounds read, \<open>Some (Inl e)\<close>
  an exception.
\<close>

type_synonym 'a checked = "'a result option"

definition bind_checked :: "'a checked \<Rightarrow> ('a \<Rightarrow> 'b checked) \<Rightarrow> 'b checked" where
  "bind_checked m f = (case m of None \<Rightarrow> None | Some (Inl e) \<Rightarrow> Some (Inl e) | Some (Inr x) \<Rightarrow> f x)"

definition lift_result :: "'a result \<Rightarrow> 'a checked" where
  "lift_result r = Some r"

definition lift_read :: "'a option \<Rightarrow> 'a checked" where
  "lift_read r = map_option Inr r"

section \<open>AICPU binaries\<close>

definition check_range :: "string \<Rightarrow> nat \<Rightarrow> nat \<Rightarrow> unit result" where
  "check_range data off n =
     dj_host_assert (off \<le> length data \<and> n \<le> length data - off) ''truncated AICPU ELF''"

text \<open>A defined global function of default visibility.\<close>

definition exported_function :: "elf64_sym \<Rightarrow> bool" where
  "exported_function s \<longleftrightarrow>
     st_info s mod 16 = 2 \<and> st_info s div 16 = 1 \<and> st_other s mod 4 = 0 \<and> st_shndx s \<noteq> 0"

fun read_symbols :: "string \<Rightarrow> string \<Rightarrow> nat \<Rightarrow> nat list \<Rightarrow> string list \<Rightarrow> string list checked" where
  "read_symbols data names base [] acc = Some (Inr acc)"
| "read_symbols data names base (off # offs) acc =
     bind_checked (lift_read (memcpy_from data (base + off) 24)) (\<lambda>bytes.
       let sym = decode_sym bytes
       in if \<not> exported_function sym then read_symbols data names base offs acc
          else bind_checked (lift_result (dj_host_assert (st_name sym < length names)
                   ''invalid AICPU ELF symbol name'')) (\<lambda>_.
            case c_string_at names (st_name sym) of
              None \<Rightarrow> Some (Inl (Assertion ''unterminated AICPU ELF symbol name''))
            | Some name \<Rightarrow> read_symbols data names base offs (acc @ [name])))"

text \<open>\<^verbatim>\<open>for (offset = 0; offset < sh_size; offset += sizeof(Elf64_Sym))\<close>\<close>

definition symbol_offsets :: "nat \<Rightarrow> nat list" where
  "symbol_offsets bytes = map (\<lambda>i. 24 * i) [0..<(bytes + 23) div 24]"

fun read_dynsyms :: "string \<Rightarrow> elf64_shdr list \<Rightarrow> elf64_shdr list \<Rightarrow> string list \<Rightarrow> string list checked" where
  "read_dynsyms data sections [] acc = Some (Inr acc)"
| "read_dynsyms data sections (s # ss) acc =
     (if sh_type s \<noteq> 11 then read_dynsyms data sections ss acc
      else
        bind_checked (lift_result (dj_host_assert
          (sh_entsize s = 24 \<and> sh_size s mod 24 = 0 \<and> sh_link s < length sections)
          ''invalid AICPU ELF symbol table'')) (\<lambda>_.
        let strings = sections ! sh_link s
        in bind_checked (lift_result (dj_host_assert (sh_type strings = 3)
             ''invalid AICPU ELF string table'')) (\<lambda>_.
        bind_checked (lift_result (check_range data (sh_offset s) (sh_size s))) (\<lambda>_.
        bind_checked (lift_result (check_range data (sh_offset strings) (sh_size strings))) (\<lambda>_.
        bind_checked (lift_read (memcpy_from data (sh_offset strings) (sh_size strings))) (\<lambda>names.
        bind_checked (read_symbols data names (sh_offset s) (symbol_offsets (sh_size s)) acc) (\<lambda>acc'.
          read_dynsyms data sections ss acc')))))))"

definition interface_suffix :: string where
  "interface_suffix = ''_interface''"

text \<open>A \<^verbatim>\<open>std::set<std::string>\<close> is its elements in ascending order.\<close>

definition to_std_set :: "string list \<Rightarrow> string list" where
  "to_std_set xs = remdups_adj (sort xs)"

definition aicpu_kernels :: "string list \<Rightarrow> string list" where
  "aicpu_kernels symbols =
     map (\<lambda>s. take (length s - length interface_suffix) s)
       (filter (\<lambda>s. suffix interface_suffix s \<and>
                  take (length s - length interface_suffix) s \<in> set symbols) symbols)"

section \<open>AICore binaries\<close>

definition meta_prefix :: string where
  "meta_prefix = ''.ascend.meta.''"

definition strip_mix :: "string \<Rightarrow> string" where
  "strip_mix name =
     (if suffix ''_mix_aic'' name \<or> suffix ''_mix_aiv'' name then take (length name - 8) name else name)"

definition section_kernel :: "string \<Rightarrow> elf64_shdr \<Rightarrow> string option" where
  "section_kernel string_table s =
     (if sh_name s \<ge> length string_table then None
      else case c_string_at string_table (sh_name s) of
             None \<Rightarrow> None
           | Some name \<Rightarrow>
               if prefix meta_prefix name then Some (strip_mix (drop (length meta_prefix) name))
               else None)"

definition aicore_kernels :: "string \<Rightarrow> elf64_shdr list \<Rightarrow> string list" where
  "aicore_kernels string_table sections =
     remdups_adj (sort (List.map_filter (section_kernel string_table) sections))"

section \<open>The parser\<close>

definition elf_magic :: string where
  "elf_magic = map char_of [127 :: nat, 69, 76, 70]"

definition aicpu_names :: "string \<Rightarrow> elf64_shdr list \<Rightarrow> string list checked" where
  "aicpu_names data sections =
     bind_checked (read_dynsyms data sections sections []) (\<lambda>symbols.
       Some (Inr (aicpu_kernels (to_std_set symbols))))"

definition aicore_names :: "string \<Rightarrow> elf64_ehdr \<Rightarrow> elf64_shdr list \<Rightarrow> string list checked" where
  "aicore_names data header sections =
     (let file_size = length data;
          string_table_index =
            (if e_shstrndx header = 65535 then sh_link (hd sections) else e_shstrndx header)
      in bind_checked (lift_result (dj_host_assert (string_table_index < length sections)
           ''invalid ELF string table index'')) (\<lambda>_.
         let st = sections ! string_table_index
         in bind_checked (lift_result (dj_host_assert
              (sh_offset st \<le> file_size \<and> sh_size st \<le> file_size - sh_offset st)
              ''truncated ELF string table'')) (\<lambda>_.
            bind_checked (lift_read (memcpy_from data (sh_offset st) (sh_size st))) (\<lambda>string_table.
              Some (Inr (aicore_kernels string_table sections))))))"

definition parse_kernel_names :: "string \<Rightarrow> string list checked" where
  "parse_kernel_names data =
     (let file_size = length data
      in bind_checked (lift_result (dj_host_assert (file_size \<ge> 64) ''invalid Ascend binary'')) (\<lambda>_.
         bind_checked (lift_read (memcpy_from data 0 64)) (\<lambda>hdr.
         let header = decode_ehdr hdr
         in bind_checked (lift_result (dj_host_assert (take 4 (e_ident header) = elf_magic) ''not an ELF file'')) (\<lambda>_.
            bind_checked (lift_result (dj_host_assert
              (of_char (e_ident header ! 4) = (2 :: nat) \<and> of_char (e_ident header ! 5) = (1 :: nat))
              ''unsupported ELF format'')) (\<lambda>_.
            bind_checked (lift_result (dj_host_assert (e_shentsize header = 64 \<and> e_shnum header > 0)
              ''invalid ELF section table'')) (\<lambda>_.
            let section_table_size = e_shnum header * 64
            in bind_checked (lift_result (dj_host_assert
                 (e_shoff header \<le> file_size \<and> section_table_size \<le> file_size - e_shoff header)
                 ''truncated ELF section table'')) (\<lambda>_.
               bind_checked (lift_read (memcpy_from data (e_shoff header) section_table_size)) (\<lambda>table.
               let sections = decode_sections table (e_shnum header)
               in if e_type header = 3 \<and> e_machine header = 183
                  then aicpu_names data sections
                  else aicore_names data header sections))))))))"

section \<open>Reads stay in bounds\<close>

lemma bind_checked_simps [simp, result_simps]:
  "bind_checked None f = None"
  "bind_checked (Some (Inl e)) f = Some (Inl e)"
  "bind_checked (Some (Inr x)) f = f x"
  "bind_checked (lift_result r) f = (case r of Inl e \<Rightarrow> Some (Inl e) | Inr x \<Rightarrow> f x)"
  "bind_checked (lift_read rd) f = (case rd of None \<Rightarrow> None | Some x \<Rightarrow> f x)"
  by (auto simp: bind_checked_def lift_result_def lift_read_def split: option.splits sum.splits)

lemma bind_checked_defined:
  "m \<noteq> None \<Longrightarrow> (\<And>x. m = Some (Inr x) \<Longrightarrow> f x \<noteq> None) \<Longrightarrow> bind_checked m f \<noteq> None"
  by (auto simp: bind_checked_def split: sum.splits)

lemma bind_assert_defined:
  "(c \<Longrightarrow> f () \<noteq> None) \<Longrightarrow> bind_checked (lift_result (dj_host_assert c m)) f \<noteq> None"
  by (cases c) simp_all

lemma bind_read_defined:
  "off + n \<le> length data \<Longrightarrow> (\<And>b. length b = n \<Longrightarrow> f b \<noteq> None) \<Longrightarrow>
   bind_checked (lift_read (memcpy_from data off n)) f \<noteq> None"
  by (simp add: memcpy_from_def)

lemma read_symbols_defined:
  "\<forall>off \<in> set offs. base + off + 24 \<le> length data \<Longrightarrow> read_symbols data names base offs acc \<noteq> None"
proof (induction offs arbitrary: acc)
  case (Cons off offs)
  show ?case
    unfolding read_symbols.simps
  proof (rule bind_read_defined)
    show "base + off + 24 \<le> length data" using Cons.prems by simp
  next
    fix b :: string assume "length b = 24"
    show "(let sym = decode_sym b
       in if \<not> exported_function sym then read_symbols data names base offs acc
          else bind_checked (lift_result (dj_host_assert (st_name sym < length names)
                   ''invalid AICPU ELF symbol name'')) (\<lambda>_.
            case c_string_at names (st_name sym) of
              None \<Rightarrow> Some (Inl (Assertion ''unterminated AICPU ELF symbol name''))
            | Some name \<Rightarrow> read_symbols data names base offs (acc @ [name]))) \<noteq> None"
      using Cons by (auto simp: Let_def dj_host_assert_def split: option.splits sum.splits)
  qed
qed simp

lemma symbol_offsets_bound:
  assumes "off \<in> set (symbol_offsets n)" and "n mod 24 = 0"
  shows "off + 24 \<le> n"
proof -
  obtain i where i: "off = 24 * i" "i < (n + 23) div 24"
    using assms(1) by (auto simp: symbol_offsets_def)
  obtain k where k: "n = 24 * k" using assms(2) by auto
  then have "(n + 23) div 24 = k" by simp
  with i k show ?thesis by simp
qed

lemma read_dynsyms_defined: "read_dynsyms data sections ss acc \<noteq> None"
proof (induction ss arbitrary: acc)
  case (Cons s ss)
  show ?case
  proof (cases "sh_type s = 11")
    case True
    have reads: "read_symbols data names (sh_offset s) (symbol_offsets (sh_size s)) acc \<noteq> None"
      if "sh_size s mod 24 = 0" "sh_offset s \<le> length data" "sh_size s \<le> length data - sh_offset s"
      for names
    proof (rule read_symbols_defined)
      show "\<forall>off \<in> set (symbol_offsets (sh_size s)). sh_offset s + off + 24 \<le> length data"
      proof
        fix off assume "off \<in> set (symbol_offsets (sh_size s))"
        then have "off + 24 \<le> sh_size s" using that(1) by (rule symbol_offsets_bound)
        with that(2,3) show "sh_offset s + off + 24 \<le> length data" by simp
      qed
    qed
    show ?thesis
      unfolding read_dynsyms.simps Let_def check_range_def
      by (subst if_not_P, simp add: True)
        ((rule bind_assert_defined)+, rule bind_read_defined, (elim conjE, linarith)[1],
          rule bind_checked_defined, (elim conjE, rule reads; assumption)[1], rule Cons.IH)
  qed (use Cons in simp)
qed simp

lemma aicore_names_defined: "aicore_names data header sections \<noteq> None"
  unfolding aicore_names_def Let_def
  by (intro bind_assert_defined bind_read_defined) auto

lemma aicpu_names_defined: "aicpu_names data sections \<noteq> None"
  unfolding aicpu_names_def by (rule bind_checked_defined[OF read_dynsyms_defined]) simp

lemma parse_kernel_names_defined: "parse_kernel_names data \<noteq> None"
  unfolding parse_kernel_names_def Let_def
  by (intro bind_assert_defined bind_read_defined)
    (auto simp: aicpu_names_defined aicore_names_defined simp del: not_None_eq bind_checked_simps)

section \<open>The names that are found\<close>

lemma set_to_std_set [simp]: "set (to_std_set xs) = set xs"
  by (simp add: to_std_set_def)

lemma sorted_to_std_set [simp]: "sorted (to_std_set xs)"
  by (simp add: to_std_set_def sorted_remdups_adj)

lemma sorted_remdups_adj_distinct: "sorted xs \<Longrightarrow> distinct (remdups_adj xs)"
  by (induction xs rule: remdups_adj.induct) auto

lemma distinct_to_std_set [simp]: "distinct (to_std_set xs)"
  by (simp add: to_std_set_def sorted_remdups_adj_distinct)

lemma strip_suffix_inj:
  "suffix suf s \<Longrightarrow> suffix suf t \<Longrightarrow>
   take (length s - length suf) s = take (length t - length suf) t \<Longrightarrow> s = t"
  by (auto simp: suffix_def)

lemma distinct_aicpu_kernels: "distinct symbols \<Longrightarrow> distinct (aicpu_kernels symbols)"
  by (auto simp: aicpu_kernels_def distinct_map inj_on_def intro: strip_suffix_inj)

lemma set_aicpu_kernels:
  "set (aicpu_kernels symbols) = {n. n \<in> set symbols \<and> n @ interface_suffix \<in> set symbols}"
proof -
  have "n \<in> set (aicpu_kernels symbols)"
    if "n \<in> set symbols" "n @ interface_suffix \<in> set symbols" for n
    using that unfolding aicpu_kernels_def
    by (auto simp: suffix_def intro!: image_eqI[of _ _ "n @ interface_suffix"])
  then show ?thesis by (auto simp: aicpu_kernels_def suffix_def)
qed

lemma aicore_kernels_to_std_set:
  "aicore_kernels table sections = to_std_set (List.map_filter (section_kernel table) sections)"
  by (simp add: aicore_kernels_def to_std_set_def)

lemma set_aicore_kernels:
  "set (aicore_kernels table sections) = {n. \<exists>s \<in> set sections. section_kernel table s = Some n}"
  by (force simp: aicore_kernels_to_std_set map_filter_def)

lemma bind_checked_Inr_iff:
  "bind_checked m f = Some (Inr y) \<longleftrightarrow> (\<exists>x. m = Some (Inr x) \<and> f x = Some (Inr y))"
  by (auto simp: bind_checked_def split: option.splits sum.splits)

lemma aicpu_names_Inr:
  "aicpu_names data sections = Some (Inr names) \<Longrightarrow>
   \<exists>symbols. read_dynsyms data sections sections [] = Some (Inr symbols) \<and>
             names = aicpu_kernels (to_std_set symbols)"
  by (auto simp: aicpu_names_def bind_checked_Inr_iff)

lemma aicore_names_Inr:
  "aicore_names data header sections = Some (Inr names) \<Longrightarrow> \<exists>table. names = aicore_kernels table sections"
  by (auto simp: aicore_names_def Let_def bind_checked_Inr_iff simp del: bind_checked_simps)

lemma parse_kernel_names_Inr:
  "parse_kernel_names data = Some (Inr names) \<Longrightarrow>
   \<exists>header sections. aicpu_names data sections = Some (Inr names)
                    \<or> aicore_names data header sections = Some (Inr names)"
  by (auto simp: parse_kernel_names_def Let_def bind_checked_Inr_iff simp del: bind_checked_simps
      split: if_splits)

lemma parse_kernel_names_distinct:
  "parse_kernel_names data = Some (Inr names) \<Longrightarrow> distinct names"
  by (auto dest!: parse_kernel_names_Inr aicpu_names_Inr aicore_names_Inr
      simp: distinct_aicpu_kernels aicore_kernels_to_std_set)

text \<open>The symbols of a table that the reader keeps: the exported, defined functions.\<close>

definition symbol_at :: "string \<Rightarrow> nat \<Rightarrow> elf64_sym" where
  "symbol_at data pos = decode_sym (take 24 (drop pos data))"

lemma read_symbols_names:
  "read_symbols data names base offs acc = Some (Inr out) \<Longrightarrow>
   set out = set acc \<union> {n. \<exists>off \<in> set offs. exported_function (symbol_at data (base + off))
                            \<and> c_string_at names (st_name (symbol_at data (base + off))) = Some n}"
proof (induction offs arbitrary: acc)
  case (Cons off offs)
  let ?sym = "symbol_at data (base + off)"
  show ?case
  proof (cases "exported_function ?sym")
    case False
    with Cons show ?thesis
      by (auto simp: memcpy_from_def symbol_at_def Let_def split: if_splits)
  next
    case True
    with Cons.prems obtain n where n: "c_string_at names (st_name ?sym) = Some n"
        "read_symbols data names base offs (acc @ [n]) = Some (Inr out)"
      by (auto simp: memcpy_from_def symbol_at_def Let_def dj_host_assert_def
          split: if_splits option.splits)
    from Cons.IH[OF n(2)] True n(1) show ?thesis by auto
  qed
qed simp

section \<open>The sections and the symbols of a binary\<close>

definition elf_header :: "string \<Rightarrow> elf64_ehdr" where
  "elf_header data = decode_ehdr (take 64 data)"

definition elf_sections :: "string \<Rightarrow> elf64_shdr list" where
  "elf_sections data =
     (let h = elf_header data
      in decode_sections (take (e_shnum h * 64) (drop (e_shoff h) data)) (e_shnum h))"

definition section_bytes :: "string \<Rightarrow> elf64_shdr \<Rightarrow> string" where
  "section_bytes data s = take (sh_size s) (drop (sh_offset s) data)"

definition is_aicpu_elf :: "elf64_ehdr \<Rightarrow> bool" where
  "is_aicpu_elf h \<longleftrightarrow> e_type h = 3 \<and> e_machine h = 183"

definition exported_names :: "string \<Rightarrow> elf64_shdr list \<Rightarrow> elf64_shdr list \<Rightarrow> string set" where
  "exported_names data sections ss =
     {n. \<exists>s \<in> set ss. sh_type s = 11 \<and> (\<exists>i < sh_size s div 24.
           exported_function (symbol_at data (sh_offset s + 24 * i)) \<and>
           c_string_at (section_bytes data (sections ! sh_link s))
             (st_name (symbol_at data (sh_offset s + 24 * i))) = Some n)}"

lemma exported_names_Cons:
  "exported_names data sections (s # ss) = exported_names data sections ss \<union>
     (if sh_type s = 11
      then {n. \<exists>i < sh_size s div 24. exported_function (symbol_at data (sh_offset s + 24 * i)) \<and>
              c_string_at (section_bytes data (sections ! sh_link s))
                (st_name (symbol_at data (sh_offset s + 24 * i))) = Some n}
      else {})"
  by (auto simp: exported_names_def)

lemma set_symbol_offsets:
  "n mod 24 = 0 \<Longrightarrow> set (symbol_offsets n) = (\<lambda>i. 24 * i) ` {i. i < n div 24}"
  by (auto simp: symbol_offsets_def elim!: dvdE)

lemma bind_assert_checked_iff:
  "bind_checked (lift_result (dj_host_assert c m)) f = Some (Inr y) \<longleftrightarrow> c \<and> f () = Some (Inr y)"
  by (cases c) simp_all

lemma bind_read_checked_iff:
  "bind_checked (lift_read (memcpy_from data off n)) f = Some (Inr y) \<longleftrightarrow>
     off + n \<le> length data \<and> f (take n (drop off data)) = Some (Inr y)"
  by (simp add: memcpy_from_def)

lemma read_dynsyms_names:
  "read_dynsyms data sections ss acc = Some (Inr out) \<Longrightarrow>
   set out = set acc \<union> exported_names data sections ss"
proof (induction ss arbitrary: acc)
  case (Cons s ss)
  show ?case
  proof (cases "sh_type s = 11")
    case True
    with Cons.prems obtain acc' where m: "sh_size s mod 24 = 0"
      and rs: "read_symbols data (section_bytes data (sections ! sh_link s)) (sh_offset s)
        (symbol_offsets (sh_size s)) acc = Some (Inr acc')"
      and rest: "read_dynsyms data sections ss acc' = Some (Inr out)"
      by (auto simp: Let_def check_range_def bind_assert_checked_iff bind_read_checked_iff
          bind_checked_Inr_iff[of "read_symbols _ _ _ _ _"] section_bytes_def simp del: bind_checked_simps)
    show ?thesis
      using Cons.IH[OF rest] read_symbols_names[OF rs] True
      by (auto simp: exported_names_Cons set_symbol_offsets[OF m])
  qed (use Cons in \<open>simp add: exported_names_Cons\<close>)
qed (simp add: exported_names_def)

lemma parse_kernel_names_dispatch:
  assumes "parse_kernel_names data = Some (Inr names)"
  shows "if is_aicpu_elf (elf_header data) then aicpu_names data (elf_sections data) = Some (Inr names)
    else aicore_names data (elf_header data) (elf_sections data) = Some (Inr names)"
  using assms
  by (auto simp: parse_kernel_names_def Let_def bind_assert_checked_iff bind_read_checked_iff
      elf_header_def elf_sections_def is_aicpu_elf_def simp del: bind_checked_simps split: if_splits)

text \<open>The string table that the section names of an AICore binary are in.\<close>

definition name_table :: "string \<Rightarrow> string" where
  "name_table data =
     (let h = elf_header data; sections = elf_sections data
      in section_bytes data (sections !
           (if e_shstrndx h = 65535 then sh_link (hd sections) else e_shstrndx h)))"

lemma aicore_names_table:
  "aicore_names data (elf_header data) (elf_sections data) = Some (Inr names) \<Longrightarrow>
   names = aicore_kernels (name_table data) (elf_sections data)"
  by (auto simp: aicore_names_def name_table_def section_bytes_def Let_def bind_assert_checked_iff
      bind_read_checked_iff simp del: bind_checked_simps)

definition only_asserts :: "'a checked \<Rightarrow> bool" where
  "only_asserts m \<longleftrightarrow> (\<forall>e. m = Some (Inl e) \<longrightarrow> (\<exists>w. e = Assertion w))"

lemma only_asserts_assert:
  "(c \<Longrightarrow> only_asserts (f ())) \<Longrightarrow> only_asserts (bind_checked (lift_result (dj_host_assert c m)) f)"
  by (cases c) (simp_all add: only_asserts_def dj_host_assert_def)

lemma only_asserts_read:
  "(\<And>b. only_asserts (f b)) \<Longrightarrow> only_asserts (bind_checked (lift_read r) f)"
  by (cases r) (simp_all add: only_asserts_def)

lemma only_asserts_bind:
  "only_asserts g \<Longrightarrow> (\<And>x. only_asserts (h x)) \<Longrightarrow> only_asserts (bind_checked g h)"
  by (auto simp: only_asserts_def bind_checked_def split: option.splits sum.splits)

lemma only_asserts_simps [simp]:
  "only_asserts (Some (Inr x))" "only_asserts (Some (Inl (Assertion w)))"
  by (simp_all add: only_asserts_def)

lemmas only_asserts_steps = only_asserts_assert only_asserts_read

lemma read_symbols_asserts: "only_asserts (read_symbols data names base offs acc)"
proof (induction offs arbitrary: acc)
  case (Cons off offs)
  have kept: "only_asserts (case c_string_at names n of
      None \<Rightarrow> Some (Inl (Assertion w)) | Some name \<Rightarrow> read_symbols data names base offs (acc @ [name]))" for n w
    using Cons by (simp split: option.split)
  show ?case
    unfolding read_symbols.simps Let_def
    by (rule only_asserts_read, split if_split, intro conjI impI, rule Cons, rule only_asserts_assert, rule kept)
qed simp

lemma read_dynsyms_asserts: "only_asserts (read_dynsyms data sections ss acc)"
proof (induction ss arbitrary: acc)
  case (Cons s ss)
  show ?case
    unfolding read_dynsyms.simps Let_def check_range_def
    by (split if_split, intro conjI impI, rule Cons)
      ((rule only_asserts_steps)+, rule only_asserts_bind, rule read_symbols_asserts, rule Cons)
qed simp

lemma aicpu_names_asserts: "only_asserts (aicpu_names data sections)"
  unfolding aicpu_names_def by (rule only_asserts_bind[OF read_dynsyms_asserts]) simp

lemma aicore_names_asserts: "only_asserts (aicore_names data header sections)"
  unfolding aicore_names_def Let_def by ((rule only_asserts_steps)+, simp)

lemma parse_kernel_names_asserts: "only_asserts (parse_kernel_names data)"
  unfolding parse_kernel_names_def Let_def
  by ((rule only_asserts_steps)+) (simp add: aicpu_names_asserts aicore_names_asserts)

section \<open>Properties\<close>


text \<open>C29: The names that are found are the right ones: for a shared AArch64 object the exported
  functions that have an exported companion with the suffix \<^verbatim>\<open>_interface\<close>, over all of
  its dynamic symbol tables; for any other binary, in ascending order, the names of its
  \<^verbatim>\<open>.ascend.meta\<close> sections without the suffix of a mixed kernel.\<close>

theorem kernel_names_exact:
  assumes "parse_kernel_names data = Some (Inr names)"
  shows "if is_aicpu_elf (elf_header data)
     then set names = {n. {n, n @ ''_interface''} \<subseteq> exported_names data (elf_sections data) (elf_sections data)}
     else sorted names \<and>
       set names = {n. \<exists>s \<in> set (elf_sections data). section_kernel (name_table data) s = Some n}"
proof (cases "is_aicpu_elf (elf_header data)")
  case True
  with parse_kernel_names_dispatch[OF assms] obtain symbols
    where rd: "read_dynsyms data (elf_sections data) (elf_sections data) [] = Some (Inr symbols)"
      and names: "names = aicpu_kernels (to_std_set symbols)"
    using aicpu_names_Inr[of data "elf_sections data" names] by auto
  show ?thesis
    using True read_dynsyms_names[OF rd] by (auto simp: names set_aicpu_kernels interface_suffix_def)
next
  case False
  with parse_kernel_names_dispatch[OF assms]
  have names: "names = aicore_kernels (name_table data) (elf_sections data)"
    using aicore_names_table by auto
  show ?thesis
    using False by (simp add: names set_aicore_kernels) (simp add: aicore_kernels_to_std_set)
qed

text \<open>A minimal AICore binary: the header, one section header and its string table.\<close>

definition demo_elf :: string where
  "demo_elf = elf_magic @ map char_of ([2, 1] @ replicate 34 0 @ [64 :: nat] @ replicate 17 0 @ [64, 0, 1, 0, 0, 0]) @
     map char_of (replicate 24 (0 :: nat) @ [128] @ replicate 7 0 @ [15] @ replicate 31 0) @
     ''.ascend.meta.k'' @ [char_of (0 :: nat)]"

lemma demo_header:
  "decode_ehdr (take 64 demo_elf) =
     \<lparr>e_ident = elf_magic @ map char_of [2, 1 :: nat] @ replicate 10 (char_of (0 :: nat)), e_type = 0, e_machine = 0,
      e_shoff = 64, e_shentsize = 64, e_shnum = 1, e_shstrndx = 0\<rparr>"
  by code_simp

lemma demo_table:
  "decode_sections (take 64 (drop 64 demo_elf)) 1 =
     [\<lparr>sh_name = 0, sh_type = 0, sh_offset = 128, sh_size = 15, sh_link = 0, sh_entsize = 0\<rparr>]"
  by code_simp

lemma demo_names: "take 15 (drop 128 demo_elf) = ''.ascend.meta.k'' @ [char_of (0 :: nat)]"
  by code_simp

lemma demo_kernels: "aicore_kernels (''.ascend.meta.k'' @ [char_of (0 :: nat)])
   [\<lparr>sh_name = 0, sh_type = 0, sh_offset = 128, sh_size = 15, sh_link = 0, sh_entsize = 0\<rparr>] = [''k'']"
  by code_simp

lemma demo_length: "length demo_elf = 143" by code_simp

lemma demo_parsed: "parse_kernel_names demo_elf = Some (Inr [''k''])"
  by (simp add: parse_kernel_names_def aicore_names_def memcpy_from_def demo_header
      demo_table[simplified] demo_names demo_kernels[simplified] demo_length
      elf_magic_def lift_result_def lift_read_def bind_checked_def)

theorem kernel_names_exact_witness:
  "\<exists>s \<in> set (elf_sections demo_elf). section_kernel (name_table demo_elf) s = Some ''k''"
proof -
  have aicore: "\<not> is_aicpu_elf (elf_header demo_elf)"
    by (simp add: is_aicpu_elf_def elf_header_def demo_header)
  note found = kernel_names_exact[OF demo_parsed, unfolded if_not_P[OF aicore], THEN conjunct2]
  have "''k'' \<in> set [''k'']" by simp
  then show ?thesis unfolding found mem_Collect_eq .
qed

end
