(* ===== verification/Aicpu_Abi.thy ===== *)
theory Aicpu_Abi
  imports Ascend_Elf
begin

text \<open>
  \<^verbatim>\<open>backend/ascend/aicpu/bootstrap_abi.hpp\<close>: the packets that the host and the loader on the
  device exchange, as records and as the bytes of their layout (little-endian, with the
  offsets that the \<^verbatim>\<open>static_assert\<close>s fix).
\<close>

abbreviation nul :: char where
  "nul \<equiv> CHR 0x00"

section \<open>Numbers as bytes\<close>

fun le_bytes :: "nat \<Rightarrow> nat \<Rightarrow> string" where
  "le_bytes 0 v = []"
| "le_bytes (Suc n) v = char_of (v mod 256) # le_bytes n (v div 256)"

lemma length_le_bytes [simp]: "length (le_bytes n v) = n"
  by (induction n arbitrary: v) simp_all

lemma le_nat_le_bytes: "v < 256 ^ n \<Longrightarrow> le_nat (le_bytes n v) = v"
proof (induction n arbitrary: v)
  case (Suc n)
  from Suc.prems have "v div 256 < 256 ^ n" by (simp add: less_mult_imp_div_less mult.commute)
  from Suc.IH[OF this] show ?case by simp
qed simp

lemma le_word64 [simp]: "word_of_nat (le_nat (le_bytes 8 (unat x))) = (x :: 64 word)"
proof -
  have "unat x < 256 ^ 8" using unsigned_less[of x] by simp
  from le_nat_le_bytes[OF this] show ?thesis by simp
qed

lemma le_word32 [simp]: "word_of_nat (le_nat (le_bytes 4 (unat x))) = (x :: 32 word)"
proof -
  have "unat x < 256 ^ 4" using unsigned_less[of x] by simp
  from le_nat_le_bytes[OF this] show ?thesis by simp
qed

section \<open>The packets\<close>

definition entry_symbol :: string where
  "entry_symbol = ''deep_jit_aicpu_loader_v1''"

datatype operation = Load | Invoke | Unload | RemoveBootstrap

fun operation_code :: "operation \<Rightarrow> 64 word" where
  "operation_code Load = 0"
| "operation_code Invoke = 1"
| "operation_code Unload = 2"
| "operation_code RemoveBootstrap = 3"

text \<open>What the device sees is any 64-bit number; \<open>None\<close> is none of the enumerators.\<close>

definition operation_of :: "64 word \<Rightarrow> operation option" where
  "operation_of c = (if c = 0 then Some Load else if c = 1 then Some Invoke
     else if c = 2 then Some Unload else if c = 3 then Some RemoveBootstrap else None)"

record request_header =
  hd_operation :: "64 word"
  hd_module :: "64 word"

record loader_request =
  req_header :: request_header
  req_image :: "64 word"
  req_image_size :: "64 word"
  req_result :: "64 word"
  req_symbol :: string

record loader_result =
  res_module :: "64 word"
  res_status :: "32 word"
  res_errno :: "32 word"
  res_message :: string

definition new_request :: "operation \<Rightarrow> 64 word \<Rightarrow> loader_request" where
  "new_request op m = \<lparr>req_header = \<lparr>hd_operation = operation_code op, hd_module = m\<rparr>,
     req_image = 0, req_image_size = 0, req_result = 0, req_symbol = replicate 128 nul\<rparr>"

definition new_result :: loader_result where
  "new_result = \<lparr>res_module = 0, res_status = 0, res_errno = 0, res_message = replicate 256 nul\<rparr>"

definition encode_header :: "request_header \<Rightarrow> string" where
  "encode_header h = le_bytes 8 (unat (hd_operation h)) @ le_bytes 8 (unat (hd_module h))"

definition decode_header :: "string \<Rightarrow> request_header" where
  "decode_header b = \<lparr>hd_operation = word_of_nat (le_field b 0 8), hd_module = word_of_nat (le_field b 8 8)\<rparr>"

text \<open>A request is aligned to 16 bytes, so eight bytes of padding end it.\<close>

definition encode_request :: "loader_request \<Rightarrow> string" where
  "encode_request r = encode_header (req_header r) @ le_bytes 8 (unat (req_image r)) @
     le_bytes 8 (unat (req_image_size r)) @ le_bytes 8 (unat (req_result r)) @ req_symbol r @ replicate 8 nul"

definition decode_request :: "string \<Rightarrow> loader_request" where
  "decode_request b = \<lparr>req_header = decode_header b, req_image = word_of_nat (le_field b 16 8),
     req_image_size = word_of_nat (le_field b 24 8), req_result = word_of_nat (le_field b 32 8),
     req_symbol = take 128 (drop 40 b)\<rparr>"

definition encode_result :: "loader_result \<Rightarrow> string" where
  "encode_result r = le_bytes 8 (unat (res_module r)) @ le_bytes 4 (unat (res_status r)) @
     le_bytes 4 (unat (res_errno r)) @ res_message r"

definition decode_result :: "string \<Rightarrow> loader_result" where
  "decode_result b = \<lparr>res_module = word_of_nat (le_field b 0 8), res_status = word_of_nat (le_field b 8 4),
     res_errno = word_of_nat (le_field b 12 4), res_message = take 256 (drop 16 b)\<rparr>"

section \<open>Character arrays\<close>

text \<open>The text of an array up to its first NUL.\<close>

definition c_text :: "string \<Rightarrow> string" where
  "c_text b = takeWhile (\<lambda>c. c \<noteq> nul) b"

text \<open>\<^verbatim>\<open>snprintf(a, n, "%s", s)\<close> into an array of \<open>n\<close> bytes that was zero.\<close>

definition put_text :: "nat \<Rightarrow> string \<Rightarrow> string" where
  "put_text n s = take (n - 1) s @ replicate (n - min (n - 1) (length s)) nul"

lemma length_put_text [simp]: "0 < n \<Longrightarrow> length (put_text n s) = n"
  by (simp add: put_text_def)

lemma c_text_put: "nul \<notin> set s \<Longrightarrow> 0 < n \<Longrightarrow> c_text (put_text n s) = take (n - 1) s"
  by (auto simp: c_text_def put_text_def takeWhile_append takeWhile_eq_all_conv[THEN iffD2] replicate_eq_replicate
      gr0_conv_Suc dest: in_set_takeD)

lemma operation_of_code [simp]: "operation_of (operation_code op) = Some op"
  by (cases op) (simp_all add: operation_of_def)

lemma decode_header_encode [simp]: "decode_header (encode_header h @ rest) = h"
  by (simp add: decode_header_def encode_header_def le_field_def)

lemma length_encode_header [simp]: "length (encode_header h) = 16"
  by (simp add: encode_header_def)

lemma decode_request_encode: "length (req_symbol rq) = 128 \<Longrightarrow> decode_request (encode_request rq) = rq"
  by (simp add: decode_request_def encode_request_def encode_header_def decode_header_def le_field_def)

lemma decode_result_encode: "length (res_message rs) = 256 \<Longrightarrow> decode_result (encode_result rs) = rs"
  by (simp add: decode_result_def encode_result_def le_field_def)

lemma length_encode_request: "length (req_symbol rq) = 128 \<Longrightarrow> length (encode_request rq) = 176"
  by (simp add: encode_request_def)

section \<open>Properties\<close>

text \<open>Host and device agree on the packets: what one side writes the other reads back,
  for requests and for results, a request starts with its header (so that the loader may look
  at the header alone, whatever follows it), and the sizes are those both sides assert.\<close>

theorem abi_round_trip:
  assumes "length (req_symbol rq) = 128" and "length (res_message rs) = 256"
  shows "decode_request (encode_request rq) = rq \<and> decode_result (encode_result rs) = rs \<and>
    decode_header (encode_request rq) = req_header rq \<and> decode_header (encode_header h @ rest) = h \<and>
    length (encode_header h) = 16 \<and> length (encode_request rq) = 176 \<and> length (encode_result rs) = 272"
proof -
  have "length (encode_result rs) = 272" using assms(2) by (simp add: encode_result_def)
  moreover have "decode_header (encode_request rq) = req_header rq" by (simp add: encode_request_def)
  ultimately show ?thesis
    using assms by (simp add: decode_request_encode decode_result_encode length_encode_request)
qed

theorem abi_round_trip_witness:
  "decode_request (encode_request (new_request Unload 7)) = new_request Unload 7 \<and>
   decode_result (encode_result new_result) = new_result"
  using abi_round_trip[of "new_request Unload 7" new_result] by (simp add: new_request_def new_result_def)

end
