(* ===== verification/Aicpu_Device.thy ===== *)
theory Aicpu_Device
  imports Aicpu_Abi Call_Log Alignment
begin

unbundle bit_operations_syntax

text \<open>
  \<^verbatim>\<open>backend/ascend/aicpu/bootstrap_device.hpp\<close>: the loader that runs in the AICPU scheduler
  process. It loads kernels from an image in host memory, invokes them, unloads them and
  removes its own file. The operating system of the device is an oracle, and so is what a
  kernel does when it is called.
\<close>

section \<open>The operating system of the device\<close>

datatype dev_call =
    New_module
  | Memfd_create
  | Write_fd int string
  | Dlopen string
  | Dlerror
  | Dlsym "64 word" string
  | Dlclose "64 word"
  | Close_memfd int
  | Dladdr
  | Unlink string
  | Call_entry "64 word" string

record dev_reply =
  rv :: int
  rptr :: "64 word"
  rtext :: "string option"
  rerrno :: int
  rthrew :: bool

type_synonym dev_api = "(dev_call, dev_reply) responder"

record dev_module =
  mod_fd :: int
  mod_library :: "64 word"
  mod_entry :: "64 word"

record device =
  dev_log :: "dev_call list"
  dev_errno :: int
  dev_modules :: "64 word \<rightharpoonup> dev_module"
  dev_published :: "(64 word \<times> string) list"

definition called :: "dev_api \<Rightarrow> dev_call \<Rightarrow> device \<Rightarrow> device" where
  "called E c d = d\<lparr>dev_log := dev_log d @ [c], dev_errno := rerrno (E (dev_log d) c)\<rparr>"

definition dev_ask :: "dev_api \<Rightarrow> dev_call \<Rightarrow> (device, dev_reply) stateful" where
  "dev_ask E c d = Some (Inr (E (dev_log d) c), called E c d)"

definition throw :: "string \<Rightarrow> ('s, 'a) stateful" where
  "throw m = give (Inl (Std_exception m))"

section \<open>Loading and unloading a module\<close>

text \<open>
  The write loop; \<open>rest\<close> is the image from the offset on. \<open>EINTR\<close> is 4. A loop that is
  interrupted more often than the given number of rounds is \<open>None\<close>.
\<close>

fun write_image :: "dev_api \<Rightarrow> nat \<Rightarrow> int \<Rightarrow> string \<Rightarrow> (device, unit) stateful" where
  "write_image E 0 fd rest d = (if rest = [] then Some (Inr (), d) else None)"
| "write_image E (Suc n) fd rest d =
     (if rest = [] then Some (Inr (), d)
      else let r = E (dev_log d) (Write_fd fd rest); d1 = called E (Write_fd fd rest) d
      in if rv r < 0 \<and> rerrno r = 4 then write_image E n fd rest d1
      else if rv r \<le> 0 then throw ''writing AICPU image failed'' d1
      else write_image E n fd (drop (nat (rv r)) rest) d1)"

text \<open>The destructor of \<^verbatim>\<open>Module\<close>.\<close>

definition delete_module :: "dev_api \<Rightarrow> dev_module \<Rightarrow> (device, unit) stateful" where
  "delete_module E m =
     bind_io (if mod_library m \<noteq> 0 then bind_io (dev_ask E (Dlclose (mod_library m))) (\<lambda>_. give (Inr ()))
              else give (Inr ())) (\<lambda>_.
     if mod_fd m \<ge> 0 then bind_io (dev_ask E (Close_memfd (mod_fd m))) (\<lambda>_. give (Inr ())) else give (Inr ()))"

text \<open>From the open library on: the symbol of the entry.\<close>

definition find_entry :: "dev_api \<Rightarrow> 64 word \<Rightarrow> string \<Rightarrow> (device, 64 word) stateful" where
  "find_entry E library symbol =
     bind_io (dev_ask E Dlerror) (\<lambda>_.
     bind_io (dev_ask E (Dlsym library symbol)) (\<lambda>sym.
     bind_io (dev_ask E Dlerror) (\<lambda>err.
     case rtext err of
       Some m \<Rightarrow> throw m
     | None \<Rightarrow> if rptr sym = 0 then throw ''AICPU entry is null'' else give (Inr (rptr sym)))))"

text \<open>From the complete file on: the library, its entry, and the module \<open>p\<close> made of them.\<close>

definition open_library :: "dev_api \<Rightarrow> 64 word \<Rightarrow> int \<Rightarrow> string \<Rightarrow> (device, 64 word) stateful" where
  "open_library E p fd symbol =
     bind_io (dev_ask E (Dlopen (''/proc/self/fd/'' @ show_int fd))) (\<lambda>l.
     if rptr l = 0
     then bind_io (dev_ask E Dlerror) (\<lambda>err. throw (case rtext err of Some t \<Rightarrow> t | None \<Rightarrow> []))
     else cleanup_io
       (bind_io (find_entry E (rptr l) symbol) (\<lambda>entry d.
        Some (Inr p, d\<lparr>dev_modules := (dev_modules d)(p \<mapsto> \<lparr>mod_fd = fd, mod_library = rptr l, mod_entry = entry\<rparr>)\<rparr>)))
       (bind_io (dev_ask E (Dlclose (rptr l))) (\<lambda>_. give (Inr ()))))"

text \<open>\<^verbatim>\<open>load\<close>; \<open>mem a n\<close> are the \<open>n\<close> bytes of host memory at \<open>a\<close>, as the device sees them.\<close>

definition load_module ::
  "dev_api \<Rightarrow> nat \<Rightarrow> (64 word \<Rightarrow> nat \<Rightarrow> string) \<Rightarrow> loader_request \<Rightarrow> (device, 64 word) stateful" where
  "load_module E n mem rq =
     bind_io (dev_ask E New_module) (\<lambda>m.
     if rptr m = 0 then throw ''std::bad_alloc'' else
     bind_io (dev_ask E Memfd_create) (\<lambda>f.
     if rv f < 0 then throw ''memfd_create failed'' else
     cleanup_io
       (bind_io (write_image E n (rv f) (mem (req_image rq) (unat (req_image_size rq)))) (\<lambda>_.
        open_library E (rptr m) (rv f) (c_text (req_symbol rq))))
       (bind_io (dev_ask E (Close_memfd (rv f))) (\<lambda>_. give (Inr ())))))"

text \<open>\<^verbatim>\<open>delete\<close> of a module pointer; a pointer that is not a live module is undefined behaviour.\<close>

definition unload_module :: "dev_api \<Rightarrow> 64 word \<Rightarrow> (device, unit) stateful" where
  "unload_module E p d =
     (if p = 0 then Some (Inr (), d)
      else case dev_modules d p of
        None \<Rightarrow> None
      | Some m \<Rightarrow> delete_module E m (d\<lparr>dev_modules := (dev_modules d)(p := None)\<rparr>))"

section \<open>Removing the deployed file\<close>

definition after_last_slash :: "string \<Rightarrow> string option" where
  "after_last_slash s =
     (if CHR ''/'' \<in> set s then Some (rev (takeWhile (\<lambda>c. c \<noteq> CHR ''/'') (rev s))) else None)"

text \<open>\<^verbatim>\<open>strncmp(a, b, n) == 0\<close> on texts without NUL.\<close>

definition same_start :: "nat \<Rightarrow> string \<Rightarrow> string \<Rightarrow> bool" where
  "same_start n a b \<longleftrightarrow> take n a = take n b"

definition bootstrap_name :: "string \<Rightarrow> bool" where
  "bootstrap_name path =
     (case after_last_slash path of None \<Rightarrow> False | Some name \<Rightarrow> same_start 17 name ''libdeep_jit_aicpu_'')"

definition remove_bootstrap :: "dev_api \<Rightarrow> (device, unit) stateful" where
  "remove_bootstrap E =
     bind_io (dev_ask E Dladdr) (\<lambda>r.
     case rtext r of
       None \<Rightarrow> throw ''cannot locate AICPU bootstrap''
     | Some path \<Rightarrow>
         if rv r = 0 then throw ''cannot locate AICPU bootstrap''
         else if \<not> bootstrap_name path then throw ''unexpected AICPU bootstrap path''
         else bind_io (dev_ask E (Unlink path)) (\<lambda>u.
           if rv u \<noteq> 0 \<and> rerrno u \<noteq> 2 then throw ''cannot remove AICPU bootstrap'' else give (Inr ())))"

section \<open>Publishing a result\<close>

text \<open>The cache line size of \<^verbatim>\<open>ctr_el0\<close>, and the addresses that are cleaned.\<close>

definition line_size :: "64 word \<Rightarrow> 64 word" where
  "line_size ctr = push_bit (unat (drop_bit 16 ctr AND 15)) 4"

fun lines_from :: "nat \<Rightarrow> 64 word \<Rightarrow> 64 word \<Rightarrow> 64 word \<Rightarrow> 64 word list" where
  "lines_from 0 line addr stop = []"
| "lines_from (Suc n) line addr stop = (if addr < stop then addr # lines_from n line (addr + line) stop else [])"

text \<open>272 bytes touch at most 69 lines of four bytes or more.\<close>

definition cleaned_lines :: "64 word \<Rightarrow> 64 word \<Rightarrow> 64 word list" where
  "cleaned_lines ctr start = lines_from 69 (line_size ctr) (start AND NOT (line_size ctr - 1)) (start + 272)"

definition publish :: "64 word \<Rightarrow> loader_result \<Rightarrow> device \<Rightarrow> device" where
  "publish out result d = d\<lparr>dev_published := dev_published d @ [(out, encode_result result)]\<rparr>"

section \<open>The entry of the loader\<close>

definition dispatch ::
  "dev_api \<Rightarrow> nat \<Rightarrow> (64 word \<Rightarrow> nat \<Rightarrow> string) \<Rightarrow> loader_request \<Rightarrow> (device, loader_result) stateful" where
  "dispatch E n mem rq =
     (case operation_of (hd_operation (req_header rq)) of
        Some Load \<Rightarrow> bind_io (load_module E n mem rq) (\<lambda>p. give (Inr (new_result\<lparr>res_module := p\<rparr>)))
      | Some Unload \<Rightarrow> bind_io (unload_module E (hd_module (req_header rq))) (\<lambda>_. give (Inr new_result))
      | Some RemoveBootstrap \<Rightarrow> bind_io (remove_bootstrap E) (\<lambda>_. give (Inr new_result))
      | _ \<Rightarrow> throw ''unknown AICPU loader operation'')"

definition failed_result :: "int \<Rightarrow> exn \<Rightarrow> loader_result" where
  "failed_result errno x = new_result\<lparr>res_status := 1, res_errno := word_of_int errno, res_message := put_text 256 (what x)\<rparr>"

text \<open>
  \<^verbatim>\<open>deep_jit_aicpu_loader_v1\<close> on the bytes of a packet. \<open>None\<close>: a read past the end of the
  packet, a dangling module pointer, or a loop that does not end.
\<close>

definition loader_v1 ::
  "dev_api \<Rightarrow> nat \<Rightarrow> (64 word \<Rightarrow> nat \<Rightarrow> string) \<Rightarrow> string \<Rightarrow> device \<Rightarrow> (32 word \<times> device) option" where
  "loader_v1 E n mem raw d =
     (if length raw < 16 then None
      else let h = decode_header raw
      in if operation_of (hd_operation h) = Some Invoke
      then (case dev_modules d (hd_module h) of
              None \<Rightarrow> None
            | Some m \<Rightarrow>
                (let c = Call_entry (mod_entry m) (drop 16 raw); r = E (dev_log d) c
                 in Some (if rthrew r then 1 else word_of_int (rv r), called E c d)))
      else if length raw < 176 then None
      else let rq = decode_request raw
      in case dispatch E n mem rq d of
           None \<Rightarrow> None
         | Some (Inr result, d1) \<Rightarrow> Some (0, publish (req_result rq) result d1)
         | Some (Inl x, d1) \<Rightarrow> Some (0, publish (req_result rq) (failed_result (dev_errno d1) x) d1))"

section \<open>What the loader holds\<close>

datatype dev_resource = Memfd int | Library "64 word"

fun dev_effect :: "dev_api \<Rightarrow> dev_call list \<Rightarrow> dev_call \<Rightarrow> dev_resource multiset \<Rightarrow> dev_resource multiset" where
  "dev_effect E pre Memfd_create R = (let fd = rv (E pre Memfd_create) in if fd < 0 then R else add_mset (Memfd fd) R)"
| "dev_effect E pre (Dlopen p) R = (let l = rptr (E pre (Dlopen p)) in if l = 0 then R else add_mset (Library l) R)"
| "dev_effect E pre (Dlclose l) R = R - {#Library l#}"
| "dev_effect E pre (Close_memfd fd) R = R - {#Memfd fd#}"
| "dev_effect E pre c R = R"

definition dev_held :: "dev_api \<Rightarrow> device \<Rightarrow> dev_resource multiset" where
  "dev_held E d = gather (dev_effect E) {#} (dev_log d)"

text \<open>What has been written to a descriptor since it was created.\<close>

fun data_effect :: "dev_api \<Rightarrow> int \<Rightarrow> dev_call list \<Rightarrow> dev_call \<Rightarrow> string \<Rightarrow> string" where
  "data_effect E fd pre Memfd_create s = (if rv (E pre Memfd_create) = fd then [] else s)"
| "data_effect E fd pre (Write_fd g t) s = (if g = fd then s @ take (nat (rv (E pre (Write_fd g t)))) t else s)"
| "data_effect E fd pre c s = s"

definition memfd_data :: "dev_api \<Rightarrow> int \<Rightarrow> device \<Rightarrow> string" where
  "memfd_data E fd d = gather (data_effect E fd) [] (dev_log d)"

lemma called_simps [simp]:
  "dev_held E (called E c d) = dev_effect E (dev_log d) c (dev_held E d)"
  "memfd_data E fd (called E c d) = data_effect E fd (dev_log d) c (memfd_data E fd d)"
  "dev_modules (called E c d) = dev_modules d"
  "dev_published (called E c d) = dev_published d"
  by (simp_all add: dev_held_def memfd_data_def called_def)

lemma modules_update_simps [simp]:
  "dev_held E (d\<lparr>dev_modules := m\<rparr>) = dev_held E d"
  "memfd_data E fd (d\<lparr>dev_modules := m\<rparr>) = memfd_data E fd d"
  by (simp_all add: dev_held_def memfd_data_def)

lemma bind_ask [simp]: "bind_io (dev_ask E c) f d = f (E (dev_log d) c) (called E c d)"
  by (simp add: bind_io_def dev_ask_def)

lemma throw_result [simp]: "throw m d = Some (r, d') \<longleftrightarrow> r = Inl (Std_exception m) \<and> d' = d"
  by (auto simp: throw_def give_def)

lemma cleanup_cases [consumes 1, case_names failed finished]:
  assumes "cleanup_io m h s = Some (r, s')"
  obtains x s1 q where "m s = Some (Inl x, s1)" "h s1 = Some (q, s')" "r = Inl x"
  | v where "m s = Some (Inr v, s')" "r = Inr v"
  using assms by (auto simp: cleanup_io_def split: option.splits sum.splits)

lemma write_image_spec:
  assumes "write_image E n fd rest d = Some (r, d')"
  shows "dev_held E d' = dev_held E d \<and> dev_modules d' = dev_modules d \<and>
    dev_published d' = dev_published d \<and> (r = Inr () \<longrightarrow> memfd_data E fd d' = memfd_data E fd d @ rest)"
  using assms
proof (induction n arbitrary: rest d)
  case (Suc n)
  let ?r = "E (dev_log d) (Write_fd fd rest)" and ?d1 = "called E (Write_fd fd rest) d"
  consider "rest = []" | "rest \<noteq> []" "rv ?r < 0" "rerrno ?r = 4" | "rest \<noteq> []" "\<not> (rv ?r < 0 \<and> rerrno ?r = 4)" "rv ?r \<le> 0"
    | "rest \<noteq> []" "rv ?r > 0" by fastforce
  then show ?case
  proof cases
    case 2
    with Suc.prems have "write_image E n fd rest ?d1 = Some (r, d')" by simp
    from Suc.IH[OF this] 2 show ?thesis by simp
  next
    case 4
    with Suc.prems have "write_image E n fd (drop (nat (rv ?r)) rest) ?d1 = Some (r, d')" by simp
    from Suc.IH[OF this] 4 show ?thesis by simp
  qed (use Suc.prems in auto)
qed (simp split: if_splits)

lemma find_entry_spec:
  assumes "find_entry E l symbol d = Some (r, d')"
  shows "dev_held E d' = dev_held E d \<and> dev_modules d' = dev_modules d \<and> dev_published d' = dev_published d \<and>
    memfd_data E fd d' = memfd_data E fd d \<and> (\<forall>p. r = Inr p \<longrightarrow> p \<noteq> 0)"
  using assms by (auto simp: find_entry_def give_def split: option.splits if_splits)

lemma open_library_spec:
  assumes "open_library E p fd symbol d = Some (r, d')"
  shows "dev_published d' = dev_published d \<and> memfd_data E fd d' = memfd_data E fd d \<and>
    (\<forall>x. r = Inl x \<longrightarrow> dev_held E d' = dev_held E d \<and> dev_modules d' = dev_modules d) \<and>
    (\<forall>q. r = Inr q \<longrightarrow> q = p \<and> (\<exists>l entry. l \<noteq> 0 \<and> entry \<noteq> 0 \<and> dev_held E d' = add_mset (Library l) (dev_held E d) \<and>
       dev_modules d' = (dev_modules d)(p \<mapsto> \<lparr>mod_fd = fd, mod_library = l, mod_entry = entry\<rparr>)))"
proof (cases "rptr (E (dev_log d) (Dlopen (''/proc/self/fd/'' @ show_int fd))) = 0")
  case True
  with assms show ?thesis by (auto simp: open_library_def)
next
  case False
  let ?c = "Dlopen (''/proc/self/fd/'' @ show_int fd)"
  let ?l = "rptr (E (dev_log d) ?c)" and ?d = "called E ?c d"
  from assms False have run: "cleanup_io
      (bind_io (find_entry E ?l symbol) (\<lambda>entry d.
        Some (Inr p, d\<lparr>dev_modules := (dev_modules d)(p \<mapsto> \<lparr>mod_fd = fd, mod_library = ?l, mod_entry = entry\<rparr>)\<rparr>)))
      (bind_io (dev_ask E (Dlclose ?l)) (\<lambda>_. give (Inr ()))) ?d = Some (r, d')" by (simp add: open_library_def)
  then show ?thesis
  proof (cases rule: cleanup_cases)
    case (failed x s1 q)
    then have "find_entry E ?l symbol ?d = Some (Inl x, s1)" by (auto elim: bind_io_cases)
    from find_entry_spec[OF this, of fd] failed(2,3) False show ?thesis by (auto simp: give_def)
  next
    case (finished v)
    from finished(1) obtain entry s1 where "find_entry E ?l symbol ?d = Some (Inr entry, s1)" and
      res: "v = p" "d' = s1\<lparr>dev_modules := (dev_modules s1)(p \<mapsto> \<lparr>mod_fd = fd, mod_library = ?l, mod_entry = entry\<rparr>)\<rparr>"
      by (auto elim!: bind_io_cases)
    from find_entry_spec[OF this(1), of fd] res finished(2) False show ?thesis by auto
  qed
qed

lemma load_module_spec:
  assumes "load_module E n mem rq d = Some (r, d')"
  shows "dev_published d' = dev_published d \<and>
    (\<forall>x. r = Inl x \<longrightarrow> dev_held E d' = dev_held E d \<and> dev_modules d' = dev_modules d) \<and>
    (\<forall>p. r = Inr p \<longrightarrow> (\<exists>m. p \<noteq> 0 \<and> dev_modules d' = (dev_modules d)(p \<mapsto> m) \<and> mod_entry m \<noteq> 0 \<and>
       mod_fd m \<ge> 0 \<and> mod_library m \<noteq> 0 \<and>
       dev_held E d' = dev_held E d + {#Memfd (mod_fd m), Library (mod_library m)#} \<and>
       memfd_data E (mod_fd m) d' = mem (req_image rq) (unat (req_image_size rq))))"
proof -
  let ?d1 = "called E New_module d"
  let ?p = "rptr (E (dev_log d) New_module)" and ?fd = "rv (E (dev_log ?d1) Memfd_create)" and ?d2 = "called E Memfd_create ?d1"
  let ?image = "mem (req_image rq) (unat (req_image_size rq))"
  consider "?p = 0" | "?fd < 0" | "?p \<noteq> 0" "?fd \<ge> 0" by fastforce
  then show ?thesis
  proof cases
    case 3
    with assms have "cleanup_io
       (bind_io (write_image E n ?fd ?image) (\<lambda>_. open_library E ?p ?fd (c_text (req_symbol rq))))
       (bind_io (dev_ask E (Close_memfd ?fd)) (\<lambda>_. give (Inr ()))) ?d2 = Some (r, d')"
      by (simp add: load_module_def)
    then show ?thesis
    proof (cases rule: cleanup_cases)
      case (failed x s1 q)
      from failed(1) have "dev_held E s1 = dev_held E ?d2 \<and> dev_modules s1 = dev_modules ?d2 \<and>
          dev_published s1 = dev_published ?d2"
      proof (cases rule: bind_io_cases)
        case threw
        from write_image_spec[OF threw(1)] show ?thesis by simp
      next
        case (went v w1)
        from write_image_spec[OF went(1)] open_library_spec[OF went(2)] show ?thesis by simp
      qed
      with failed(2,3) 3 show ?thesis by (auto simp: give_def)
    next
      case (finished v)
      from finished(1) obtain s1 where "write_image E n ?fd ?image ?d2 = Some (Inr (), s1)"
          "open_library E ?p ?fd (c_text (req_symbol rq)) s1 = Some (Inr v, d')"
        by (auto elim!: bind_io_Inr)
      from write_image_spec[OF this(1)] open_library_spec[OF this(2)] finished(2) 3 show ?thesis by auto
    qed
  qed (use assms in \<open>auto simp: load_module_def split: if_splits\<close>)
qed

lemma delete_module_spec:
  assumes "mod_library m \<noteq> 0" and "mod_fd m \<ge> 0"
  shows "\<exists>d'. delete_module E m d = Some (Inr (), d') \<and> dev_modules d' = dev_modules d \<and> dev_published d' = dev_published d \<and>
    dev_held E d' = dev_held E d - {#Memfd (mod_fd m), Library (mod_library m)#}"
  using assms by (simp add: delete_module_def bind_io_def dev_ask_def give_def diff_diff_add_mset[symmetric] add_mset_commute)

text \<open>The write loop ends when the interruptions do: every other round makes progress.\<close>

definition interruptions_end :: "dev_api \<Rightarrow> nat \<Rightarrow> bool" where
  "interruptions_end E N \<longleftrightarrow> (\<forall>log c. N \<le> length log \<longrightarrow> rerrno (E log c) \<noteq> 4)"

lemma write_image_returns:
  assumes "interruptions_end E N" and "N - length (dev_log d) + length rest \<le> n"
  shows "\<exists>r d'. write_image E n fd rest d = Some (r, d')"
  using assms(2)
proof (induction n arbitrary: rest d)
  case (Suc n)
  let ?r = "E (dev_log d) (Write_fd fd rest)" and ?d1 = "called E (Write_fd fd rest) d"
  have len: "length (dev_log ?d1) = Suc (length (dev_log d))" by (simp add: called_def)
  consider "rest = []" | "rest \<noteq> []" "rv ?r < 0" "rerrno ?r = 4" | "rest \<noteq> []" "\<not> (rv ?r < 0 \<and> rerrno ?r = 4)" "rv ?r \<le> 0"
    | "rest \<noteq> []" "rv ?r > 0" by fastforce
  then show ?case
  proof cases
    case 2
    then have "length (dev_log d) < N" using assms(1) by (metis interruptions_end_def not_le)
    with Suc.prems len have "N - length (dev_log ?d1) + length rest \<le> n" by auto
    from Suc.IH[OF this] 2 show ?thesis by simp
  next
    case 4
    then have "length (drop (nat (rv ?r)) rest) < length rest" by simp
    with Suc.prems len have "N - length (dev_log ?d1) + length (drop (nat (rv ?r)) rest) \<le> n" by linarith
    from Suc.IH[OF this] 4 show ?thesis by simp
  qed (auto simp: throw_def give_def)
qed simp

lemma open_library_returns: "\<exists>r d'. open_library E p fd symbol d = Some (r, d')"
  by (auto simp: open_library_def cleanup_io_def bind_io_def dev_ask_def find_entry_def throw_def give_def
      split: option.split sum.split)

lemma load_module_returns:
  assumes "interruptions_end E N"
    and "N + length (mem (req_image rq) (unat (req_image_size rq))) \<le> n"
  shows "\<exists>r d'. load_module E n mem rq d = Some (r, d')"
proof -
  let ?image = "mem (req_image rq) (unat (req_image_size rq))"
  have wrote: "\<exists>r d'. write_image E n fd ?image d = Some (r, d')" for fd d
    using write_image_returns[OF assms(1), where d = d and rest = "?image"] assms(2) by simp
  have body: "\<exists>r d'. bind_io (write_image E n fd ?image) (\<lambda>_. open_library E p fd symbol) d = Some (r, d')"
    for fd p symbol d
  proof -
    obtain q d1 where q: "write_image E n fd ?image d = Some (q, d1)" using wrote by blast
    show ?thesis using open_library_returns[of E p fd symbol d1] q by (cases q) (simp_all add: bind_io_def)
  qed
  show ?thesis
    using body[of "rv (E (dev_log (called E New_module d)) Memfd_create)" "rptr (E (dev_log d) New_module)"
        "c_text (req_symbol rq)" "called E Memfd_create (called E New_module d)"]
    by (auto simp: load_module_def cleanup_io_def throw_def give_def split: sum.split)
qed

section \<open>Properties\<close>

text \<open>C18: Loading a module on the device is all or nothing: a load that fails leaves no
  descriptor, no library and no module behind; one that succeeds holds exactly one of each,
  its file holds exactly the bytes of the image and its entry is not null, and unloading
  the module gives everything back.\<close>

theorem module_load_exact:
  assumes "load_module E n mem rq d = Some (r, d')"
  shows "(\<forall>x. r = Inl x \<longrightarrow> dev_held E d' = dev_held E d \<and> dev_modules d' = dev_modules d) \<and>
    (\<forall>p. r = Inr p \<longrightarrow> (\<exists>m d2. dev_modules d' = (dev_modules d)(p \<mapsto> m) \<and> mod_entry m \<noteq> 0 \<and>
       dev_held E d' = dev_held E d + {#Memfd (mod_fd m), Library (mod_library m)#} \<and>
       memfd_data E (mod_fd m) d' = mem (req_image rq) (unat (req_image_size rq)) \<and>
       unload_module E p d' = Some (Inr (), d2) \<and> dev_held E d2 = dev_held E d \<and>
       dev_modules d2 = (dev_modules d)(p := None)))"
proof (cases r)
  case (Inl x)
  with load_module_spec[OF assms] show ?thesis by simp
next
  case (Inr p)
  with load_module_spec[OF assms] obtain m where m: "p \<noteq> 0" "dev_modules d' = (dev_modules d)(p \<mapsto> m)"
      "mod_entry m \<noteq> 0" "mod_fd m \<ge> 0" "mod_library m \<noteq> 0"
      "dev_held E d' = dev_held E d + {#Memfd (mod_fd m), Library (mod_library m)#}"
      "memfd_data E (mod_fd m) d' = mem (req_image rq) (unat (req_image_size rq))" by blast
  obtain d2 where "unload_module E p d' = Some (Inr (), d2)" "dev_held E d2 = dev_held E d"
      "dev_modules d2 = (dev_modules d)(p := None)"
    using delete_module_spec[OF m(5,4), of E "d'\<lparr>dev_modules := (dev_modules d')(p := None)\<rparr>"] m(1,2,6)
    by (auto simp: unload_module_def)
  with Inr m show ?thesis by blast
qed

text \<open>A device on which every call succeeds.\<close>

definition demo_api :: dev_api where
  "demo_api log c = (case c of
     Write_fd fd s \<Rightarrow> \<lparr>rv = int (length s), rptr = 0, rtext = None, rerrno = 0, rthrew = False\<rparr>
   | Dladdr \<Rightarrow> \<lparr>rv = 1, rptr = 0, rtext = Some ''/lib/libdeep_jit_aicpu-7.so'', rerrno = 0, rthrew = False\<rparr>
   | Unlink p \<Rightarrow> \<lparr>rv = 0, rptr = 0, rtext = None, rerrno = 0, rthrew = False\<rparr>
   | _ \<Rightarrow> \<lparr>rv = 5, rptr = 9, rtext = None, rerrno = 0, rthrew = False\<rparr>)"

definition new_device :: device where
  "new_device = \<lparr>dev_log = [], dev_errno = 0, dev_modules = Map.empty, dev_published = []\<rparr>"

definition demo_request :: loader_request where
  "demo_request = (new_request Load 0)\<lparr>req_image := 4096, req_image_size := 3, req_symbol := ''f'' @ replicate 127 nul\<rparr>"

definition demo_device :: device where
  "demo_device = \<lparr>dev_log = [New_module, Memfd_create, Write_fd 5 ''eee'', Dlopen ''/proc/self/fd/5'', Dlerror, Dlsym 9 ''f'', Dlerror],
     dev_errno = 0, dev_modules = [9 \<mapsto> \<lparr>mod_fd = 5, mod_library = 9, mod_entry = 9\<rparr>], dev_published = []\<rparr>"

theorem module_load_exact_witness:
  "\<exists>d' d2. load_module demo_api (Suc (Suc 0)) (\<lambda>_ _. ''eee'') demo_request new_device = Some (Inr 9, d') \<and>
     dev_held demo_api d' = {#Memfd 5, Library 9#} \<and> memfd_data demo_api 5 d' = ''eee'' \<and>
     unload_module demo_api 9 d' = Some (Inr (), d2) \<and> dev_held demo_api d2 = {#}"
proof -
  have five: "show_int 5 = ''5''" by code_simp
  have run: "load_module demo_api (Suc (Suc 0)) (\<lambda>_ _. ''eee'') demo_request new_device = Some (Inr 9, demo_device)"
    by (simp add: load_module_def open_library_def find_entry_def demo_api_def demo_request_def new_device_def
        demo_device_def called_def cleanup_io_def give_def new_request_def c_text_def
        bind_io_def dev_ask_def five)
  have mods: "dev_modules demo_device = [9 \<mapsto> \<lparr>mod_fd = 5, mod_library = 9, mod_entry = 9\<rparr>]"
    by (simp add: demo_device_def)
  have "dev_held demo_api new_device = {#}" "dev_modules new_device = Map.empty"
    by (simp_all add: dev_held_def new_device_def)
  with mods module_load_exact[OF run] run show ?thesis by (auto dest!: fun_cong[where x = 9])
qed


lemma loader_v1_request:
  assumes "176 \<le> length raw" and "operation_of (hd_operation (decode_header raw)) \<noteq> Some Invoke"
  shows "loader_v1 E n mem raw d =
    (case dispatch E n mem (decode_request raw) d of
       None \<Rightarrow> None
     | Some (Inr result, d1) \<Rightarrow> Some (0, publish (req_result (decode_request raw)) result d1)
     | Some (Inl x, d1) \<Rightarrow> Some (0, publish (req_result (decode_request raw)) (failed_result (dev_errno d1) x) d1))"
  using assms by (simp add: loader_v1_def Let_def)

lemma unload_module_published:
  assumes "unload_module E p d = Some (r, d')"
  shows "dev_published d' = dev_published d \<and> (\<forall>x. r \<noteq> Inl x)"
  using assms
  by (auto simp: unload_module_def delete_module_def bind_io_def dev_ask_def give_def split: if_splits option.splits)

lemma unload_module_returns:
  assumes "p = 0 \<or> p \<in> dom (dev_modules d)"
  shows "\<exists>r d'. unload_module E p d = Some (r, d')"
  using assms
  by (auto simp: unload_module_def delete_module_def bind_io_def dev_ask_def give_def split: option.split)

lemma remove_bootstrap_spec:
  "\<exists>r d'. remove_bootstrap E d = Some (r, d') \<and> dev_published d' = dev_published d"
  by (auto simp: remove_bootstrap_def throw_def give_def split: option.split)

lemma dispatch_published:
  assumes "dispatch E n mem rq d = Some (r, d1)"
  shows "dev_published d1 = dev_published d \<and> (\<forall>res. r = Inr res \<longrightarrow> res_status res = 0 \<and> length (res_message res) = 256)"
proof (cases "operation_of (hd_operation (req_header rq))")
  case None
  with assms show ?thesis by (auto simp: dispatch_def)
next
  case (Some op)
  have new: "res_status new_result = 0" "length (res_message new_result) = 256" by (simp_all add: new_result_def)
  show ?thesis
  proof (cases op)
    case Load
    with assms Some have "bind_io (load_module E n mem rq) (\<lambda>p. give (Inr (new_result\<lparr>res_module := p\<rparr>))) d = Some (r, d1)"
      by (simp add: dispatch_def)
    then show ?thesis using new by (cases rule: bind_io_cases) (auto simp: give_def dest!: load_module_spec)
  next
    case Unload
    with assms Some have "bind_io (unload_module E (hd_module (req_header rq))) (\<lambda>_. give (Inr new_result)) d = Some (r, d1)"
      by (simp add: dispatch_def)
    then show ?thesis using new by (cases rule: bind_io_cases) (auto simp: give_def dest!: unload_module_published)
  next
    case RemoveBootstrap
    with assms Some have "bind_io (remove_bootstrap E) (\<lambda>_. give (Inr new_result)) d = Some (r, d1)"
      by (simp add: dispatch_def)
    then show ?thesis using new remove_bootstrap_spec[of E d]
      by (cases rule: bind_io_cases) (auto simp: give_def)
  qed (use assms Some in \<open>auto simp: dispatch_def\<close>)
qed

lemma dispatch_returns:
  assumes "hd_module (req_header rq) = 0 \<or> hd_module (req_header rq) \<in> dom (dev_modules d)"
    and "interruptions_end E N"
    and "N + length (mem (req_image rq) (unat (req_image_size rq))) \<le> n"
  shows "\<exists>r d1. dispatch E n mem rq d = Some (r, d1)"
proof -
  obtain r d1 where "load_module E n mem rq d = Some (r, d1)"
    using load_module_returns[where mem = mem and rq = rq, OF assms(2,3)] by blast
  moreover obtain r d1 where "unload_module E (hd_module (req_header rq)) d = Some (r, d1)"
    using unload_module_returns[OF assms(1)] by blast
  moreover obtain r d1 where "remove_bootstrap E d = Some (r, d1)"
    using remove_bootstrap_spec by blast
  ultimately show ?thesis
    by (auto simp: dispatch_def bind_io_def give_def throw_def split: option.split operation.split sum.split)
qed

lemma put_text_message: "take 255 s = take (min 255 (length s)) (put_text 256 s)"
  by (simp add: put_text_def min_def)

text \<open>C33: The loader never fails the task of the driver for an error of its own: for every
  request packet other than an invocation that names a live module (or none), it returns 0
  and publishes exactly one result of 272 bytes at the address the host gave, with status 0 if the
  operation succeeded, and otherwise status 1 with the text of the error (at most 255
  characters) and nothing left behind by a failed load.\<close>

theorem loader_reports:
  assumes "length raw \<ge> 176" and "operation_of (hd_operation (decode_header raw)) \<noteq> Some Invoke"
    and "hd_module (decode_header raw) = 0 \<or> hd_module (decode_header raw) \<in> dom (dev_modules d)"
    and "interruptions_end E N"
    and "N + length (mem (req_image (decode_request raw)) (unat (req_image_size (decode_request raw)))) \<le> n"
  shows "\<exists>r d1 res d2. dispatch E n mem (decode_request raw) d = Some (r, d1) \<and>
    loader_v1 E n mem raw d = Some (0, d2) \<and>
    dev_published d2 = dev_published d @ [(req_result (decode_request raw), encode_result res)] \<and>
    length (encode_result res) = 272 \<and>
    (\<forall>v. r = Inr v \<longrightarrow> res = v \<and> res_status res = 0) \<and>
    (\<forall>x. r = Inl x \<longrightarrow> res_status res = 1 \<and> take 255 (what x) = take (min 255 (length (what x))) (res_message res) \<and>
       (operation_of (hd_operation (decode_header raw)) = Some Load \<longrightarrow>
          dev_held E d2 = dev_held E d \<and> dev_modules d2 = dev_modules d))"
proof -
  let ?rq = "decode_request raw"
  have head: "req_header ?rq = decode_header raw" by (simp add: decode_request_def)
  from assms(3) have "\<exists>r d1. dispatch E n mem ?rq d = Some (r, d1)"
    unfolding head[symmetric] by (rule dispatch_returns[where mem = mem and rq = "decode_request raw", OF _ assms(4,5)])
  then obtain r d1 where run: "dispatch E n mem ?rq d = Some (r, d1)" by blast
  note pub = dispatch_published[OF run]
  show ?thesis
  proof (cases r)
    case (Inr v)
    have "dev_published (publish (req_result ?rq) v d1) = dev_published d @ [(req_result ?rq, encode_result v)]"
      using pub by (simp add: publish_def)
    moreover have "length (encode_result v) = 272" using pub Inr by (simp add: encode_result_def)
    ultimately show ?thesis
      using run Inr pub loader_v1_request[OF assms(1,2), of E n mem d] by (intro exI[of _ r] exI[of _ d1]) auto
  next
    case (Inl x)
    let ?res = "failed_result (dev_errno d1) x"
    let ?d2 = "publish (req_result ?rq) ?res d1"
    have res: "length (encode_result ?res) = 272" "res_status ?res = 1"
        "take 255 (what x) = take (min 255 (length (what x))) (res_message ?res)"
      by (simp_all add: encode_result_def failed_result_def put_text_message)
    have "dev_held E ?d2 = dev_held E d \<and> dev_modules ?d2 = dev_modules d"
      if "operation_of (hd_operation (decode_header raw)) = Some Load"
    proof -
      from run that Inl have "load_module E n mem ?rq d = Some (Inl x, d1)"
        by (auto simp: dispatch_def head give_def elim!: bind_io_cases)
      from load_module_spec[OF this] show ?thesis by (simp add: publish_def dev_held_def)
    qed
    moreover have "dev_published ?d2 = dev_published d @ [(req_result ?rq, encode_result ?res)]"
      using pub by (simp add: publish_def)
    moreover have "loader_v1 E n mem raw d = Some (0, ?d2)"
      using run Inl loader_v1_request[OF assms(1,2), of E n mem d] by simp
    ultimately show ?thesis using run Inl res by (intro exI[of _ r] exI[of _ d1] exI[of _ ?res] exI[of _ ?d2]) auto
  qed
qed

theorem loader_reports_witness:
  "\<exists>d2 res. loader_v1 demo_api 0 (\<lambda>_ _. []) (encode_request (new_request Unload 0)) new_device = Some (0, d2) \<and>
     dev_published d2 = [(0, encode_result res)] \<and> res_status res = 0"
proof -
  let ?raw = "encode_request (new_request Unload 0)"
  have len: "length (req_symbol (new_request Unload 0)) = 128" by (simp add: new_request_def)
  have rq: "decode_request ?raw = new_request Unload 0"
    using len by (simp add: decode_request_def encode_request_def encode_header_def decode_header_def le_field_def)
  have head: "hd_operation (decode_header ?raw) = 2" "hd_module (decode_header ?raw) = 0"
    by (simp_all add: encode_request_def new_request_def)
  have "length ?raw \<ge> 176" using len by (simp add: encode_request_def)
  moreover have "operation_of (hd_operation (decode_header ?raw)) \<noteq> Some Invoke" by (simp add: head operation_of_def)
  moreover have "hd_module (decode_header ?raw) = 0 \<or> hd_module (decode_header ?raw) \<in> dom (dev_modules new_device)"
    by (simp add: head)
  moreover have "interruptions_end demo_api 0"
    by (simp add: interruptions_end_def demo_api_def split: dev_call.split)
  moreover have "0 + length ((\<lambda>_ _. []) (req_image (decode_request ?raw)) (unat (req_image_size (decode_request ?raw))) :: string) \<le> 0"
    by simp
  ultimately obtain r d1 res d2 where w: "dispatch demo_api 0 (\<lambda>_ _. []) (decode_request ?raw) new_device = Some (r, d1)"
      "loader_v1 demo_api 0 (\<lambda>_ _. []) ?raw new_device = Some (0, d2)"
      "dev_published d2 = dev_published new_device @ [(req_result (decode_request ?raw), encode_result res)]"
      "\<forall>v. r = Inr v \<longrightarrow> res = v \<and> res_status res = 0"
    using loader_reports[of ?raw new_device demo_api 0 "\<lambda>_ _. []" 0] by blast
  have "r = Inr new_result"
    using w(1) unfolding rq by (simp add: dispatch_def new_request_def operation_of_def unload_module_def bind_io_def give_def)
  with w rq show ?thesis by (auto simp: new_device_def new_request_def)
qed

lemma lines_from_cover:
  assumes "0 < unat line" and "unat stop + unat line < 2 ^ 64" and "unat stop \<le> unat addr + n * unat line"
  shows "(\<forall>a. unat addr \<le> a \<and> a < unat stop \<longrightarrow>
      (\<exists>l \<in> set (lines_from n line addr stop). unat l \<le> a \<and> a < unat l + unat line)) \<and>
    (\<forall>l \<in> set (lines_from n line addr stop). unat addr \<le> unat l \<and> unat l < unat stop \<and> unat line dvd unat l - unat addr)"
  using assms(3)
proof (induction n arbitrary: addr)
  case (Suc n)
  show ?case
  proof (cases "addr < stop")
    case True
    then have less: "unat addr < unat stop" by (simp add: word_less_nat_alt)
    have step: "unat (addr + line) = unat addr + unat line"
      using unat_add_small[of addr line] assms(2) less by linarith
    have "unat stop \<le> unat (addr + line) + n * unat line" using Suc.prems step by simp
    note IH = Suc.IH[OF this]
    show ?thesis
    proof (intro conjI allI impI ballI)
      fix a assume a: "unat addr \<le> a \<and> a < unat stop"
      show "\<exists>l \<in> set (lines_from (Suc n) line addr stop). unat l \<le> a \<and> a < unat l + unat line"
      proof (cases "a < unat addr + unat line")
        case True
        with a \<open>addr < stop\<close> show ?thesis by auto
      next
        case False
        with a IH step obtain l where "l \<in> set (lines_from n line (addr + line) stop)" "unat l \<le> a" "a < unat l + unat line"
          by (metis not_le)
        with \<open>addr < stop\<close> show ?thesis by auto
      qed
    next
      fix l assume l: "l \<in> set (lines_from (Suc n) line addr stop)"
      with True consider "l = addr" | "l \<in> set (lines_from n line (addr + line) stop)" by auto
      then have "unat addr \<le> unat l \<and> unat l < unat stop \<and> unat line dvd unat l - unat addr"
      proof cases
        case 2
        with IH step have "unat addr + unat line \<le> unat l" "unat l < unat stop" "unat line dvd unat l - (unat addr + unat line)"
          by auto
        moreover from this(1) have "unat l - unat addr = (unat l - (unat addr + unat line)) + unat line" by simp
        ultimately show ?thesis by (metis add_leD1 dvd_add dvd_refl)
      qed (use less in simp)
      then show "unat addr \<le> unat l" "unat l < unat stop" "unat line dvd unat l - unat addr" by auto
    qed
  next
    case False
    then have "unat stop \<le> unat addr" by (simp add: word_less_nat_alt)
    with False show ?thesis by auto
  qed
qed simp

lemma line_size_power: "\<exists>j. 2 \<le> j \<and> j \<le> 17 \<and> line_size ctr = 2 ^ j \<and> line_size ctr - 1 = mask j \<and> unat (line_size ctr) = 2 ^ j"
proof -
  let ?k = "unat (drop_bit 16 ctr AND 15)"
  have "drop_bit 16 ctr AND 15 = take_bit 4 (drop_bit 16 ctr)"
    by (simp add: take_bit_eq_mask mask_eq_exp_minus_1)
  then have k: "?k < 16" by (simp add: unsigned_take_bit_eq take_bit_nat_less_exp[of 4, simplified])
  have eq: "line_size ctr = 2 ^ (?k + 2)" by (simp add: line_size_def push_bit_eq_mult power_add)
  moreover have "line_size ctr - 1 = mask (?k + 2)" by (simp add: eq mask_eq_decr_exp)
  moreover have "unat (line_size ctr) = 2 ^ (?k + 2)" unfolding eq using k by (intro unat_exp) simp
  ultimately show ?thesis using k by (intro exI[of _ "?k + 2"]) auto
qed

text \<open>Cleaning the cache lines covers the result: unless the result lies at the very end of the
  address space, every one of its 272 bytes is in a line that is cleaned, every cleaned address is
  aligned to the line size of the machine, and no line outside the result is touched.\<close>

theorem cleaned_lines_cover:
  assumes "unat start + 272 + 2 ^ 17 < 2 ^ 64"
  shows "(\<forall>a. unat start \<le> a \<and> a < unat start + 272 \<longrightarrow>
      (\<exists>l \<in> set (cleaned_lines ctr start). unat l \<le> a \<and> a < unat l + unat (line_size ctr))) \<and>
    (\<forall>l \<in> set (cleaned_lines ctr start). unat (line_size ctr) dvd unat l \<and>
      unat start < unat l + unat (line_size ctr) \<and> unat l < unat start + 272)"
proof -
  obtain j where j: "2 \<le> j" "j \<le> 17" "line_size ctr - 1 = mask j" "unat (line_size ctr) = 2 ^ j"
    using line_size_power by blast
  let ?a = "start AND NOT (mask j)"
  have a: "unat ?a = unat start div 2 ^ j * 2 ^ j" by (rule align_down)
  have rest: "unat start mod 2 ^ j < 2 ^ j" by simp
  have low: "unat ?a \<le> unat start" "unat start < unat ?a + 2 ^ j" "2 ^ j dvd unat ?a"
    using a rest div_mult_mod_eq[of "unat start" "2 ^ j"] by (linarith, linarith, simp)
  have stop: "unat (start + 272) = unat start + 272"
    using unat_add_small[of start 272] assms by simp
  have L: "(4 :: nat) \<le> 2 ^ j" "(2 :: nat) ^ j \<le> 2 ^ 17"
    using power_increasing[of 2 j "2 :: nat"] power_increasing[of j 17 "2 :: nat"] j by simp_all
  have room: "unat (start + 272) + unat (line_size ctr) < 2 ^ 64" using assms L j(4) stop by simp
  have "unat start + 272 \<le> unat ?a + 69 * 2 ^ j" using low L by linarith
  then have enough: "unat (start + 272) \<le> unat ?a + 69 * unat (line_size ctr)" using stop j(4) by simp
  have pos: "0 < unat (line_size ctr)" using j(4) by simp
  have "cleaned_lines ctr start = lines_from 69 (line_size ctr) ?a (start + 272)"
    by (simp only: cleaned_lines_def j(3))
  note cover = lines_from_cover[OF pos room enough, folded this, unfolded j(4) stop]
  show ?thesis unfolding j(4)
  proof (intro conjI allI impI ballI)
    fix a assume "unat start \<le> a \<and> a < unat start + 272"
    with cover low(1) show "\<exists>l \<in> set (cleaned_lines ctr start). unat l \<le> a \<and> a < unat l + 2 ^ j"
      by (meson le_trans)
  next
    fix l assume "l \<in> set (cleaned_lines ctr start)"
    with cover have l: "unat ?a \<le> unat l" "unat l < unat start + 272" "2 ^ j dvd unat l - unat ?a" by blast+
    then show "unat l < unat start + 272" "unat start < unat l + 2 ^ j" using low(2) by linarith+
    have "unat l = (unat l - unat ?a) + unat ?a" using l(1) by simp
    with l(3) low(3) show "2 ^ j dvd unat l" by (metis dvd_add)
  qed
qed

theorem cleaned_lines_cover_witness:
  "unat (64 :: 64 word) \<le> 100 \<and> (\<exists>l \<in> set (cleaned_lines 0x40000 64). unat l \<le> 100 \<and> 100 < unat l + unat (line_size 0x40000))"
  using cleaned_lines_cover[of 64 "0x40000"] by simp

text \<open>
  The check of the file name compares 17 of the 18 characters of its prefix: what it accepts
  is the prefix without the last underscore.
\<close>

lemma bootstrap_name_prefix:
  "bootstrap_name path \<longleftrightarrow> (\<exists>name. after_last_slash path = Some name \<and> prefix ''libdeep_jit_aicpu'' name)"
proof -
  have "same_start 17 name ''libdeep_jit_aicpu_'' \<longleftrightarrow> take 17 name = ''libdeep_jit_aicpu''" for name
    by (simp add: same_start_def)
  moreover have "take 17 name = ''libdeep_jit_aicpu'' \<longleftrightarrow> prefix ''libdeep_jit_aicpu'' name" for name
  proof
    assume "take 17 name = ''libdeep_jit_aicpu''"
    then show "prefix ''libdeep_jit_aicpu'' name" by (metis take_is_prefix)
  next
    assume "prefix ''libdeep_jit_aicpu'' name"
    then obtain rest where "name = ''libdeep_jit_aicpu'' @ rest" by (auto simp: prefix_def)
    then show "take 17 name = ''libdeep_jit_aicpu''" by simp
  qed
  ultimately show ?thesis by (simp add: bootstrap_name_def split: option.split)
qed

lemma bootstrap_name_short: "bootstrap_name ''/lib/libdeep_jit_aicpu.so'' \<and>
    \<not> prefix ''libdeep_jit_aicpu_'' ''libdeep_jit_aicpu.so''"
  by (simp add: bootstrap_name_def after_last_slash_def same_start_def)

end
