(* ===== verification/Aicpu_Bootstrap.thy ===== *)
theory Aicpu_Bootstrap
  imports Build_Tasks Ascend_Options Aicpu_Abi Call_Log Alignment
begin

text \<open>
  \<^verbatim>\<open>backend/ascend/aicpu/bootstrap.hpp\<close>: the host side of the AICPU loader. A kernel image is
  mapped and pinned for the device, the loader library is built once through the disk cache
  and deployed by a helper process, and requests are executed one at a time. The driver, and
  the \<^verbatim>\<open>mmap\<close> of the host, are a responder: their replies depend on all calls made before.
\<close>

section \<open>The driver and the state of the host\<close>

datatype npu_attribute = Attr_dyn_ubuf "32 word" | Attr_timeout "16 word"

datatype host_call =
    Get_device
  | Create_stream
  | Destroy_stream "64 word"
  | Synchronize_stream "64 word"
  | Synchronize_device
  | Acl_malloc nat
  | Acl_free "64 word"
  | Acl_memcpy "64 word" nat
  | Binary_from_file fpath
  | Binary_from_data string
  | Binary_unload "64 word"
  | Binary_function "64 word" string
  | Launch_args "64 word" int "64 word" "npu_attribute list option" string
  | Host_register "64 word" "64 word"
  | Host_pointer "64 word"
  | Host_unregister "64 word"
  | Mmap "64 word"
  | Munmap "64 word" "64 word"

text \<open>
  A reply is an error code (0 is success), a handle, pointer or number, and copied bytes; or
  the panic of a lazy function whose library is missing.
\<close>

datatype host_reply = Missing string | Reply int "64 word" string

text \<open>The bootstrap object; 0 is a null handle.\<close>

record bootstrap =
  directory :: fpath
  boot_binary :: "64 word"
  loader_handle :: "64 word"
  loader_stream :: "64 word"
  result_buffer :: "64 word"
  loader_healthy :: bool

record npu =
  host_log :: "host_call list"
  disk :: world
  cache :: disk_cache
  boot :: bootstrap

text \<open>How a child that packages and deploys the loader ends.\<close>

datatype helper_wait = Helper_interrupted | Helper_exited nat | Helper_signaled | Helper_wait_failed

record helper_replies =
  helper_actions_ok :: bool
  helper_redirect_ok :: bool
  helper_spawn_errno :: int
  helper_waits :: "helper_wait list"

text \<open>What comes from outside, and the texts that the other headers define.\<close>

record npu_host =
  api :: "(host_call, host_reply) responder"
  recent_message :: "int \<Rightarrow> string option"
  npu_shell :: shell
  npu_faults :: faults
  npu_cwd :: path
  npu_environ :: environ
  npu_depth :: nat
  npu_uuid :: "nat \<Rightarrow> nat \<Rightarrow> string"
  page_size :: int
  make_temp :: "world \<Rightarrow> fpath option \<times> world"
  remove_dir :: "fpath \<Rightarrow> world \<Rightarrow> world"
  run_helper :: "string list \<Rightarrow> world \<Rightarrow> helper_replies \<times> world"
  abi_text :: string
  device_text :: string
  helper_text :: string

definition asked :: "host_call \<Rightarrow> npu \<Rightarrow> npu" where
  "asked c s = s\<lparr>host_log := host_log s @ [c]\<rparr>"

definition host_ask :: "npu_host \<Rightarrow> host_call \<Rightarrow> (npu, int \<times> 64 word \<times> string) stateful" where
  "host_ask X c s =
     (case api X (host_log s) c of
        Missing m \<Rightarrow> Some (Inl (Panic m), asked c s)
      | Reply e v b \<Rightarrow> Some (Inr (e, v, b), asked c s))"

text \<open>\<^verbatim>\<open>DJ_ACL_CHECK\<close>\<close>

definition acl_checked :: "npu_host \<Rightarrow> host_call \<Rightarrow> string \<Rightarrow> (npu, 64 word \<times> string) stateful" where
  "acl_checked X c expression =
     bind_io (host_ask X c) (\<lambda>(e, v, b).
     bind_io (give (check_acl (recent_message X) e expression)) (\<lambda>_. give (Inr (v, b))))"

definition on_disk :: "'a comp \<Rightarrow> (npu, 'a) stateful" where
  "on_disk m s = map_option (\<lambda>(r, w). (r, s\<lparr>disk := w\<rparr>)) (m (disk s))"

definition on_boot :: "(bootstrap \<Rightarrow> bootstrap) \<Rightarrow> (npu, unit) stateful" where
  "on_boot f s = Some (Inr (), s\<lparr>boot := f (boot s)\<rparr>)"

section \<open>The image of a kernel\<close>

record kernel_image =
  img_host :: "64 word"
  img_device :: "64 word"
  img_length :: "64 word"
  img_mapped :: "64 word"
  img_registered :: bool

text \<open>\<^verbatim>\<open>release\<close>: pages that cannot be unregistered stay mapped.\<close>

definition release_image :: "npu_host \<Rightarrow> kernel_image \<Rightarrow> (npu, unit) stateful" where
  "release_image X im =
     swallow_io (bind_io (if img_registered im
                          then bind_io (host_ask X (Host_unregister (img_host im))) (\<lambda>(e, _). give (Inr (e = 0)))
                          else give (Inr True)) (\<lambda>ok.
       if ok \<and> img_host im \<noteq> 0
       then bind_io (host_ask X (Munmap (img_host im) (img_mapped im))) (\<lambda>_. give (Inr ()))
       else give (Inr ())))"

definition image_size_task :: "fpath \<Rightarrow> int prog" where
  "image_size_task p =
     Sys (Open_read p) (\<lambda>r. case r of
       R_ok \<Rightarrow> Sys (Stat p) (\<lambda>r. case r of
           R_stat (Some (File m d)) \<Rightarrow> Return (int (length d))
         | _ \<Rightarrow> Return (- 1))
     | _ \<Rightarrow> Raise (Assertion (''failed to open AICPU binary: '' @ show_path p)))"

definition image_read_task :: "fpath \<Rightarrow> nat \<Rightarrow> string prog" where
  "image_read_task p n =
     Sys (Read_file p) (\<lambda>r. case r of
       R_data d \<Rightarrow> if n \<le> length d then Return (take n d)
                   else Raise (Assertion (''failed to read AICPU binary: '' @ show_path p))
     | _ \<Rightarrow> Raise (Assertion (''failed to read AICPU binary: '' @ show_path p)))"

definition size_limits :: "int \<Rightarrow> int \<Rightarrow> string \<Rightarrow> unit result" where
  "size_limits n page p =
     bind_result (dj_host_assert (n > 0) (''empty or unreadable AICPU binary: '' @ p)) (\<lambda>_.
     bind_result (dj_host_assert (page > 0) ''cannot determine Host page size'') (\<lambda>_.
     dj_host_assert (n \<le> (2 ^ 64 - 1) - (page - 1) \<and> n \<le> 2 ^ 63 - 1)
       (''AICPU kernel image is too large: '' @ p)))"

definition mapped_length :: "64 word \<Rightarrow> 64 word \<Rightarrow> 64 word" where
  "mapped_length n page = (n + page - 1) div page * page"

text \<open>
  The constructor from the mapping on; the \<^verbatim>\<open>catch\<close> releases what the object holds at
  that point. The second component is what the mapping holds.
\<close>

definition fill_image :: "npu_host \<Rightarrow> fpath \<Rightarrow> nat \<Rightarrow> kernel_image \<Rightarrow> (npu, string) stateful" where
  "fill_image X p n im =
     bind_io (on_disk (here (npu_faults X) (image_read_task p n))) (\<lambda>data.
     bind_io (acl_checked X (Host_register (img_host im) (img_mapped im))
        ''driver::lazy_aclrtHostRegisterV2(host, mapped_length, ACL_HOST_REG_MAPPED | ACL_HOST_REG_PINNED)'') (\<lambda>_.
     give (Inr data)))"

definition point_image :: "npu_host \<Rightarrow> kernel_image \<Rightarrow> string \<Rightarrow> (npu, kernel_image \<times> string) stateful" where
  "point_image X im data =
     bind_io (acl_checked X (Host_pointer (img_host im)) ''driver::lazy_aclrtHostGetDevicePointer(host, &device, 0)'') (\<lambda>(dev, _).
     give (Inr (im\<lparr>img_device := dev\<rparr>, data)))"

definition pin_image :: "npu_host \<Rightarrow> fpath \<Rightarrow> nat \<Rightarrow> kernel_image \<Rightarrow> (npu, kernel_image \<times> string) stateful" where
  "pin_image X p n im =
     bind_io (cleanup_io (fill_image X p n im) (release_image X im)) (\<lambda>data.
       let im = im\<lparr>img_registered := True\<rparr>
       in cleanup_io (point_image X im data) (release_image X im))"

definition make_image :: "npu_host \<Rightarrow> fpath \<Rightarrow> (npu, kernel_image \<times> string) stateful" where
  "make_image X p =
     bind_io (on_disk (here (npu_faults X) (image_size_task p))) (\<lambda>n.
     bind_io (give (size_limits n (page_size X) (show_path p))) (\<lambda>_.
     let len = word_of_int n; mapped = mapped_length len (word_of_int (page_size X))
     in bind_io (host_ask X (Mmap mapped)) (\<lambda>(e, host, _).
     if e \<noteq> 0 then give (Inl (Assertion ''mmap AICPU image failed''))
     else pin_image X p (nat n)
       \<lparr>img_host = host, img_device = 0, img_length = len, img_mapped = mapped, img_registered = False\<rparr>)))"

section \<open>Requests\<close>

text \<open>\<^verbatim>\<open>execute\<close>: the loader counts as broken from the launch until the result has arrived.\<close>

definition run_request :: "npu_host \<Rightarrow> loader_request \<Rightarrow> (npu, loader_result) stateful" where
  "run_request X rq s =
     (let b = boot s; rq = rq\<lparr>req_result := result_buffer b\<rparr>
      in bind_io (on_boot (\<lambda>b. b\<lparr>loader_healthy := False\<rparr>)) (\<lambda>_.
         bind_io (acl_checked X (Launch_args (loader_handle b) 1 (loader_stream b) (Some [Attr_timeout 30]) (encode_request rq))
           ''driver::lazy_aclrtLaunchKernelWithHostArgs(loader_handle, 1, loader_stream, &config, &request, sizeof(request), nullptr, 0)'') (\<lambda>_.
         bind_io (acl_checked X (Synchronize_stream (loader_stream b)) ''driver::lazy_aclrtSynchronizeStream(loader_stream)'') (\<lambda>_.
         bind_io (acl_checked X (Acl_memcpy (result_buffer b) 272)
           ''driver::lazy_aclrtMemcpy(&result, sizeof(result), result_buffer, sizeof(result), ACL_MEMCPY_DEVICE_TO_HOST)'') (\<lambda>(_, bytes).
         bind_io (on_boot (\<lambda>b. b\<lparr>loader_healthy := True\<rparr>)) (\<lambda>_.
         give (Inr (decode_result bytes))))))) s)"

definition loader_error_text :: "loader_result \<Rightarrow> string" where
  "loader_error_text res = ''AICPU loader failed (errno '' @ show_int (sint (res_errno res)) @ ''): '' @ c_text (res_message res)"

definition execute :: "npu_host \<Rightarrow> loader_request \<Rightarrow> (npu, loader_result) stateful" where
  "execute X rq s =
     (if \<not> loader_healthy (boot s) then Some (Inl (Assertion ''AICPU loader is unavailable after an ACL failure''), s)
      else bind_io (run_request X rq) (\<lambda>res.
        let res = res\<lparr>res_message := take 255 (res_message res) @ [nul]\<rparr>
        in bind_io (give (dj_host_assert (res_status res = 0) (loader_error_text res))) (\<lambda>_. give (Inr res))) s)"

definition load_request :: "kernel_image \<Rightarrow> string \<Rightarrow> loader_request" where
  "load_request im symbol = (new_request Load 0)\<lparr>req_image := img_device im, req_image_size := img_length im,
     req_symbol := symbol @ replicate (128 - length symbol) nul\<rparr>"

text \<open>\<^verbatim>\<open>load\<close>: the image lives until the request is done.\<close>

definition boot_load :: "npu_host \<Rightarrow> fpath \<Rightarrow> string \<Rightarrow> (npu, 64 word) stateful" where
  "boot_load X p symbol =
     bind_io (give (dj_host_assert (length symbol < 128) ''AICPU entry name is too long'')) (\<lambda>_.
     bind_io (make_image X p) (\<lambda>(im, _).
     scoped_io (bind_io (execute X (load_request im symbol)) (\<lambda>res. give (Inr (res_module res)))) (release_image X im)))"

definition boot_unload :: "npu_host \<Rightarrow> 64 word \<Rightarrow> (npu, unit) stateful" where
  "boot_unload X m =
     bind_io (acl_checked X Synchronize_device ''driver::lazy_aclrtSynchronizeDevice()'') (\<lambda>_.
     bind_io (execute X (new_request Unload m)) (\<lambda>_. give (Inr ())))"

section \<open>Building the loader\<close>

definition loader_cache_tag :: string where
  "loader_cache_tag = ''aicpu_bootstrap''"

definition loader_flags :: string where
  "loader_flags = ''-std=c++17 -O2 -shared -fPIC -fvisibility=hidden -ldl''"

definition library_name :: string where
  "library_name = ''libdeep_jit_aicpu_loader.so''"

definition loader_digest :: "npu_host \<Rightarrow> string \<Rightarrow> string" where
  "loader_digest X version =
     get_hex_digest (update (update (update (update fnv_new loader_flags) (abi_text X)) (device_text X)) version)"

definition loader_command :: "path \<Rightarrow> fpath \<Rightarrow> string" where
  "loader_command compiler dir =
     join [compiler, ''-std=c++17'', ''-O2'', ''-shared'', ''-fPIC'', ''-fvisibility=hidden'',
           path_in dir ''loader.cpp'', ''-ldl'', ''-o'', path_in dir library_name] '' ''"

definition compile_loader :: "npu_host \<Rightarrow> path \<Rightarrow> fpath \<Rightarrow> unit comp" where
  "compile_loader X compiler dir =
     bind_io (on_iothread (npu_environ X) (npu_faults X)
        (bind_prog (write_file_sync (dir @ [''abi.hpp'']) (abi_text X) False) (\<lambda>_.
         write_file_sync (dir @ [''loader.cpp'']) (device_text X) False))) (\<lambda>_.
     bind_io (run_command (npu_shell X) (loader_command compiler dir)) (\<lambda>_.
     on_iothread (npu_environ X) (npu_faults X)
        (valid_output (dir @ [library_name]) ''loader compiler did not produce the AICPU bootstrap library'')))"

definition complete_entry :: "fpath \<Rightarrow> unit prog" where
  "complete_entry dir = bind_prog (is_regular_file (dir @ [library_name])) (\<lambda>regular.
     if regular then Return () else Raise (Assertion (''AICPU bootstrap cache entry is incomplete: '' @ show_path dir)))"

text \<open>The \<^verbatim>\<open>try\<close> block of the loop.\<close>

definition loader_attempt :: "npu_host \<Rightarrow> path \<Rightarrow> (fpath, unit) attempt" where
  "loader_attempt X compiler en dc u w =
     (if hit en
      then (case on_iothread (npu_environ X) (npu_faults X) (complete_entry (entry_path en)) w of
              None \<Rightarrow> None
            | Some (r, w1) \<Rightarrow> Some (bind_result r (\<lambda>_. Inr (entry_path en @ [library_name])), en, dc, u, w1))
      else (case compile_loader X compiler (entry_path en) w of
              None \<Rightarrow> None
            | Some (Inl x, w1) \<Rightarrow> Some (Inl x, en, dc, u, w1)
            | Some (Inr _, w1) \<Rightarrow>
            case commit (npu_environ X) False (npu_faults X) (npu_depth X) en w1 of
              None \<Rightarrow> None
            | Some (Inl x, en1, w2) \<Rightarrow> Some (Inl x, en1, dc, u, w2)
            | Some (Inr p, en1, w2) \<Rightarrow> Some (Inr (p @ [library_name]), en1, dc, u, w2)))"

definition find_loader_compiler :: "npu_host \<Rightarrow> path \<Rightarrow> path comp" where
  "find_loader_compiler X cann =
     (let compiler = path_append cann ''tools/hcc/bin/aarch64-target-linux-gnu-g++''
      in bind_io (here (npu_faults X) (is_executable (resolve (npu_cwd X) compiler))) (\<lambda>ok.
         bind_io (give (dj_host_assert ok
           (''AICPU bootstrap deployment failed: loader compiler is not executable: '' @ compiler))) (\<lambda>_.
         give (Inr compiler))))"

definition build_loader :: "npu_host \<Rightarrow> path \<Rightarrow> (npu, fpath) stateful" where
  "build_loader X cann =
     bind_io (on_disk (find_loader_compiler X cann)) (\<lambda>compiler.
     bind_io (on_disk (run_command (npu_shell X) (compiler @ '' --version''))) (\<lambda>version s.
     map_option (\<lambda>(r, dc, _, w). (r, s\<lparr>cache := dc, disk := w\<rparr>))
       (root_loop (npu_environ X) False (npu_faults X) (npu_depth X) (npu_uuid X) (loader_attempt X compiler)
          loader_cache_tag (loader_digest X version) 0 (cache s) () (disk s))))"

section \<open>Deploying the loader\<close>

text \<open>\<^verbatim>\<open>do ... while (waited < 0 and errno == EINTR)\<close>; \<open>None\<close> is a child that is still running.\<close>

fun wait_helper :: "helper_wait list \<Rightarrow> helper_wait option" where
  "wait_helper [] = None"
| "wait_helper (Helper_interrupted # ws) = wait_helper ws"
| "wait_helper (w # ws) = Some w"

definition helper_argv :: "npu_host \<Rightarrow> path \<Rightarrow> fpath \<Rightarrow> fpath \<Rightarrow> int \<Rightarrow> string list" where
  "helper_argv X cann dir loader device =
     [''python3'', path_in dir ''helper.py'', cann, show_path dir, show_path loader, show_int device, entry_symbol]"

definition deploy_loader :: "npu_host \<Rightarrow> path \<Rightarrow> fpath \<Rightarrow> fpath \<Rightarrow> int \<Rightarrow> unit comp" where
  "deploy_loader X cann dir loader device =
     bind_io (here (npu_faults X) (write_file_sync (dir @ [''helper.py'']) (helper_text X) False)) (\<lambda>_ w.
     let (rep, w1) = run_helper X (helper_argv X cann dir loader device) w
     in if \<not> helper_actions_ok rep then give (Inl (Assertion ''cannot initialize AICPU helper actions'')) w
     else if \<not> helper_redirect_ok rep then give (Inl (Assertion ''cannot redirect AICPU helper output'')) w
     else if helper_spawn_errno rep \<noteq> 0 then give (Inl (Assertion ''cannot start AICPU bootstrap helper'')) w
     else case wait_helper (helper_waits rep) of
       None \<Rightarrow> None
     | Some (Helper_exited 0) \<Rightarrow> Some (Inr (), w1)
     | Some _ \<Rightarrow>
         bind_io (here (npu_faults X) (read_file (dir @ [''deploy.log'']))) (\<lambda>log.
         give (Inl (Assertion (''AICPU bootstrap deployment failed:'' @ [CHR 0x0A] @ log)))) w1)"

section \<open>The bootstrap object\<close>

definition new_bootstrap :: "fpath \<Rightarrow> bootstrap" where
  "new_bootstrap dir = \<lparr>directory = dir, boot_binary = 0, loader_handle = 0, loader_stream = 0, result_buffer = 0,
     loader_healthy = True\<rparr>"

text \<open>One \<^verbatim>\<open>try { if (handle != nullptr) call; } catch (...) {}\<close>.\<close>

definition try_release :: "npu_host \<Rightarrow> (bootstrap \<Rightarrow> 64 word) \<Rightarrow> (64 word \<Rightarrow> host_call) \<Rightarrow> (npu, unit) stateful" where
  "try_release X field c s =
     (if field (boot s) \<noteq> 0 then swallow_io (bind_io (host_ask X (c (field (boot s)))) (\<lambda>_. give (Inr ()))) s
      else Some (Inr (), s))"

definition release_bootstrap :: "npu_host \<Rightarrow> (npu, unit) stateful" where
  "release_bootstrap X =
     bind_io (\<lambda>s. if loader_handle (boot s) \<noteq> 0 \<and> loader_healthy (boot s)
                  then swallow_io (bind_io (execute X (new_request RemoveBootstrap 0)) (\<lambda>_. give (Inr ()))) s
                  else Some (Inr (), s)) (\<lambda>_.
     bind_io (try_release X loader_stream Synchronize_stream) (\<lambda>_.
     bind_io (try_release X loader_stream Destroy_stream) (\<lambda>_.
     bind_io (try_release X result_buffer Acl_free) (\<lambda>_.
     bind_io (try_release X boot_binary Binary_unload) (\<lambda>_ s.
     Some (Inr (), s\<lparr>disk := remove_dir X (directory (boot s)) (disk s)\<rparr>))))))"

text \<open>The \<^verbatim>\<open>try\<close> block of the constructor: its end, and the whole.\<close>

definition register_loader :: "npu_host \<Rightarrow> (npu, unit) stateful" where
  "register_loader X s =
     bind_io (acl_checked X (Binary_from_file (directory (boot s) @ [''shadow'', ''conf'', ''bootstrap.json'']))
        ''driver::lazy_aclrtBinaryLoadFromFile(config.c_str(), &options, &binary_handle)'') (\<lambda>(v, _).
     bind_io (on_boot (\<lambda>b. b\<lparr>boot_binary := v\<rparr>)) (\<lambda>_.
     bind_io (acl_checked X (Binary_function v entry_symbol)
        ''driver::lazy_aclrtBinaryGetFunction(binary_handle, aicpu::entry, &loader_handle)'') (\<lambda>(h, _).
     on_boot (\<lambda>b. b\<lparr>loader_handle := h\<rparr>)))) s"

definition init_bootstrap :: "npu_host \<Rightarrow> path \<Rightarrow> int \<Rightarrow> (npu, unit) stateful" where
  "init_bootstrap X cann device =
     bind_io (acl_checked X Create_stream ''driver::lazy_aclrtCreateStream(&loader_stream)'') (\<lambda>(v, _).
     bind_io (on_boot (\<lambda>b. b\<lparr>loader_stream := v\<rparr>)) (\<lambda>_.
     bind_io (acl_checked X (Acl_malloc 272)
        ''driver::lazy_aclrtMalloc(&result_buffer, sizeof(aicpu::LoaderResult), ACL_MEM_MALLOC_HUGE_FIRST)'') (\<lambda>(v, _).
     bind_io (on_boot (\<lambda>b. b\<lparr>result_buffer := v\<rparr>)) (\<lambda>_.
     bind_io (build_loader X cann) (\<lambda>loader s.
     bind_io (on_disk (deploy_loader X cann (directory (boot s)) loader device)) (\<lambda>_. register_loader X) s)))))"

definition make_bootstrap :: "npu_host \<Rightarrow> path \<Rightarrow> (npu, unit) stateful" where
  "make_bootstrap X cann =
     bind_io (acl_checked X Get_device ''driver::lazy_aclrtGetDevice(&device)'') (\<lambda>(device, _) s.
     case make_temp X (disk s) of
       (None, w) \<Rightarrow> Some (Inl (Assertion ''cannot create AICPU bootstrap work directory''), s\<lparr>disk := w\<rparr>)
     | (Some dir, w) \<Rightarrow>
         cleanup_io (init_bootstrap X cann (sint device)) (release_bootstrap X)
           (s\<lparr>disk := w, boot := new_bootstrap dir\<rparr>))"

section \<open>What the host holds\<close>

datatype host_resource =
  Stream "64 word" | Buffer "64 word" | Binary "64 word" | Mapping "64 word" | Pinned "64 word"

definition acquires :: "npu_host \<Rightarrow> host_call list \<Rightarrow> host_call \<Rightarrow> (64 word \<Rightarrow> host_resource) \<Rightarrow>
    host_resource multiset \<Rightarrow> host_resource multiset" where
  "acquires X pre c kind R = (case api X pre c of Reply e v b \<Rightarrow> if e = 0 then add_mset (kind v) R else R | Missing m \<Rightarrow> R)"

text \<open>
  What a call adds to or takes from what the host has to give back. A destroying call
  counts even when it fails, since the code cannot try again; unregistering counts when
  it succeeds.
\<close>

fun host_effect :: "npu_host \<Rightarrow> host_call list \<Rightarrow> host_call \<Rightarrow> host_resource multiset \<Rightarrow> host_resource multiset" where
  "host_effect X pre Create_stream R = acquires X pre Create_stream Stream R"
| "host_effect X pre (Acl_malloc n) R = acquires X pre (Acl_malloc n) Buffer R"
| "host_effect X pre (Binary_from_file p) R = acquires X pre (Binary_from_file p) Binary R"
| "host_effect X pre (Binary_from_data d) R = acquires X pre (Binary_from_data d) Binary R"
| "host_effect X pre (Mmap n) R = acquires X pre (Mmap n) Mapping R"
| "host_effect X pre (Host_register h n) R = acquires X pre (Host_register h n) (\<lambda>_. Pinned h) R"
| "host_effect X pre (Destroy_stream v) R = R - {#Stream v#}"
| "host_effect X pre (Acl_free v) R = R - {#Buffer v#}"
| "host_effect X pre (Binary_unload v) R = R - {#Binary v#}"
| "host_effect X pre (Munmap h n) R = R - {#Mapping h#}"
| "host_effect X pre (Host_unregister h) R =
     (case api X pre (Host_unregister h) of Reply e v b \<Rightarrow> if e = 0 then R - {#Pinned h#} else R | Missing m \<Rightarrow> R)"
| "host_effect X pre c R = R"

definition host_held :: "npu_host \<Rightarrow> npu \<Rightarrow> host_resource multiset" where
  "host_held X s = gather (host_effect X) {#} (host_log s)"

text \<open>The documented behaviour of the driver: a call that succeeds does not return a null handle.\<close>

definition real_handles :: "npu_host \<Rightarrow> bool" where
  "real_handles X \<longleftrightarrow> (\<forall>pre c v b. api X pre c = Reply 0 v b \<longrightarrow>
     (case c of Create_stream \<Rightarrow> True | Acl_malloc n \<Rightarrow> True | Binary_from_file p \<Rightarrow> True | Binary_from_data d \<Rightarrow> True
      | Mmap n \<Rightarrow> True | _ \<Rightarrow> False) \<longrightarrow> v \<noteq> 0)"

section \<open>Lemmas\<close>

lemma asked_simps [simp]:
  "host_held X (asked c s) = host_effect X (host_log s) c (host_held X s)"
  "host_log (asked c s) = host_log s @ [c]" "disk (asked c s) = disk s" "cache (asked c s) = cache s"
  "boot (asked c s) = boot s"
  by (simp_all add: host_held_def asked_def)

lemma update_held [simp]:
  "host_held X (s\<lparr>disk := w\<rparr>) = host_held X s" "host_held X (s\<lparr>cache := dc\<rparr>) = host_held X s"
  "host_held X (s\<lparr>boot := b\<rparr>) = host_held X s"
  by (simp_all add: host_held_def)

text \<open>A call: it was answered with success or it was not.\<close>

definition granted :: "npu_host \<Rightarrow> npu \<Rightarrow> host_call \<Rightarrow> (64 word \<times> string) option" where
  "granted X s c = (case api X (host_log s) c of Reply e v b \<Rightarrow> if e = 0 then Some (v, b) else None | Missing m \<Rightarrow> None)"

definition acl_error :: "npu_host \<Rightarrow> npu \<Rightarrow> host_call \<Rightarrow> string \<Rightarrow> exn" where
  "acl_error X s c ex =
     (case api X (host_log s) c of Missing m \<Rightarrow> Panic m | Reply e v b \<Rightarrow> projl (check_acl (recent_message X) e ex))"

lemma bind_acl [simp]:
  "bind_io (acl_checked X c ex) f s =
     (case granted X s c of Some p \<Rightarrow> f p (asked c s) | None \<Rightarrow> Some (Inl (acl_error X s c ex), asked c s))"
  by (auto simp: acl_checked_def host_ask_def bind_io_def give_def granted_def check_acl_def acl_error_def
      split: host_reply.split)

lemma acl_checked_cases [consumes 1, case_names failed granted]:
  assumes "acl_checked X c ex s = Some (r, s')"
  obtains x where "granted X s c = None" "r = Inl x" "s' = asked c s"
  | v b where "granted X s c = Some (v, b)" "r = Inr (v, b)" "s' = asked c s"
  using assms
  by (auto simp: acl_checked_def host_ask_def bind_io_def give_def granted_def check_acl_def
      split: host_reply.splits if_splits)

lemma acl_checked_returns: "\<exists>r. acl_checked X c ex s = Some (r, asked c s)"
  by (auto simp: acl_checked_def host_ask_def bind_io_def give_def split: host_reply.split sum.split)

lemma host_ask_cases [consumes 1, case_names missing replied]:
  assumes "host_ask X c s = Some (r, s')"
  obtains m where "api X (host_log s) c = Missing m" "r = Inl (Panic m)" "s' = asked c s"
  | e v b where "api X (host_log s) c = Reply e v b" "r = Inr (e, v, b)" "s' = asked c s"
  using assms by (auto simp: host_ask_def split: host_reply.splits)

lemma acquires_granted:
  "acquires X (host_log s) c kind R = (case granted X s c of Some (v, b) \<Rightarrow> add_mset (kind v) R | None \<Rightarrow> R)"
  by (simp add: acquires_def granted_def split: host_reply.split)

text \<open>Calls that neither take nor give anything.\<close>

fun neutral :: "host_call \<Rightarrow> bool" where
  "neutral Get_device = True"
| "neutral (Synchronize_stream v) = True"
| "neutral Synchronize_device = True"
| "neutral (Acl_memcpy v n) = True"
| "neutral (Binary_function v n) = True"
| "neutral (Launch_args f n st cfg d) = True"
| "neutral (Host_pointer v) = True"
| "neutral c = False"

lemma neutral_effect [simp]: "neutral c \<Longrightarrow> host_effect X pre c R = R"
  by (cases c) auto

subsection \<open>Requests\<close>

lemma on_boot_eq [simp]: "on_boot f s = Some (Inr (), s\<lparr>boot := f (boot s)\<rparr>)"
  by (simp add: on_boot_def)

text \<open>The calls of a request, and what has happened when \<open>k\<close> of them were made.\<close>

definition request_calls :: "bootstrap \<Rightarrow> loader_request \<Rightarrow> host_call list" where
  "request_calls b rq = [Launch_args (loader_handle b) 1 (loader_stream b) (Some [Attr_timeout 30])
       (encode_request (rq\<lparr>req_result := result_buffer b\<rparr>)), Synchronize_stream (loader_stream b), Acl_memcpy (result_buffer b) 272]"

definition all_granted :: "npu_host \<Rightarrow> host_call list \<Rightarrow> host_call list \<Rightarrow> bool" where
  "all_granted X pre cs \<longleftrightarrow> (\<forall>i < length cs. \<exists>v b. api X (pre @ take i cs) (cs ! i) = Reply 0 v b)"

lemma granted_reply: "granted X s c = Some (v, b) \<longleftrightarrow> api X (host_log s) c = Reply 0 v b"
  by (auto simp: granted_def split: host_reply.splits if_splits)

lemma granted_None: "granted X s c = None \<longleftrightarrow> (\<forall>v b. api X (host_log s) c \<noteq> Reply 0 v b)"
  by (auto simp: granted_def split: host_reply.splits if_splits)

lemma bind_boot [simp]: "bind_io (on_boot f) g s = g () (s\<lparr>boot := f (boot s)\<rparr>)"
  by (simp add: bind_io_def)

lemma run_request_spec:
  assumes "run_request X rq s = Some (r, s')"
  shows "\<exists>k. 0 < k \<and> k \<le> 3 \<and> host_log s' = host_log s @ take k (request_calls (boot s) rq) \<and>
    host_held X s' = host_held X s \<and> disk s' = disk s \<and> cache s' = cache s \<and>
    boot s' = (boot s)\<lparr>loader_healthy := loader_healthy (boot s')\<rparr> \<and>
    (loader_healthy (boot s') \<longleftrightarrow> (\<exists>res. r = Inr res)) \<and>
    (loader_healthy (boot s') \<longleftrightarrow> all_granted X (host_log s) (request_calls (boot s) rq))"
proof -
  let ?b = "boot s" and ?s0 = "s\<lparr>boot := (boot s)\<lparr>loader_healthy := False\<rparr>\<rparr>"
  define c1 where "c1 = Launch_args (loader_handle ?b) 1 (loader_stream ?b) (Some [Attr_timeout 30])
       (encode_request (rq\<lparr>req_result := result_buffer ?b\<rparr>))"
  define c2 where "c2 = Synchronize_stream (loader_stream ?b)"
  define c3 where "c3 = Acl_memcpy (result_buffer ?b) 272"
  let ?s1 = "asked c1 ?s0" let ?s2 = "asked c2 ?s1"
  have calls: "request_calls ?b rq = [c1, c2, c3]" by (simp add: request_calls_def c1_def c2_def c3_def)
  have all: "all_granted X (host_log s) [c1, c2, c3] \<longleftrightarrow>
      granted X ?s0 c1 \<noteq> None \<and> granted X ?s1 c2 \<noteq> None \<and> granted X ?s2 c3 \<noteq> None"
    by (auto simp: all_granted_def granted_None numeral_3_eq_3 less_Suc_eq)
  have neutral: "neutral c1" "neutral c2" "neutral c3" by (simp_all add: c1_def c2_def c3_def)
  note run = assms[unfolded run_request_def Let_def, folded c1_def c2_def c3_def]
  show ?thesis
  proof (cases "granted X ?s0 c1")
    case None
    with run all calls neutral show ?thesis by (intro exI[of _ 1]) auto
  next
    case one: (Some p1)
    show ?thesis
    proof (cases "granted X ?s1 c2")
      case None
      with run one all calls neutral show ?thesis by (intro exI[of _ 2]) (auto simp: numeral_2_eq_2)
    next
      case two: (Some p2)
      show ?thesis
      proof (cases "granted X ?s2 c3")
        case None
        with run one two all calls neutral show ?thesis by (intro exI[of _ 3]) (auto simp: numeral_3_eq_3)
      next
        case (Some p3)
        with run one two all calls neutral show ?thesis
          by (intro exI[of _ 3]) (auto simp: numeral_3_eq_3 give_def split: prod.splits)
      qed
    qed
  qed
qed

lemma run_request_returns: "\<exists>r s'. run_request X rq s = Some (r, s')"
  by (auto simp: run_request_def Let_def give_def split: option.split prod.split)

lemma execute_returns: "\<exists>r s'. execute X rq s = Some (r, s')"
proof -
  obtain r s1 where "run_request X rq s = Some (r, s1)" using run_request_returns by blast
  then show ?thesis by (cases r) (auto simp: execute_def bind_io_def give_def Let_def split: sum.split)
qed

lemma execute_cases [consumes 1, case_names broken ran]:
  assumes "execute X rq s = Some (r, s')"
  obtains "\<not> loader_healthy (boot s)" "s' = s" "r = Inl (Assertion ''AICPU loader is unavailable after an ACL failure'')"
  | q where "loader_healthy (boot s)" "run_request X rq s = Some (q, s')"
    "\<forall>x. q = Inl x \<longrightarrow> r = Inl x"
    "\<forall>res. q = Inr res \<longrightarrow> (if res_status res = 0 then r = Inr (res\<lparr>res_message := take 255 (res_message res) @ [nul]\<rparr>)
       else r = Inl (Assertion (loader_error_text (res\<lparr>res_message := take 255 (res_message res) @ [nul]\<rparr>))))"
proof (cases "loader_healthy (boot s)")
  case False
  with assms have "s' = s" "r = Inl (Assertion ''AICPU loader is unavailable after an ACL failure'')"
    by (simp_all add: execute_def)
  with False show ?thesis by (rule that(1))
next
  case True
  with assms have run: "bind_io (run_request X rq) (\<lambda>res.
        let res = res\<lparr>res_message := take 255 (res_message res) @ [nul]\<rparr>
        in bind_io (give (dj_host_assert (res_status res = 0) (loader_error_text res))) (\<lambda>_. give (Inr res))) s = Some (r, s')"
    by (simp add: execute_def)
  then show ?thesis
  proof (cases rule: bind_io_cases)
    case (threw x)
    with True show ?thesis by (intro that(2)[of "Inl x"]) simp_all
  next
    case (went v w1)
    show ?thesis
    proof (cases "res_status v = 0")
      case status: True
      from went(2) have "r = Inr (v\<lparr>res_message := take 255 (res_message v) @ [nul]\<rparr>)" "s' = w1"
        by (simp_all add: Let_def status give_def)
      with True went(1) status show ?thesis by (intro that(2)[of "Inr v"]) simp_all
    next
      case status: False
      from went(2) have "r = Inl (Assertion (loader_error_text (v\<lparr>res_message := take 255 (res_message v) @ [nul]\<rparr>)))" "s' = w1"
        by (simp_all add: Let_def status give_def)
      with True went(1) status show ?thesis by (intro that(2)[of "Inr v"]) simp_all
    qed
  qed
qed

text \<open>A request gives nothing away and changes only the health of the loader.\<close>

lemma execute_frame:
  assumes "execute X rq s = Some (r, s')"
  shows "host_held X s' = host_held X s \<and> disk s' = disk s \<and> cache s' = cache s \<and>
    boot s' = (boot s)\<lparr>loader_healthy := loader_healthy (boot s')\<rparr>"
  using assms
proof (cases rule: execute_cases)
  case (ran q)
  from run_request_spec[OF ran(2)] show ?thesis by blast
qed simp

section \<open>Images\<close>

lemma on_disk_cases:
  assumes "on_disk m s = Some (r, s')"
  obtains w where "m (disk s) = Some (r, w)" "s' = s\<lparr>disk := w\<rparr>"
  using assms by (auto simp: on_disk_def)

definition leaked :: "64 word \<Rightarrow> host_resource multiset" where
  "leaked h = {#Mapping h, Pinned h#}"

lemma release_image_spec:
  assumes "img_host im \<noteq> 0"
  shows "\<exists>s'. release_image X im s = Some (Inr (), s') \<and> disk s' = disk s \<and> cache s' = cache s \<and> boot s' = boot s \<and>
    (if img_registered im
     then host_held X s' = host_held X s - leaked (img_host im) \<or> host_held X s' = host_held X s
     else host_held X s' = host_held X s - {#Mapping (img_host im)#})"
  using assms
  by (auto simp: release_image_def swallow_io_def bind_io_def host_ask_def give_def leaked_def diff_diff_add_mset[symmetric]
      split: host_reply.split sum.split prod.split)

lemma bind_disk [simp]:
  "bind_io (on_disk m) f s = (case m (disk s) of None \<Rightarrow> None
     | Some (Inl x, w) \<Rightarrow> Some (Inl x, s\<lparr>disk := w\<rparr>) | Some (Inr v, w) \<Rightarrow> f v (s\<lparr>disk := w\<rparr>))"
  by (simp add: bind_io_def on_disk_def split: option.split sum.split prod.split)

lemma bind_host_ask [simp]:
  "bind_io (host_ask X c) f s = (case api X (host_log s) c of
     Missing m \<Rightarrow> Some (Inl (Panic m), asked c s) | Reply e v b \<Rightarrow> f (e, v, b) (asked c s))"
  by (simp add: bind_io_def host_ask_def split: host_reply.split)

text \<open>From the mapping on: it is filled and pinned, then its address on the device is asked for.\<close>

lemma image_read_length: "exec F (image_read_task p n) w = (Returned d, w') \<Longrightarrow> length d = n"
  unfolding image_read_task_def by (drule exec_Read_file) (auto split: if_splits)

lemma fill_image_spec:
  assumes "fill_image X p n im s = Some (r, s')"
  shows "boot s' = boot s \<and> cache s' = cache s \<and>
    (\<forall>x. r = Inl x \<longrightarrow> host_held X s' = host_held X s) \<and>
    (\<forall>data. r = Inr data \<longrightarrow> length data = n \<and> host_held X s' = add_mset (Pinned (img_host im)) (host_held X s))"
proof -
  obtain q w where run: "here (npu_faults X) (image_read_task p n) (disk s) = Some (q, w)"
    using assms by (cases "here (npu_faults X) (image_read_task p n) (disk s)") (auto simp: fill_image_def)
  show ?thesis
  proof (cases q)
    case (Inl x)
    with assms run show ?thesis by (auto simp: fill_image_def)
  next
    case (Inr data)
    from image_read_length[OF here_Inr[OF run[unfolded Inr]]] have "length data = n" .
    with assms run Inr show ?thesis
      by (cases "granted X (s\<lparr>disk := w\<rparr>) (Host_register (img_host im) (img_mapped im))")
        (auto simp: fill_image_def give_def acquires_granted[of X "s\<lparr>disk := w\<rparr>", simplified])
  qed
qed

lemma real_mapping: "real_handles X \<Longrightarrow> api X pre (Mmap n) = Reply 0 v b \<Longrightarrow> v \<noteq> 0"
  by (fastforce simp: real_handles_def)

lemma point_image_spec:
  assumes "cleanup_io (point_image X im data) (release_image X im) s = Some (r, s')"
    and "img_registered im" and "img_host im \<noteq> 0" and "host_held X s = R + leaked (img_host im)"
  shows "boot s' = boot s \<and> cache s' = cache s \<and>
    (\<forall>x. r = Inl x \<longrightarrow> host_held X s' = R \<or> host_held X s' = R + leaked (img_host im)) \<and>
    (\<forall>im' d. r = Inr (im', d) \<longrightarrow> d = data \<and> img_registered im' \<and> img_host im' = img_host im \<and>
       img_length im' = img_length im \<and> host_held X s' = R + leaked (img_host im))"
  using assms(1)
proof (cases rule: cleanup_io_cases)
  case (failed x s1 q)
  from failed(1) have "s1 = asked (Host_pointer (img_host im)) s"
    by (auto simp: point_image_def give_def split: option.splits prod.splits)
  moreover obtain s2 where "release_image X im s1 = Some (Inr (), s2)" "cache s2 = cache s1" "boot s2 = boot s1"
      "host_held X s2 = host_held X s1 - leaked (img_host im) \<or> host_held X s2 = host_held X s1"
    using release_image_spec[of im X s1] assms(2,3) by auto
  ultimately show ?thesis using failed(2,3) assms(4) by auto
next
  case (finished v)
  from finished(1) have "s' = asked (Host_pointer (img_host im)) s" "\<exists>dev. v = (im\<lparr>img_device := dev\<rparr>, data)"
    by (auto simp: point_image_def give_def split: option.splits prod.splits)
  with finished(2) assms(2,4) show ?thesis by auto
qed

lemma pin_image_spec:
  assumes "pin_image X p n im s = Some (r, s')"
    and "\<not> img_registered im" and "img_host im \<noteq> 0" and "host_held X s = add_mset (Mapping (img_host im)) R"
  shows "boot s' = boot s \<and> cache s' = cache s \<and>
    (\<forall>x. r = Inl x \<longrightarrow> host_held X s' = R \<or> host_held X s' = R + leaked (img_host im)) \<and>
    (\<forall>im' data. r = Inr (im', data) \<longrightarrow> length data = n \<and> img_registered im' \<and> img_host im' = img_host im \<and>
       img_length im' = img_length im \<and> host_held X s' = R + leaked (img_host im))"
  using assms(1) unfolding pin_image_def
proof (cases rule: bind_io_cases)
  case (threw x)
  from threw(1) show ?thesis
  proof (cases rule: cleanup_io_cases)
    case (failed y s1 q)
    note spec = fill_image_spec[OF failed(1)]
    obtain s2 where "release_image X im s1 = Some (Inr (), s2)" "cache s2 = cache s1" "boot s2 = boot s1"
        "host_held X s2 = host_held X s1 - {#Mapping (img_host im)#}"
      using release_image_spec[of im X s1] assms(2,3) by auto
    with failed(2) spec threw(2) assms(4) show ?thesis by auto
  qed simp
next
  case (went data s1)
  from went(1) have "fill_image X p n im s = Some (Inr data, s1)" by (cases rule: cleanup_io_cases) auto
  note spec = fill_image_spec[OF this]
  then have held: "host_held X s1 = R + leaked (img_host (im\<lparr>img_registered := True\<rparr>))"
    using assms(4) by (simp add: leaked_def add_mset_commute)
  have im: "img_registered (im\<lparr>img_registered := True\<rparr>)" "img_host (im\<lparr>img_registered := True\<rparr>) \<noteq> 0"
    using assms(3) by simp_all
  from spec have data: "length data = n" "boot s1 = boot s" "cache s1 = cache s" by auto
  note point = point_image_spec[OF went(2)[unfolded Let_def] im held]
  show ?thesis
  proof (intro conjI allI impI)
    show "boot s' = boot s" "cache s' = cache s" using point data by metis+
  next
    fix x assume "r = Inl x"
    with point show "host_held X s' = R \<or> host_held X s' = R + leaked (img_host im)" by simp
  next
    fix im' d assume "r = Inr (im', d)"
    with point have "d = data \<and> img_registered im' \<and> img_host im' = img_host im \<and> img_length im' = img_length im \<and>
        host_held X s' = R + leaked (img_host im)" by simp
    with data show "length d = n" "img_registered im'" "img_host im' = img_host im" "img_length im' = img_length im"
      "host_held X s' = R + leaked (img_host im)" by simp_all
  qed
qed

lemma make_image_spec:
  assumes "make_image X p s = Some (r, s')" and "real_handles X"
  shows "boot s' = boot s \<and> cache s' = cache s \<and>
    (\<forall>x. r = Inl x \<longrightarrow> host_held X s' = host_held X s \<or> (\<exists>h. host_held X s' = host_held X s + leaked h)) \<and>
    (\<forall>im data. r = Inr (im, data) \<longrightarrow> img_registered im \<and> img_host im \<noteq> 0 \<and>
       0 < unat (img_length im) \<and> length data = unat (img_length im) \<and>
       host_held X s' = host_held X s + leaked (img_host im))"
proof -
  obtain q w where sized: "here (npu_faults X) (image_size_task p) (disk s) = Some (q, w)"
    using assms(1) by (cases "here (npu_faults X) (image_size_task p) (disk s)") (auto simp: make_image_def)
  note eq = assms(1)[unfolded make_image_def]
  consider x where "q = Inl x" | n x where "q = Inr n" "size_limits n (page_size X) (show_path p) = Inl x"
    | n where "q = Inr n" "size_limits n (page_size X) (show_path p) = Inr ()"
    by (metis (full_types) old.sum.exhaust old.unit.exhaust)
  then show ?thesis
  proof cases
    case (3 n)
    then have n: "0 < n" "n < 2 ^ 63" by (simp_all add: size_limits_def result_simps)
    let ?s0 = "s\<lparr>disk := w\<rparr>" and ?len = "word_of_int n :: 64 word"
    let ?mapped = "mapped_length ?len (word_of_int (page_size X))"
    have len: "unat ?len = nat n" using n by (intro unat_of_int) auto
    show ?thesis
    proof (cases "\<exists>h b. api X (host_log s) (Mmap ?mapped) = Reply 0 h b")
      case False
      with eq sized 3 show ?thesis
        by (auto simp: Let_def give_def acquires_def split: host_reply.splits if_splits)
    next
      case True
      then obtain h b where h: "api X (host_log s) (Mmap ?mapped) = Reply 0 h b" by blast
      let ?im = "\<lparr>img_host = h, img_device = 0, img_length = ?len, img_mapped = ?mapped, img_registered = False\<rparr>"
      have run: "pin_image X p (nat n) ?im (asked (Mmap ?mapped) ?s0) = Some (r, s')"
        using eq sized 3 h by (simp add: Let_def)
      have held: "host_held X (asked (Mmap ?mapped) ?s0) = add_mset (Mapping (img_host ?im)) (host_held X s)"
        using h by (simp add: acquires_def)
      have "h \<noteq> 0" by (rule real_mapping[OF assms(2) h])
      with pin_image_spec[OF run _ _ held] have
        "boot s' = boot s \<and> cache s' = cache s \<and>
         (\<forall>x. r = Inl x \<longrightarrow> host_held X s' = host_held X s \<or> host_held X s' = host_held X s + leaked h) \<and>
         (\<forall>im' data. r = Inr (im', data) \<longrightarrow> length data = nat n \<and> img_registered im' \<and> img_host im' = h \<and>
            img_length im' = ?len \<and> host_held X s' = host_held X s + leaked h)" by simp
      with len n \<open>h \<noteq> 0\<close> show ?thesis by auto
    qed
  qed (use eq sized in auto)
qed

text \<open>The length of the mapping: the limits that are checked keep the arithmetic from wrapping.\<close>

lemma mapped_length_exact:
  assumes "size_limits n page p = Inr ()"
  shows "unat (mapped_length (word_of_int n) (word_of_int page)) = round_up (nat page) (nat n) \<and>
    nat n \<le> round_up (nat page) (nat n) \<and> round_up (nat page) (nat n) < nat n + nat page \<and>
    nat page dvd round_up (nat page) (nat n)"
proof -
  from assms have n: "0 < n" "0 < page" "n \<le> 2 ^ 64 - 1 - (page - 1)" by (simp_all add: size_limits_def result_simps)
  let ?n = "word_of_int n :: 64 word" and ?p = "word_of_int page :: 64 word"
  have un: "unat ?n = nat n" "unat ?p = nat page" using n by (simp_all add: unat_of_int)
  have sum: "nat n + nat page \<le> 2 ^ 64" using n by (simp add: nat_add_distrib[symmetric])
  have "1 \<le> ?p" using n un by (simp add: word_le_nat_alt)
  then have pred: "unat (?p - 1) = nat page - 1" using un by (simp add: unat_sub)
  have "unat (?n + ?p - 1) = nat n + nat page - 1"
    using unat_add_small[of ?n "?p - 1"] sum un pred n by (simp add: algebra_simps)
  then have quot: "unat ((?n + ?p - 1) div ?p) = (nat n + nat page - 1) div nat page"
    by (simp add: unat_div un)
  have "(nat n + nat page - 1) div nat page * nat page \<le> nat n + nat page - 1" by simp
  then have "unat ((?n + ?p - 1) div ?p) * unat ?p < 2 ^ 64" using sum n unfolding quot un by linarith
  then have "unat (mapped_length ?n ?p) = round_up (nat page) (nat n)"
    unfolding mapped_length_def by (subst unat_mult_lem[THEN iffD1]) (simp_all add: quot un round_up_def)
  then show ?thesis using round_up_facts[of "nat page" "nat n"] n by simp
qed

section \<open>The bootstrap object\<close>

text \<open>What the handles of the object stand for.\<close>

definition owned :: "bootstrap \<Rightarrow> host_resource multiset" where
  "owned b = (if loader_stream b = 0 then {#} else {#Stream (loader_stream b)#}) +
     (if result_buffer b = 0 then {#} else {#Buffer (result_buffer b)#}) +
     (if boot_binary b = 0 then {#} else {#Binary (boot_binary b)#})"

lemma owned_healthy [simp]: "owned (b\<lparr>loader_healthy := x\<rparr>) = owned b"
  by (simp add: owned_def)

lemma try_release_spec:
  "\<exists>s'. try_release X f c s = Some (Inr (), s') \<and> boot s' = boot s \<and> cache s' = cache s \<and> disk s' = disk s \<and>
     host_held X s' = (if f (boot s) = 0 then host_held X s
                       else host_effect X (host_log s) (c (f (boot s))) (host_held X s))"
  by (auto simp: try_release_def swallow_io_def bind_io_def host_ask_def give_def split: host_reply.split)

lemma release_bootstrap_spec:
  assumes "host_held X s = R + owned (boot s)"
  shows "\<exists>s'. release_bootstrap X s = Some (Inr (), s') \<and> cache s' = cache s \<and> host_held X s' = R \<and>
    disk s' = remove_dir X (directory (boot s)) (disk s)"
proof -
  let ?remove = "\<lambda>s. if loader_handle (boot s) \<noteq> 0 \<and> loader_healthy (boot s)
      then swallow_io (bind_io (execute X (new_request RemoveBootstrap 0)) (\<lambda>_. give (Inr ()))) s else Some (Inr (), s)"
  obtain s1 where s1: "?remove s = Some (Inr (), s1)" "host_held X s1 = host_held X s" "cache s1 = cache s" "disk s1 = disk s"
      "\<exists>x. boot s1 = (boot s)\<lparr>loader_healthy := x\<rparr>"
  proof (cases "loader_handle (boot s) \<noteq> 0 \<and> loader_healthy (boot s)")
    case True
    obtain r s1 where run: "execute X (new_request RemoveBootstrap 0) s = Some (r, s1)" using execute_returns by blast
    from execute_frame[OF run] True that[of s1] run show ?thesis
      by (cases r) (auto simp: swallow_io_def bind_io_def give_def)
  next
    case False
    have "boot s = (boot s)\<lparr>loader_healthy := loader_healthy (boot s)\<rparr>" by simp
    then have "\<exists>x. boot s = (boot s)\<lparr>loader_healthy := x\<rparr>" by blast
    with False that[of s] show ?thesis by auto
  qed
  from s1(5) have fields: "loader_stream (boot s1) = loader_stream (boot s)" "result_buffer (boot s1) = result_buffer (boot s)"
    "boot_binary (boot s1) = boot_binary (boot s)" "directory (boot s1) = directory (boot s)" by auto
  obtain s2 where s2: "try_release X loader_stream Synchronize_stream s1 = Some (Inr (), s2)" "boot s2 = boot s1"
      "cache s2 = cache s1" "disk s2 = disk s1" "host_held X s2 = host_held X s1"
    using try_release_spec[of X loader_stream Synchronize_stream s1] by (auto split: if_splits)
  obtain s3 where s3: "try_release X loader_stream Destroy_stream s2 = Some (Inr (), s3)" "boot s3 = boot s1"
      "cache s3 = cache s1" "disk s3 = disk s1"
      "host_held X s3 = (if loader_stream (boot s1) = 0 then host_held X s1 else host_held X s1 - {#Stream (loader_stream (boot s1))#})"
    using try_release_spec[of X loader_stream Destroy_stream s2] s2 by auto
  obtain s4 where s4: "try_release X result_buffer Acl_free s3 = Some (Inr (), s4)" "boot s4 = boot s1"
      "cache s4 = cache s1" "disk s4 = disk s1"
      "host_held X s4 = (if result_buffer (boot s1) = 0 then host_held X s3 else host_held X s3 - {#Buffer (result_buffer (boot s1))#})"
    using try_release_spec[of X result_buffer Acl_free s3] s3 by auto
  obtain s5 where s5: "try_release X boot_binary Binary_unload s4 = Some (Inr (), s5)" "boot s5 = boot s1"
      "cache s5 = cache s1" "disk s5 = disk s1"
      "host_held X s5 = (if boot_binary (boot s1) = 0 then host_held X s4 else host_held X s4 - {#Binary (boot_binary (boot s1))#})"
    using try_release_spec[of X boot_binary Binary_unload s4] s4 by auto
  have "host_held X s5 = R"
    using s5(5) s4(5) s3(5) s1(2) assms fields by (simp add: owned_def)
  moreover have "release_bootstrap X s = Some (Inr (), s5\<lparr>disk := remove_dir X (directory (boot s5)) (disk s5)\<rparr>)"
    unfolding release_bootstrap_def by (simp add: bind_io_def s1(1) s2(1) s3(1) s4(1) s5(1))
  ultimately show ?thesis using s5 s1(3,4) fields by auto
qed

lemma build_loader_frame:
  assumes "build_loader X cann s = Some (r, s')"
  shows "host_held X s' = host_held X s \<and> boot s' = boot s \<and> host_log s' = host_log s"
  using assms
  by (auto simp: build_loader_def find_loader_compiler_def host_held_def split: option.splits sum.splits prod.splits)

lemma real_handle:
  assumes "real_handles X" and "granted X s c = Some (v, b)"
    and "c = Create_stream \<or> c = Acl_malloc n \<or> c = Binary_from_file p \<or> c = Binary_from_data d"
  shows "v \<noteq> 0"
  using assms(1,3) granted_reply[THEN iffD1, OF assms(2)] unfolding real_handles_def by fastforce

lemma register_loader_owns:
  assumes "register_loader X s = Some (r, s')" and "host_held X s = R + owned (boot s)" and "boot_binary (boot s) = 0"
    and "real_handles X"
  shows "host_held X s' = R + owned (boot s') \<and> cache s' = cache s \<and> loader_stream (boot s') = loader_stream (boot s) \<and>
    result_buffer (boot s') = result_buffer (boot s) \<and> (r = Inr () \<longrightarrow> boot_binary (boot s') \<noteq> 0)"
proof -
  let ?c = "Binary_from_file (directory (boot s) @ [''shadow'', ''conf'', ''bootstrap.json''])"
  show ?thesis
  proof (cases "granted X s ?c")
    case None
    with assms show ?thesis by (auto simp: register_loader_def acquires_granted)
  next
    case (Some p)
    then obtain v b where p: "granted X s ?c = Some (v, b)" by (cases p) auto
    from real_handle[OF assms(4) p] have v: "v \<noteq> 0" by blast
    let ?s1 = "(asked ?c s)\<lparr>boot := (boot s)\<lparr>boot_binary := v\<rparr>\<rparr>"
    have "host_held X ?s1 = R + owned (boot ?s1)"
      using assms(2,3) p v by (simp add: acquires_granted owned_def)
    moreover have "owned ((boot s)\<lparr>boot_binary := v, loader_handle := h\<rparr>) = owned ((boot s)\<lparr>boot_binary := v\<rparr>)" for h
      by (simp add: owned_def)
    ultimately show ?thesis
      using assms(1) p v
      by (cases "granted X ?s1 (Binary_function v entry_symbol)") (auto simp: register_loader_def split: prod.splits)
  qed
qed

lemma init_bootstrap_owns:
  assumes "init_bootstrap X cann device s = Some (r, s')"
    and "host_held X s = R" and "boot s = new_bootstrap dir" and "real_handles X"
  shows "host_held X s' = R + owned (boot s') \<and>
    (r = Inr () \<longrightarrow> loader_stream (boot s') \<noteq> 0 \<and> result_buffer (boot s') \<noteq> 0 \<and> boot_binary (boot s') \<noteq> 0)"
proof (cases "granted X s Create_stream")
  case None
  with assms show ?thesis by (auto simp: init_bootstrap_def acquires_granted new_bootstrap_def owned_def)
next
  case (Some p)
  then obtain v b where p: "granted X s Create_stream = Some (v, b)" by (cases p) auto
  from real_handle[OF assms(4) p] have v: "v \<noteq> 0" by blast
  let ?s1 = "(asked Create_stream s)\<lparr>boot := (boot s)\<lparr>loader_stream := v\<rparr>\<rparr>"
  have held1: "host_held X ?s1 = R + {#Stream v#}" using assms(2) p by (simp add: acquires_granted)
  show ?thesis
  proof (cases "granted X ?s1 (Acl_malloc 272)")
    case None
    with assms p v held1 show ?thesis
      by (auto simp: init_bootstrap_def acquires_granted[of X ?s1, simplified] new_bootstrap_def owned_def)
  next
    case (Some p)
    then obtain u d where q: "granted X ?s1 (Acl_malloc 272) = Some (u, d)" by (cases p) auto
    from real_handle[OF assms(4) q] have u: "u \<noteq> 0" by blast
    let ?s2 = "(asked (Acl_malloc 272) ?s1)\<lparr>boot := (boot ?s1)\<lparr>result_buffer := u\<rparr>\<rparr>"
    have "host_held X ?s2 = R + owned (boot ?s2)" and b2: "boot_binary (boot ?s2) = 0"
      using held1 q u v assms(3) by (simp_all add: acquires_granted[of X ?s1, simplified] new_bootstrap_def owned_def)
    note held2 = this(1)
    from assms(1) p q have run: "bind_io (build_loader X cann) (\<lambda>loader s.
        bind_io (on_disk (deploy_loader X cann (directory (boot s)) loader device)) (\<lambda>_. register_loader X) s) ?s2 = Some (r, s')"
      by (simp add: init_bootstrap_def)
    then show ?thesis
    proof (cases rule: bind_io_cases)
      case (threw x)
      from build_loader_frame[OF threw(1)] threw(2) held2 show ?thesis by simp
    next
      case (went loader s3)
      note frame = build_loader_frame[OF went(1)]
      from went(2) obtain w where
        "s' = s3\<lparr>disk := w\<rparr> \<and> (\<exists>x. r = Inl x) \<or> register_loader X (s3\<lparr>disk := w\<rparr>) = Some (r, s')"
        by (auto split: option.splits sum.splits prod.splits)
      then show ?thesis
      proof
        assume "s' = s3\<lparr>disk := w\<rparr> \<and> (\<exists>x. r = Inl x)"
        with frame held2 show ?thesis by auto
      next
        assume reg: "register_loader X (s3\<lparr>disk := w\<rparr>) = Some (r, s')"
        from register_loader_owns[OF reg _ _ assms(4), of R] frame held2 b2 u v show ?thesis by simp
      qed
    qed
  qed
qed

lemma make_bootstrap_owned:
  assumes "make_bootstrap X cann s = Some (r, s')" and "real_handles X"
  shows "(\<forall>x. r = Inl x \<longrightarrow> host_held X s' = host_held X s) \<and>
    (r = Inr () \<longrightarrow> host_held X s' = host_held X s + owned (boot s') \<and>
       loader_stream (boot s') \<noteq> 0 \<and> result_buffer (boot s') \<noteq> 0 \<and> boot_binary (boot s') \<noteq> 0)"
proof (cases "granted X s Get_device")
  case None
  with assms(1) show ?thesis by (auto simp: make_bootstrap_def)
next
  case (Some p)
  then obtain v b where p: "granted X s Get_device = Some (v, b)" by (cases p) auto
  obtain t w where t: "make_temp X (disk s) = (t, w)" by fastforce
  let ?s1 = "asked Get_device s"
  show ?thesis
  proof (cases t)
    case None
    with assms(1) p t show ?thesis by (auto simp: make_bootstrap_def)
  next
    case (Some dir)
    let ?s2 = "?s1\<lparr>disk := w, boot := new_bootstrap dir\<rparr>"
    have held2: "host_held X ?s2 = host_held X s" and boot2: "boot ?s2 = new_bootstrap dir" by simp_all
    from assms(1) p t Some have "cleanup_io (init_bootstrap X cann (sint v)) (release_bootstrap X) ?s2 = Some (r, s')"
      by (simp add: make_bootstrap_def)
    then show ?thesis
    proof (cases rule: cleanup_io_cases)
      case (failed x s3 q)
      from init_bootstrap_owns[OF failed(1) held2 boot2 assms(2)] have "host_held X s3 = host_held X s + owned (boot s3)" by simp
      from release_bootstrap_spec[OF this] failed(2,3) show ?thesis by auto
    next
      case (finished u)
      from init_bootstrap_owns[OF finished(1) held2 boot2 assms(2)] have
        held: "host_held X s' = host_held X s + owned (boot s')" and
        handles: "loader_stream (boot s') \<noteq> 0" "result_buffer (boot s') \<noteq> 0" "boot_binary (boot s') \<noteq> 0" by simp_all
      from held handles finished(2) show ?thesis by simp
    qed
  qed
qed

section \<open>Loading kernels\<close>

lemma boot_load_balance:
  assumes "boot_load X p symbol s = Some (r, s')" and "real_handles X"
  shows "cache s' = cache s \<and> boot s' = (boot s)\<lparr>loader_healthy := loader_healthy (boot s')\<rparr> \<and>
    (host_held X s' = host_held X s \<or> (\<exists>h. host_held X s' = host_held X s + leaked h))"
proof (cases "length symbol < 128")
  case False
  with assms show ?thesis by (simp add: boot_load_def)
next
  case True
  with assms have "bind_io (make_image X p) (\<lambda>(im, _).
     scoped_io (bind_io (execute X (load_request im symbol)) (\<lambda>res. give (Inr (res_module res)))) (release_image X im)) s =
     Some (r, s')" by (simp add: boot_load_def)
  then show ?thesis
  proof (cases rule: bind_io_cases)
    case (threw x)
    from make_image_spec[OF threw(1) assms(2)] threw(2) show ?thesis by simp
  next
    case (went v s1)
    obtain im data where v: "v = (im, data)" by (cases v)
    from make_image_spec[OF went(1) assms(2)] v have im: "boot s1 = boot s" "cache s1 = cache s"
        "img_registered im" "img_host im \<noteq> 0" "host_held X s1 = host_held X s + leaked (img_host im)" by simp_all
    obtain q s2 where ex: "execute X (load_request im symbol) s1 = Some (q, s2)" using execute_returns by blast
    note frame = execute_frame[OF ex]
    obtain s3 where rel: "release_image X im s2 = Some (Inr (), s3)" "cache s3 = cache s2" "boot s3 = boot s2"
        "host_held X s3 = host_held X s2 - leaked (img_host im) \<or> host_held X s3 = host_held X s2"
      using release_image_spec[OF im(4), of X s2] im(3) by auto
    from went(2) v ex rel(1) have "s' = s3"
      by (cases q) (auto simp: scoped_io_def bind_io_def give_def)
    moreover from frame im rel have "host_held X s3 = host_held X s \<or> host_held X s3 = host_held X s + leaked (img_host im)"
      by auto
    moreover from frame im(1) rel(3) have "boot s3 = (boot s)\<lparr>loader_healthy := loader_healthy (boot s3)\<rparr>" by simp
    ultimately show ?thesis using frame im(2) rel(2) by auto
  qed
qed

lemma boot_unload_frame:
  assumes "boot_unload X m s = Some (r, s')"
  shows "cache s' = cache s \<and> boot s' = (boot s)\<lparr>loader_healthy := loader_healthy (boot s')\<rparr> \<and>
    host_held X s' = host_held X s \<and> disk s' = disk s"
proof (cases "granted X s Synchronize_device")
  case None
  with assms show ?thesis by (simp add: boot_unload_def) auto
next
  case (Some p)
  let ?s1 = "asked Synchronize_device s"
  obtain q s2 where ex: "execute X (new_request Unload m) ?s1 = Some (q, s2)" using execute_returns by blast
  from assms Some have "bind_io (execute X (new_request Unload m)) (\<lambda>_. give (Inr ())) ?s1 = Some (r, s')"
    by (simp add: boot_unload_def)
  with ex have "s' = s2" by (cases q) (auto simp: bind_io_def give_def)
  with execute_frame[OF ex] show ?thesis by simp
qed

section \<open>The loader library\<close>

text \<open>The loop of \<^verbatim>\<open>build_loader\<close> is the one of the runtime, and its attempts keep the contract.\<close>

lemma complete_entry_keeps: "only keeps_names (complete_entry dir)"
  by (auto simp: complete_entry_def is_regular_file_def split: reply.split option.split node.split)

lemma loader_attempt_marks:
  assumes "loader_attempt X compiler en dc u w = Some (Inr v, en', dc', u', w')" and "placed en p w"
  shows "hit en' \<and> v = p @ [library_name] \<and> lookup (tree w') (p @ [kCommitFileName]) \<noteq> None"
proof (cases "hit en")
  case True
  with assms(1) have run: "on_iothread (npu_environ X) (npu_faults X) (complete_entry (entry_path en)) w = Some (Inr (), w')"
    and res: "v = entry_path en @ [library_name]" "en' = en"
    by (auto simp: loader_attempt_def result_simps split: option.splits)
  from exec_keeps_name[OF complete_entry_keeps on_iothread_exec[OF run]] assms(2) True res show ?thesis
    by (auto simp: placed_def)
next
  case False
  with assms(1) obtain w1 q where "commit (npu_environ X) False (npu_faults X) (npu_depth X) en w1 = Some (Inr q, en', w')"
      and v: "v = q @ [library_name]"
    by (auto simp: loader_attempt_def split: option.splits sum.splits)
  from commit_placed[OF this(1) False assms(2)] v show ?thesis by simp
qed

interpretation loader_root: root_attempt "loader_attempt X compiler" "\<lambda>v p. v = p @ [library_name]"
  for X compiler
  by unfold_locales (rule loader_attempt_marks)

section \<open>Properties\<close>

text \<open>C19: A failure of the driver takes the loader out of service for good, an error that the loader
  itself reports does not: a request to a loader that is out of service makes no call and changes
  nothing; otherwise the calls are a launch, a synchronisation and a copy in this order,
  ending at the first that fails, the loader stays in service exactly if all three succeed, and a result
  is returned only then, with status 0.\<close>

theorem execute_health:
  assumes "execute X rq s = Some (r, s')"
  shows "(\<not> loader_healthy (boot s) \<longrightarrow> s' = s \<and> (\<exists>x. r = Inl x)) \<and>
    (loader_healthy (boot s) \<longrightarrow>
      (\<exists>k. 0 < k \<and> k \<le> 3 \<and> host_log s' = host_log s @ take k (request_calls (boot s) rq)) \<and>
      (loader_healthy (boot s') \<longleftrightarrow> all_granted X (host_log s) (request_calls (boot s) rq)) \<and>
      (\<forall>res. r = Inr res \<longrightarrow> loader_healthy (boot s') \<and> res_status res = 0)) \<and>
    boot s' = (boot s)\<lparr>loader_healthy := loader_healthy (boot s')\<rparr>"
  using assms
proof (cases rule: execute_cases)
  case (ran q)
  from run_request_spec[OF ran(2)] ran(1,3,4) show ?thesis
    by (cases q) (auto split: if_splits)
qed auto

text \<open>A driver on which every call succeeds, and one on which none does.\<close>

definition willing_api :: "host_call list \<Rightarrow> host_call \<Rightarrow> host_reply" where
  "willing_api log c = Reply 0 9 (encode_result new_result)"

definition failing_api :: "host_call list \<Rightarrow> host_call \<Rightarrow> host_reply" where
  "failing_api log c = Reply 507 0 []"

definition demo_npu_host :: "(host_call list \<Rightarrow> host_call \<Rightarrow> host_reply) \<Rightarrow> npu_host" where
  "demo_npu_host A = \<lparr>api = A, recent_message = (\<lambda>_. None), npu_shell = (\<lambda>c w. (Inr ''g++'', w)), npu_faults = no_faults,
     npu_cwd = ''/'', npu_environ = slow_env, npu_depth = 3, npu_uuid = (\<lambda>_ _. ''u''), page_size = 4096,
     make_temp = (\<lambda>w. (Some [''t''], w)), remove_dir = (\<lambda>p w. w),
     run_helper = (\<lambda>args w. (\<lparr>helper_actions_ok = True, helper_redirect_ok = True, helper_spawn_errno = 0,
       helper_waits = [Helper_interrupted, Helper_exited 0]\<rparr>, w)),
     abi_text = [], device_text = [], helper_text = []\<rparr>"

definition demo_npu :: npu where
  "demo_npu = \<lparr>host_log = [], disk = \<lparr>tree = [], tick = 0\<rparr>, cache = two_roots,
     boot = (new_bootstrap [''t''])\<lparr>loader_handle := 5, loader_stream := 6, result_buffer := 7\<rparr>\<rparr>"

theorem execute_health_witness:
  "\<exists>r s'. execute (demo_npu_host failing_api) (new_request Unload 1) demo_npu = Some (r, s') \<and>
     \<not> loader_healthy (boot s') \<and> (\<exists>x. execute (demo_npu_host willing_api) (new_request Unload 1) s' = Some (Inl x, s'))"
proof -
  obtain r s' where run: "execute (demo_npu_host failing_api) (new_request Unload 1) demo_npu = Some (r, s')"
    using execute_returns by blast
  have "\<not> all_granted (demo_npu_host failing_api) (host_log demo_npu) (request_calls (boot demo_npu) (new_request Unload 1))"
    by (simp add: all_granted_def demo_npu_host_def failing_api_def request_calls_def) (rule exI[of _ 0], simp)
  moreover have "loader_healthy (boot demo_npu)" by (simp add: demo_npu_def new_bootstrap_def)
  ultimately have bad: "\<not> loader_healthy (boot s')" using execute_health[OF run] by blast
  obtain r2 s2 where run2: "execute (demo_npu_host willing_api) (new_request Unload 1) s' = Some (r2, s2)"
    using execute_returns by blast
  from execute_health[OF this] bad run run2 show ?thesis by blast
qed

text \<open>C32: The bootstrap object neither leaks nor frees twice: with a driver whose successful calls
  return real handles, a constructor that fails has given back every stream, buffer and
  binary it took; one that succeeds holds exactly one of each, and its destructor gives them back
  and removes the directory, whatever the driver answers.\<close>

theorem bootstrap_owns:
  assumes "make_bootstrap X cann s = Some (r, s')" and "real_handles X"
  shows "(\<forall>x. r = Inl x \<longrightarrow> host_held X s' = host_held X s) \<and>
    (r = Inr () \<longrightarrow> host_held X s' = host_held X s +
       {#Stream (loader_stream (boot s')), Buffer (result_buffer (boot s')), Binary (boot_binary (boot s'))#} \<and>
     (\<exists>s2. release_bootstrap X s' = Some (Inr (), s2) \<and> host_held X s2 = host_held X s \<and>
        disk s2 = remove_dir X (directory (boot s')) (disk s')))"
proof -
  note spec = make_bootstrap_owned[OF assms]
  show ?thesis
  proof (cases r)
    case (Inr u)
    with spec have held: "host_held X s' = host_held X s + owned (boot s')"
      and "owned (boot s') = {#Stream (loader_stream (boot s')), Buffer (result_buffer (boot s')), Binary (boot_binary (boot s'))#}"
      by (simp_all add: owned_def add_mset_commute)
    with release_bootstrap_spec[OF held] Inr show ?thesis by auto
  qed (use spec in simp)
qed

definition no_memory_api :: "host_call list \<Rightarrow> host_call \<Rightarrow> host_reply" where
  "no_memory_api log c = (case c of Acl_malloc n \<Rightarrow> Reply 207 0 [] | _ \<Rightarrow> willing_api log c)"

lemma no_memory_real: "real_handles (demo_npu_host no_memory_api)"
  by (simp add: real_handles_def demo_npu_host_def no_memory_api_def willing_api_def split: host_call.split)

theorem bootstrap_owns_witness:
  "\<exists>x s'. make_bootstrap (demo_npu_host no_memory_api) ''/c'' demo_npu = Some (Inl x, s') \<and>
     host_held (demo_npu_host no_memory_api) s' = {#} \<and> Create_stream \<in> set (host_log s')"
proof -
  let ?X = "demo_npu_host no_memory_api"
  have "\<exists>x s'. make_bootstrap ?X ''/c'' demo_npu = Some (Inl x, s') \<and> Create_stream \<in> set (host_log s')"
    by (simp add: make_bootstrap_def granted_def no_memory_api_def willing_api_def demo_npu_host_def cleanup_io_def
        init_bootstrap_def release_bootstrap_def try_release_def new_bootstrap_def demo_npu_def bind_io_def acl_checked_def
        host_ask_def swallow_io_def give_def asked_def check_acl_def)
  then obtain x s' where run: "make_bootstrap ?X ''/c'' demo_npu = Some (Inl x, s')" "Create_stream \<in> set (host_log s')" by blast
  have "host_held ?X demo_npu = {#}" by (simp add: host_held_def demo_npu_def)
  with bootstrap_owns[OF run(1) no_memory_real] run show ?thesis by auto
qed

text \<open>The loader library is taken from the cache of compiled kernels: the path that
  \<^verbatim>\<open>build_loader\<close> returns is the library inside the entry of one of the configured roots whose
  name is the digest of the flags, the two sources and the version of the compiler, and that
  entry is published, whether it was found or built; a call to the driver is not made.\<close>

lemma build_loader_published:
  assumes "build_loader X cann s = Some (Inr p, s')"
  shows "\<exists>version. \<exists>i < length (paths (cache s)).
    p = entry_dir (paths (cache s) ! i) (entry_name loader_cache_tag (loader_digest X version)) @ [library_name] \<and>
    lookup (tree (disk s')) (butlast p @ [kCommitFileName]) \<noteq> None \<and> host_log s' = host_log s"
proof -
  from assms have "\<exists>compiler version w0 dc w.
      root_loop (npu_environ X) False (npu_faults X) (npu_depth X) (npu_uuid X) (loader_attempt X compiler)
        loader_cache_tag (loader_digest X version) 0 (cache s) () w0 = Some (Inr p, dc, (), w) \<and>
      s' = s\<lparr>cache := dc, disk := w\<rparr>"
    by (auto simp: build_loader_def split: option.splits sum.splits) blast
  then obtain compiler version w0 dc w where
    run: "root_loop (npu_environ X) False (npu_faults X) (npu_depth X) (npu_uuid X) (loader_attempt X compiler)
        loader_cache_tag (loader_digest X version) 0 (cache s) () w0 = Some (Inr p, dc, (), w)"
    and s': "s' = s\<lparr>cache := dc, disk := w\<rparr>" by blast
  from loader_root.loop_hands_out[OF run] s' build_loader_frame[OF assms] show ?thesis
    by (intro exI[of _ version]) auto
qed

end
