(* ===== verification/Ascend_Kernel.thy ===== *)
theory Ascend_Kernel
  imports Aicpu_Bootstrap Aicpu_Device
begin

unbundle bit_operations_syntax

text \<open>
  \<^verbatim>\<open>backend/ascend/kernel.hpp\<close>: loading an Ascend binary into a kernel, packing the arguments
  of a launch, launching and unloading. The reader of the kernel names is in Ascend\_Elf, the
  loader of AICPU kernels in Aicpu\_Bootstrap. Output on the terminal is left out.
\<close>

section \<open>Kernels\<close>

record npu_kernel =
  nk_aicpu :: bool
  nk_module :: "64 word"
  nk_binary :: "64 word"
  nk_function :: "64 word"

definition no_kernel :: npu_kernel where
  "no_kernel = \<lparr>nk_aicpu = False, nk_module = 0, nk_binary = 0, nk_function = 0\<rparr>"

text \<open>\<^verbatim>\<open>unload\<close>: every error is swallowed, then the handles are cleared.\<close>

definition npu_unload :: "npu_host \<Rightarrow> npu_kernel \<Rightarrow> (npu, npu_kernel) stateful" where
  "npu_unload X k =
     bind_io (swallow_io
       (if nk_module k \<noteq> 0 then boot_unload X (nk_module k)
        else if nk_binary k \<noteq> 0
        then bind_io (acl_checked X (Binary_unload (nk_binary k)) ''driver::lazy_aclrtBinaryUnLoad(binary_handle)'') (\<lambda>_.
             give (Inr ()))
        else give (Inr ()))) (\<lambda>_.
     give (Inr (k\<lparr>nk_module := 0, nk_binary := 0, nk_function := 0\<rparr>)))"

text \<open>The I/O task of \<^verbatim>\<open>load\<close>: the kind of the binary, its path and its bytes.\<close>

definition binary_task :: "fpath \<Rightarrow> (bool \<times> fpath \<times> string) prog" where
  "binary_task dir =
     bind_prog (is_regular_file (dir @ [''kernel.aicpu.so''])) (\<lambda>ai.
     let p = dir @ [if ai then ''kernel.aicpu.so'' else ''kernel.o'']
     in bind_prog (read_bytes p) (\<lambda>data. Return (ai, p, data)))"

definition names_of :: "string \<Rightarrow> (npu, string list) stateful" where
  "names_of data s = map_option (\<lambda>r. (r, s)) (parse_kernel_names data)"

definition the_kernel_name :: "fpath \<Rightarrow> string \<Rightarrow> (npu, string) stateful" where
  "the_kernel_name p data =
     bind_io (names_of data) (\<lambda>names.
     bind_io (give (dj_host_assert (length names = 1)
       (''expected exactly one kernel in '' @ show_path p @ '', found '' @ show_nat (length names)))) (\<lambda>_.
     give (Inr (hd names))))"

text \<open>The two kinds. A kernel that is dropped half-way is unloaded by its destructor.\<close>

definition load_aicpu :: "npu_host \<Rightarrow> bool \<Rightarrow> fpath \<Rightarrow> string \<Rightarrow> (npu, npu_kernel) stateful" where
  "load_aicpu X booted p kernel_name =
     bind_io (give (dj_host_assert booted ''AICPU kernels require an Ascend backend bootstrap'')) (\<lambda>_.
     bind_io (boot_load X p (kernel_name @ interface_suffix)) (\<lambda>m s.
     Some (Inr \<lparr>nk_aicpu = True, nk_module = m, nk_binary = 0, nk_function = loader_handle (boot s)\<rparr>, s)))"

definition load_aicore :: "npu_host \<Rightarrow> string \<Rightarrow> string \<Rightarrow> (npu, npu_kernel) stateful" where
  "load_aicore X data kernel_name =
     bind_io (acl_checked X (Binary_from_data data)
        ''driver::lazy_aclrtBinaryLoadFromData(data.data(), data.size(), nullptr, &kernel->binary_handle)'') (\<lambda>(b, _).
     let k = no_kernel\<lparr>nk_binary := b\<rparr>
     in cleanup_io
       (bind_io (acl_checked X (Binary_function b kernel_name)
          ''driver::lazy_aclrtBinaryGetFunction(kernel->binary_handle, kernel_names.front().c_str(), &kernel->kernel_handle)'') (\<lambda>(f, _).
        give (Inr (k\<lparr>nk_function := f\<rparr>))))
       (bind_io (npu_unload X k) (\<lambda>_. give (Inr ()))))"

definition npu_load :: "npu_host \<Rightarrow> env \<Rightarrow> bool \<Rightarrow> fpath \<Rightarrow> (npu, npu_kernel) stateful" where
  "npu_load X env booted dir =
     bind_io (give (bind_result (env_bool env ''JIT_DEBUG'' False) (\<lambda>debug. or_env debug env ''JIT_PRINT_LOAD_TIME''))) (\<lambda>_.
     bind_io (on_disk (on_iothread (npu_environ X) (npu_faults X) (binary_task dir))) (\<lambda>(ai, p, data).
     bind_io (the_kernel_name p data) (\<lambda>kernel_name.
     if ai then load_aicpu X booted p kernel_name else load_aicore X data kernel_name)))"

section \<open>Packing the arguments\<close>

text \<open>An argument: \<^verbatim>\<open>alignof\<close> of its type and its bytes (\<^verbatim>\<open>sizeof\<close> many).\<close>

record npu_arg =
  arg_align :: nat
  arg_bytes :: string

definition kernel_arg_alignment :: "npu_arg \<Rightarrow> nat" where
  "kernel_arg_alignment a = (if arg_align a < 4 then 4 else arg_align a)"

definition align_kernel_arg :: "npu_arg \<Rightarrow> 64 word \<Rightarrow> 64 word" where
  "align_kernel_arg a offset =
     (let m = word_of_nat (kernel_arg_alignment a) in (offset + m - 1) AND NOT (m - 1))"

definition sizeof :: "npu_arg \<Rightarrow> 64 word" where
  "sizeof a = word_of_nat (length (arg_bytes a))"

definition parameter_size :: "npu_arg list \<Rightarrow> 64 word" where
  "parameter_size args =
     (let offset = foldl (\<lambda>offset a. align_kernel_arg a offset + sizeof a) 0 args
      in max 8 ((offset + 7) AND NOT 7))"

text \<open>A copy into the buffer; \<open>None\<close> is a write past its end.\<close>

definition memcpy_into :: "string \<Rightarrow> nat \<Rightarrow> string \<Rightarrow> string option" where
  "memcpy_into buf off bytes =
     (if off + length bytes \<le> length buf
      then Some (take off buf @ bytes @ drop (off + length bytes) buf) else None)"

fun pack_from :: "string \<Rightarrow> 64 word \<Rightarrow> npu_arg list \<Rightarrow> string option" where
  "pack_from buf offset [] = Some buf"
| "pack_from buf offset (a # args) =
     (let off = align_kernel_arg a offset
      in case memcpy_into buf (unat off) (arg_bytes a) of
           None \<Rightarrow> None
         | Some buf' \<Rightarrow> pack_from buf' (off + sizeof a) args)"

definition pack_arguments :: "npu_arg list \<Rightarrow> string option" where
  "pack_arguments args = pack_from (replicate (unat (parameter_size args)) nul) 0 args"

section \<open>Launching\<close>

definition npu_check_launch :: "npu_kernel \<Rightarrow> npu_launch_options \<Rightarrow> unit result" where
  "npu_check_launch k opts =
     bind_result (dj_host_assert (nk_function k \<noteq> 0) ''kernel must be loaded before launch'') (\<lambda>_.
     bind_result (if nk_aicpu k then Inr () else
       bind_result (dj_host_assert (case num_blocks opts of Some n \<Rightarrow> n > 0 | None \<Rightarrow> False)
         ''Ascend block count must be positive'') (\<lambda>_.
       dj_host_assert (case num_ubuf_bytes opts of Some n \<Rightarrow> n \<ge> 0 | None \<Rightarrow> False)
         ''Ascend dynamic UB size must not be negative'')) (\<lambda>_.
     dj_host_assert (case num_launch_timeout_secs opts of Some n \<Rightarrow> 0 \<le> n \<and> n \<le> 65535 | None \<Rightarrow> False)
       ''Ascend launch timeout is out of range''))"

text \<open>The attribute array has two slots.\<close>

definition npu_launch_attributes :: "npu_kernel \<Rightarrow> npu_launch_options \<Rightarrow> npu_attribute slots option" where
  "npu_launch_attributes k opts =
     push_if (the (num_launch_timeout_secs opts) > 0) (Attr_timeout (word_of_int (the (num_launch_timeout_secs opts))))
       (push_if (\<not> nk_aicpu k \<and> the (num_ubuf_bytes opts) > 0) (Attr_dyn_ubuf (word_of_int (the (num_ubuf_bytes opts))))
         (Some (replicate 2 None, 0)))"

definition invoke_packet :: "64 word \<Rightarrow> string \<Rightarrow> string" where
  "invoke_packet m parameters = encode_header \<lparr>hd_operation = operation_code Invoke, hd_module = m\<rparr> @ parameters"

text \<open>From the packed arguments on; \<open>current_stream\<close> is the current one of PyTorch.\<close>

definition launch_packed ::
  "npu_host \<Rightarrow> 64 word result \<Rightarrow> npu_kernel \<Rightarrow> npu_launch_options \<Rightarrow> string \<Rightarrow> npu_attribute list option \<Rightarrow> (npu, unit) stateful" where
  "launch_packed X current_stream k opts parameters cfg =
     bind_io (give (case npu_stream opts of Some st \<Rightarrow> Inr st | None \<Rightarrow> current_stream)) (\<lambda>st.
     bind_io (if nk_aicpu k
       then acl_checked X (Launch_args (nk_function k) 1 st cfg (invoke_packet (nk_module k) parameters))
         ''driver::lazy_aclrtLaunchKernelWithHostArgs(kernel_handle, 1, stream, config_ptr, packet.data(), packet.size(), nullptr, 0)''
       else acl_checked X (Launch_args (nk_function k) (the (num_blocks opts)) st cfg parameters)
         ''driver::lazy_aclrtLaunchKernelWithHostArgs(kernel_handle, *launch_options.num_blocks, stream, config_ptr, parameter_buffer.data(), parameter_size, nullptr, 0)'') (\<lambda>_.
     bind_io (give (get_env_bool (npu_environ X) ''ASCEND_LAUNCH_BLOCKING'' False)) (\<lambda>blocking.
     if blocking
     then bind_io (acl_checked X Synchronize_device ''driver::lazy_aclrtSynchronizeDevice()'') (\<lambda>_. give (Inr ()))
     else give (Inr ()))))"

definition npu_launch ::
  "npu_host \<Rightarrow> 64 word result \<Rightarrow> npu_kernel \<Rightarrow> npu_launch_options \<Rightarrow> npu_arg list \<Rightarrow> (npu, unit) stateful" where
  "npu_launch X current_stream k opts args =
     bind_io (give (npu_check_launch k opts)) (\<lambda>_ s.
     case pack_arguments args of
       None \<Rightarrow> None
     | Some parameters \<Rightarrow>
     case npu_launch_attributes k opts of
       None \<Rightarrow> None
     | Some (slots, n) \<Rightarrow>
         launch_packed X current_stream k opts parameters (if n > 0 then Some (map the (take n slots)) else None) s)"

section \<open>The layout of the parameters\<close>

text \<open>
  The same bytes without arithmetic on machine words: zeros up to the alignment of the
  next argument, then the argument; at the end, zeros up to a multiple of eight.
\<close>

definition pad_to :: "nat \<Rightarrow> string \<Rightarrow> string" where
  "pad_to m b = b @ replicate (round_up m (length b) - length b) nul"

fun laid_out :: "string \<Rightarrow> npu_arg list \<Rightarrow> string" where
  "laid_out b [] = b"
| "laid_out b (a # args) = laid_out (pad_to (kernel_arg_alignment a) b @ arg_bytes a) args"

definition parameters_of :: "npu_arg list \<Rightarrow> string" where
  "parameters_of args = (let b = pad_to 8 (laid_out [] args) in if b = [] then replicate 8 nul else b)"

text \<open>Types of C++: the alignment is a power of two, and nothing comes near the address space.\<close>

definition arg_ok :: "npu_arg \<Rightarrow> bool" where
  "arg_ok a \<longleftrightarrow> (\<exists>j \<le> 32. arg_align a = 2 ^ j)"

definition args_fit :: "npu_arg list \<Rightarrow> bool" where
  "args_fit args \<longleftrightarrow> (\<forall>a \<in> set args. arg_ok a) \<and> length (laid_out [] args) \<le> 2 ^ 62"

lemma kernel_arg_alignment_power: "arg_ok a \<Longrightarrow> \<exists>j \<le> 32. kernel_arg_alignment a = 2 ^ j"
  by (auto simp: arg_ok_def kernel_arg_alignment_def intro: exI[of _ "2 :: nat"])

lemma kernel_arg_alignment_pos: "0 < kernel_arg_alignment a"
  by (simp add: kernel_arg_alignment_def)

lemma word_of_nat_mask: "word_of_nat (2 ^ j) - 1 = (mask j :: 64 word)"
  by (simp add: mask_eq_decr_exp)

lemma unat_align_kernel_arg:
  assumes "arg_ok a" and "unat off \<le> 2 ^ 63"
  shows "unat (align_kernel_arg a off) = round_up (kernel_arg_alignment a) (unat off)"
proof -
  obtain j where j: "j \<le> 32" "kernel_arg_alignment a = 2 ^ j" using kernel_arg_alignment_power[OF assms(1)] by blast
  have "(2 :: nat) ^ j \<le> 2 ^ 32" using j(1) by (intro power_increasing) auto
  then have fits: "unat off + 2 ^ j \<le> 2 ^ 64" using assms(2) by simp
  have "align_kernel_arg a off = (off + mask j) AND NOT (mask j)"
    by (simp only: align_kernel_arg_def Let_def j(2) add_diff_eq[symmetric] word_of_nat_mask)
  then show ?thesis using align_up[OF _ fits] j by (simp add: round_up_def)
qed

lemma length_pad_to: "0 < m \<Longrightarrow> length (pad_to m b) = round_up m (length b)"
  using round_up_facts(1)[of m "length b"] by (simp add: pad_to_def)

lemma laid_out_append: "laid_out b (xs @ ys) = laid_out (laid_out b xs) ys"
  by (induction xs arbitrary: b) auto

lemma laid_out_prefix: "prefix b (laid_out b args)"
proof (induction args arbitrary: b)
  case (Cons a args)
  have "prefix b (pad_to (kernel_arg_alignment a) b @ arg_bytes a)" by (simp add: pad_to_def)
  with Cons show ?case using prefix_order.trans by fastforce
qed simp

lemma laid_out_longer: "length b \<le> length (laid_out b args)"
  using laid_out_prefix by (rule prefix_length_le)

text \<open>One step of the two loops: the offset after an argument.\<close>

lemma next_offset:
  assumes "arg_ok a" and "unat off = length b" and "length (laid_out b (a # args)) \<le> 2 ^ 62"
  shows "unat (align_kernel_arg a off) = length (pad_to (kernel_arg_alignment a) b)"
    and "unat (align_kernel_arg a off + sizeof a) = length (pad_to (kernel_arg_alignment a) b @ arg_bytes a)"
proof -
  let ?b = "pad_to (kernel_arg_alignment a) b"
  from assms(3) laid_out_longer[of "?b @ arg_bytes a" args] have le: "length ?b + length (arg_bytes a) \<le> 2 ^ 62" by simp
  have "length b \<le> length ?b" by (simp add: pad_to_def)
  with le assms(2) have "unat off \<le> 2 ^ 63" by simp
  from unat_align_kernel_arg[OF assms(1) this] show al: "unat (align_kernel_arg a off) = length ?b"
    by (simp add: length_pad_to kernel_arg_alignment_pos assms(2))
  have "unat (sizeof a) = length (arg_bytes a)"
    using le unat_of_int[of "int (length (arg_bytes a))"] by (simp add: sizeof_def)
  with al le show "unat (align_kernel_arg a off + sizeof a) = length (?b @ arg_bytes a)"
    by (subst unat_add_small) auto
qed

lemma end_offset:
  assumes "\<forall>a \<in> set args. arg_ok a" and "unat off = length b" and "length (laid_out b args) \<le> 2 ^ 62"
  shows "unat (foldl (\<lambda>off a. align_kernel_arg a off + sizeof a) off args) = length (laid_out b args)"
  using assms
proof (induction args arbitrary: off b)
  case (Cons a args)
  from Cons.prems have "arg_ok a" by simp
  from next_offset(2)[OF this Cons.prems(2,3)] Cons.prems show ?case
    by (simp add: Cons.IH)
qed simp

lemma memcpy_into_blank:
  assumes "length b + k + length s \<le> n"
  shows "memcpy_into (b @ replicate (n - length b) nul) (length b + k) s =
    Some ((b @ replicate k nul @ s) @ replicate (n - length (b @ replicate k nul @ s)) nul)"
  using assms by (auto simp: memcpy_into_def take_replicate min_def)

lemma pack_from_laid_out:
  assumes "\<forall>a \<in> set args. arg_ok a" and "unat off = length b" and "length (laid_out b args) \<le> n" and "n \<le> 2 ^ 62"
  shows "pack_from (b @ replicate (n - length b) nul) off args =
    Some (laid_out b args @ replicate (n - length (laid_out b args)) nul)"
  using assms
proof (induction args arbitrary: off b)
  case (Cons a args)
  let ?b = "pad_to (kernel_arg_alignment a) b"
  let ?k = "round_up (kernel_arg_alignment a) (length b) - length b"
  from Cons.prems have ok: "arg_ok a" and small: "length (laid_out b (a # args)) \<le> 2 ^ 62" by simp_all
  note offs = next_offset[OF ok Cons.prems(2) small]
  have fits: "length (?b @ arg_bytes a) \<le> n"
    using laid_out_longer[of "?b @ arg_bytes a" args] Cons.prems(3) by simp
  then have "memcpy_into (b @ replicate (n - length b) nul) (length ?b) (arg_bytes a) =
      Some ((?b @ arg_bytes a) @ replicate (n - length (?b @ arg_bytes a)) nul)"
    using memcpy_into_blank[of b ?k "arg_bytes a" n] by (simp add: pad_to_def)
  with offs Cons.IH[OF _ offs(2)] Cons.prems show ?case by simp
qed simp

lemma parameter_size_exact:
  assumes "args_fit args"
  shows "unat (parameter_size args) = length (parameters_of args)"
    and "parameters_of args = laid_out [] args @ replicate (length (parameters_of args) - length (laid_out [] args)) nul"
    and "8 \<le> length (parameters_of args)" and "8 dvd length (parameters_of args)"
    and "length (laid_out [] args) \<le> length (parameters_of args)" and "length (parameters_of args) \<le> 2 ^ 62"
proof -
  let ?n = "length (laid_out [] args)"
  define off where "off = foldl (\<lambda>off a. align_kernel_arg a off + sizeof a) 0 args"
  have n: "?n \<le> 2 ^ 62" and off: "unat off = ?n"
    using assms end_offset[of args 0 "[]"] by (simp_all add: args_fit_def off_def)
  have "unat ((off + 7) AND NOT 7) = round_up 8 ?n"
    using align_up[of 3 off] n off by (simp add: round_up_def mask_eq_exp_minus_1)
  moreover have "round_up 8 ?n = length (pad_to 8 (laid_out [] args))" by (simp add: length_pad_to)
  moreover have rb: "?n \<le> round_up 8 ?n" "8 dvd round_up 8 ?n" "round_up 8 ?n < ?n + 8" using round_up_facts[of 8 ?n] by simp_all
  moreover have "parameter_size args = max 8 ((off + 7) AND NOT 7)" by (simp add: parameter_size_def off_def)
  moreover have "unat (max 8 x) = max 8 (unat x)" for x :: "64 word"
    by (simp add: max_def word_le_nat_alt)
  moreover have len: "length (parameters_of args) = (if round_up 8 ?n = 0 then 8 else round_up 8 ?n)"
    using length_pad_to[of 8 "laid_out [] args"]
    by (auto simp: parameters_of_def Let_def simp flip: length_0_conv)
  ultimately show "unat (parameter_size args) = length (parameters_of args)"
    using rb(2) by (auto dest!: dvd_imp_le simp: max_def)
  from len rb n show "8 \<le> length (parameters_of args)" "8 dvd length (parameters_of args)"
    "?n \<le> length (parameters_of args)" by (auto elim!: dvdE split: if_splits)
  have "8 dvd (2 :: nat) ^ 62" by simp
  then have "round_up 8 ?n \<le> 2 ^ 62"
    using rb n by (auto elim!: dvdE)
  with len show "length (parameters_of args) \<le> 2 ^ 62" by simp
  show "parameters_of args = laid_out [] args @ replicate (length (parameters_of args) - ?n) nul"
    using length_pad_to[of 8 "laid_out [] args"] by (auto simp: parameters_of_def Let_def pad_to_def)
qed

lemma pack_arguments_exact:
  assumes "args_fit args"
  shows "pack_arguments args = Some (parameters_of args)"
proof -
  note size = parameter_size_exact[OF assms]
  have "pack_from ([] @ replicate (length (parameters_of args) - length ([] :: string)) nul) 0 args =
      Some (laid_out [] args @ replicate (length (parameters_of args) - length (laid_out [] args)) nul)"
    by (rule pack_from_laid_out) (use assms size(5,6) in \<open>auto simp: args_fit_def\<close>)
  then show ?thesis using size(1,2) by (simp add: pack_arguments_def)
qed

lemma laid_out_at:
  "take (length (arg_bytes a)) (drop (round_up (kernel_arg_alignment a) (length (laid_out [] xs))) (laid_out [] (xs @ a # ys))) =
     arg_bytes a"
proof -
  let ?b = "pad_to (kernel_arg_alignment a) (laid_out [] xs)"
  obtain r where "laid_out [] (xs @ a # ys) = (?b @ arg_bytes a) @ r"
    using laid_out_prefix[of "?b @ arg_bytes a" ys] by (auto simp: laid_out_append prefix_def)
  moreover have "length ?b = round_up (kernel_arg_alignment a) (length (laid_out [] xs))"
    by (rule length_pad_to[OF kernel_arg_alignment_pos])
  ultimately show ?thesis by simp
qed

section \<open>Launches\<close>

definition npu_launchable :: "npu_kernel \<Rightarrow> npu_launch_options \<Rightarrow> bool" where
  "npu_launchable k opts \<longleftrightarrow> nk_function k \<noteq> 0 \<and>
     (nk_aicpu k \<or> (\<exists>n > 0. num_blocks opts = Some n) \<and> (\<exists>n \<ge> 0. num_ubuf_bytes opts = Some n)) \<and>
     (\<exists>n. num_launch_timeout_secs opts = Some n \<and> 0 \<le> n \<and> n \<le> 65535)"

definition npu_wanted_attributes :: "npu_kernel \<Rightarrow> npu_launch_options \<Rightarrow> npu_attribute list" where
  "npu_wanted_attributes k opts =
     (if \<not> nk_aicpu k \<and> the (num_ubuf_bytes opts) > 0 then [Attr_dyn_ubuf (word_of_int (the (num_ubuf_bytes opts)))] else []) @
     (if the (num_launch_timeout_secs opts) > 0 then [Attr_timeout (word_of_int (the (num_launch_timeout_secs opts)))] else [])"

text \<open>The call of a launch on the stream \<open>st\<close>, and what may follow it.\<close>

definition launch_call :: "npu_kernel \<Rightarrow> npu_launch_options \<Rightarrow> npu_arg list \<Rightarrow> 64 word \<Rightarrow> host_call" where
  "launch_call k opts args st = Launch_args (nk_function k) (if nk_aicpu k then 1 else the (num_blocks opts)) st
     (if npu_wanted_attributes k opts = [] then None else Some (npu_wanted_attributes k opts))
     (if nk_aicpu k then invoke_packet (nk_module k) (parameters_of args) else parameters_of args)"

definition blocking_launches :: "npu_host \<Rightarrow> bool" where
  "blocking_launches X \<longleftrightarrow> get_env_bool (npu_environ X) ''ASCEND_LAUNCH_BLOCKING'' False = Inr True"

definition launch_sequence :: "npu_host \<Rightarrow> npu_kernel \<Rightarrow> npu_launch_options \<Rightarrow> npu_arg list \<Rightarrow> 64 word \<Rightarrow> host_call list" where
  "launch_sequence X k opts args st = launch_call k opts args st # (if blocking_launches X then [Synchronize_device] else [])"

lemma npu_check_launch_Inr: "npu_check_launch k opts = Inr u \<longleftrightarrow> npu_launchable k opts"
  by (auto simp: npu_check_launch_def npu_launchable_def bind_assert_Inr_iff bind_result_Inr_iff split: option.splits)

lemma npu_check_launch_Inl: "npu_check_launch k opts = Inl e \<Longrightarrow> \<exists>m. e = Assertion m"
  by (auto simp: npu_check_launch_def result_simps split: if_splits)

lemma npu_launch_attributes_wanted:
  "\<exists>slots n. npu_launch_attributes k opts = Some (slots, n) \<and> n = length (npu_wanted_attributes k opts) \<and>
     map the (take n slots) = npu_wanted_attributes k opts"
  by (simp add: npu_launch_attributes_def npu_wanted_attributes_def push_if_def numeral_2_eq_2)

lemma npu_launch_packed:
  assumes "args_fit args" and "npu_launchable k opts"
  shows "npu_launch X cs k opts args s = launch_packed X cs k opts (parameters_of args)
    (if npu_wanted_attributes k opts = [] then None else Some (npu_wanted_attributes k opts)) s"
proof -
  obtain slots n where a: "npu_launch_attributes k opts = Some (slots, n)" "n = length (npu_wanted_attributes k opts)"
      "map the (take n slots) = npu_wanted_attributes k opts"
    using npu_launch_attributes_wanted by blast
  have "npu_check_launch k opts = Inr ()" using assms(2) npu_check_launch_Inr by blast
  with a show ?thesis by (simp add: npu_launch_def bind_io_give pack_arguments_exact[OF assms(1)])
qed

definition stream_of :: "64 word result \<Rightarrow> npu_launch_options \<Rightarrow> 64 word result" where
  "stream_of current_stream opts = (case npu_stream opts of Some st \<Rightarrow> Inr st | None \<Rightarrow> current_stream)"

lemma all_granted_Cons:
  "all_granted X (host_log s) (c # cs) \<longleftrightarrow> granted X s c \<noteq> None \<and> all_granted X (host_log (asked c s)) cs"
  by (auto simp: all_granted_def granted_None All_less_Suc2)

lemma all_granted_Nil [simp]: "all_granted X pre []"
  by (simp add: all_granted_def)

text \<open>The launch itself, on a stream that is known.\<close>

lemma launch_packed_spec:
  assumes "stream_of cs opts = Inr st" and "launch_packed X cs k opts (parameters_of args)
    (if npu_wanted_attributes k opts = [] then None else Some (npu_wanted_attributes k opts)) s = Some (r, s')"
  shows "(\<exists>i. host_log s' = host_log s @ take (Suc i) (launch_sequence X k opts args st)) \<and>
    (r = Inr () \<longleftrightarrow> all_granted X (host_log s) (launch_sequence X k opts args st) \<and>
       (\<exists>b. get_env_bool (npu_environ X) ''ASCEND_LAUNCH_BLOCKING'' False = Inr b)) \<and>
    (r = Inr () \<longrightarrow> host_log s' = host_log s @ launch_sequence X k opts args st) \<and>
    disk s' = disk s \<and> cache s' = cache s \<and> boot s' = boot s \<and> host_held X s' = host_held X s"
proof -
  let ?c = "launch_call k opts args st" and ?env = "get_env_bool (npu_environ X) ''ASCEND_LAUNCH_BLOCKING'' False"
  have "neutral ?c" by (simp add: launch_call_def)
  then have held: "host_held X (asked ?c s) = host_held X s" by simp
  have run: "(case granted X s ?c of None \<Rightarrow> Some (r, s') = Some (Inl (acl_error X s ?c w), asked ?c s)
     | Some _ \<Rightarrow> bind_io (give ?env) (\<lambda>blocking.
         if blocking then bind_io (acl_checked X Synchronize_device ''driver::lazy_aclrtSynchronizeDevice()'') (\<lambda>_. give (Inr ()))
         else give (Inr ())) (asked ?c s) = Some (r, s'))"
    if "w = (if nk_aicpu k
      then ''driver::lazy_aclrtLaunchKernelWithHostArgs(kernel_handle, 1, stream, config_ptr, packet.data(), packet.size(), nullptr, 0)''
      else ''driver::lazy_aclrtLaunchKernelWithHostArgs(kernel_handle, *launch_options.num_blocks, stream, config_ptr, parameter_buffer.data(), parameter_size, nullptr, 0)'')" for w
    using assms that by (auto simp: launch_packed_def stream_of_def launch_call_def split: if_splits option.splits)
  show ?thesis
  proof (cases "granted X s ?c")
    case None
    with run[OF refl] held show ?thesis
      by (auto simp: launch_sequence_def all_granted_Cons intro!: exI[of _ 0])
  next
    case (Some p)
    show ?thesis
    proof (cases ?env)
      case (Inl x)
      with run[OF refl] Some held show ?thesis
        by (auto simp: launch_sequence_def all_granted_Cons blocking_launches_def intro!: exI[of _ 0])
    next
      case (Inr blocking)
      with run[OF refl] Some held all_granted_Cons[of X "asked ?c s" Synchronize_device "[]"] show ?thesis
        by (cases blocking; cases "granted X (asked ?c s) Synchronize_device")
          (auto simp: launch_sequence_def all_granted_Cons blocking_launches_def give_def intro!: exI[of _ 1])
    qed
  qed
qed

section \<open>Loading\<close>

lemma regular_node: "\<not> is_dir_node n \<longleftrightarrow> (\<exists>m d. n = File m d)"
  by (cases n) simp_all

text \<open>What the I/O task finds: the AICPU binary when there is one, with all of its bytes.\<close>

lemma binary_task_found:
  assumes "exec F (binary_task dir) w = (Returned (ai, p, data), w')"
  shows "p = dir @ [if ai then ''kernel.aicpu.so'' else ''kernel.o''] \<and> (\<exists>m. lookup (tree w) p = Some (File m data)) \<and>
    (ai \<longleftrightarrow> (\<exists>m d. lookup (tree w) (dir @ [''kernel.aicpu.so'']) = Some (File m d)))"
proof -
  let ?so = "dir @ [''kernel.aicpu.so'']"
  from assms obtain b w1 where reg: "exec F (is_regular_file ?so) w = (Returned b, w1)"
    and rest: "exec F (bind_prog (read_bytes (dir @ [if b then ''kernel.aicpu.so'' else ''kernel.o'']))
      (\<lambda>data. Return (b, dir @ [if b then ''kernel.aicpu.so'' else ''kernel.o''], data))) w1 = (Returned (ai, p, data), w')"
    unfolding binary_task_def Let_def by (rule exec_bind_Returned)
  from rest have b: "b = ai" "p = dir @ [if ai then ''kernel.aicpu.so'' else ''kernel.o'']"
    and rd: "exec F (read_bytes p) w1 = (Returned data, w')"
    by (auto elim!: exec_bind_Returned)
  from reg have "tree w1 = tree w" "b \<longleftrightarrow> (\<exists>m d. lookup (tree w) ?so = Some (File m d))"
    by (auto simp: is_regular_file_def regular_node dest!: exec_Stat split: option.splits)
  with read_bytes_whole[OF rd] b show ?thesis by auto
qed

lemma the_kernel_name_spec:
  "\<exists>r. the_kernel_name p data s = Some (r, s) \<and> (\<forall>name. r = Inr name \<longrightarrow> parse_kernel_names data = Some (Inr [name]))"
proof (cases "parse_kernel_names data")
  case None
  then show ?thesis using parse_kernel_names_defined[of data] by simp
next
  case (Some r)
  then show ?thesis
    by (cases r) (auto simp: the_kernel_name_def names_of_def bind_io_def give_def dj_host_assert_def length_Suc_conv)
qed

lemma npu_unload_aicore:
  assumes "nk_module k = 0"
  shows "\<exists>s'. npu_unload X k s = Some (Inr (k\<lparr>nk_module := 0, nk_binary := 0, nk_function := 0\<rparr>), s') \<and>
    disk s' = disk s \<and> cache s' = cache s \<and> boot s' = boot s \<and>
    host_log s' = host_log s @ (if nk_binary k = 0 then [] else [Binary_unload (nk_binary k)]) \<and>
    host_held X s' = (if nk_binary k = 0 then host_held X s else host_held X s - {#Binary (nk_binary k)#})"
  using assms
  by (cases "granted X s (Binary_unload (nk_binary k))")
    (auto simp: npu_unload_def swallow_io_def bind_io_def[of "swallow_io _"] give_def)

lemma npu_unload_aicpu:
  assumes "nk_module k \<noteq> 0"
  shows "\<exists>s'. npu_unload X k s = Some (Inr (k\<lparr>nk_module := 0, nk_binary := 0, nk_function := 0\<rparr>), s') \<and>
    disk s' = disk s \<and> cache s' = cache s \<and> host_held X s' = host_held X s"
proof -
  have "\<exists>r s'. boot_unload X (nk_module k) s = Some (r, s')"
  proof (cases "granted X s Synchronize_device")
    case (Some p)
    obtain r s' where "execute X (new_request Unload (nk_module k)) (asked Synchronize_device s) = Some (r, s')"
      using execute_returns by blast
    with Some show ?thesis by (cases r) (auto simp: boot_unload_def bind_io_def[of "execute _ _"] give_def)
  qed (simp add: boot_unload_def)
  then obtain r s' where run: "boot_unload X (nk_module k) s = Some (r, s')" by blast
  with assms have "npu_unload X k s = Some (Inr (k\<lparr>nk_module := 0, nk_binary := 0, nk_function := 0\<rparr>), s')"
    by (simp add: npu_unload_def swallow_io_def bind_io_def give_def)
  with boot_unload_frame[OF run] show ?thesis by simp
qed

lemma load_aicore_spec:
  assumes "load_aicore X data kernel_name s = Some (r, s')" and "real_handles X"
  shows "(\<forall>x. r = Inl x \<longrightarrow> host_held X s' = host_held X s) \<and>
    (\<forall>k. r = Inr k \<longrightarrow> \<not> nk_aicpu k \<and> nk_module k = 0 \<and> nk_binary k \<noteq> 0 \<and>
       host_held X s' = host_held X s + {#Binary (nk_binary k)#} \<and>
       host_log s' = host_log s @ [Binary_from_data data, Binary_function (nk_binary k) kernel_name])"
proof (cases "granted X s (Binary_from_data data)")
  case None
  with assms(1) show ?thesis by (auto simp: load_aicore_def acquires_granted)
next
  case (Some p)
  then obtain b t where b: "granted X s (Binary_from_data data) = Some (b, t)" by (cases p) auto
  let ?s1 = "asked (Binary_from_data data) s" and ?c = "Binary_function b kernel_name" and ?k = "no_kernel\<lparr>nk_binary := b\<rparr>"
  have "b \<noteq> 0" by (rule real_handle[OF assms(2) b]) simp
  have held: "host_held X ?s1 = host_held X s + {#Binary b#}" using b by (simp add: acquires_granted)
  show ?thesis
  proof (cases "granted X ?s1 ?c")
    case None
    obtain s2 where "npu_unload X ?k (asked ?c ?s1) = Some (Inr no_kernel, s2)" "host_held X s2 = host_held X s"
      using npu_unload_aicore[of ?k X "asked ?c ?s1"] held \<open>b \<noteq> 0\<close> by (auto simp: no_kernel_def)
    with None assms(1) b show ?thesis by (auto simp: load_aicore_def cleanup_io_def bind_io_def[of "npu_unload _ _"] give_def Let_def)
  next
    case (Some q)
    with assms(1) b held \<open>b \<noteq> 0\<close> show ?thesis
      by (cases q) (auto simp: load_aicore_def cleanup_io_def give_def no_kernel_def Let_def)
  qed
qed

lemma load_aicpu_spec:
  assumes "load_aicpu X booted p kernel_name s = Some (r, s')" and "real_handles X"
  shows "(host_held X s' = host_held X s \<or> (\<exists>h. host_held X s' = host_held X s + leaked h)) \<and>
    (\<forall>k. r = Inr k \<longrightarrow> booted \<and> nk_aicpu k \<and> nk_binary k = 0 \<and> nk_function k = loader_handle (boot s) \<and>
       boot_load X p (kernel_name @ interface_suffix) s = Some (Inr (nk_module k), s'))"
proof (cases booted)
  case True
  with assms(1) have "bind_io (boot_load X p (kernel_name @ interface_suffix)) (\<lambda>m s.
     Some (Inr \<lparr>nk_aicpu = True, nk_module = m, nk_binary = 0, nk_function = loader_handle (boot s)\<rparr>, s)) s = Some (r, s')"
    by (simp add: load_aicpu_def)
  then show ?thesis
  proof (cases rule: bind_io_cases)
    case (threw x)
    from boot_load_balance[OF threw(1) assms(2)] threw(2) show ?thesis by auto
  next
    case (went m s1)
    note frame = boot_load_balance[OF went(1) assms(2)]
    from frame have "loader_handle (boot s1) = loader_handle (boot s)" by (metis bootstrap.select_convs(3) bootstrap.surjective bootstrap.update_convs(6))
    with went frame True show ?thesis by auto
  qed
qed (use assms in \<open>auto simp: load_aicpu_def\<close>)

lemma npu_load_cases [consumes 1, case_names early found]:
  assumes "npu_load X env booted dir s = Some (r, s')"
  obtains x where "r = Inl x" "host_held X s' = host_held X s" "boot s' = boot s"
  | ai p data w kernel_name where
    "exec (npu_faults X) (binary_task dir) (disk s) = (Returned (ai, p, data), w)"
    "parse_kernel_names data = Some (Inr [kernel_name])"
    "(if ai then load_aicpu X booted p kernel_name else load_aicore X data kernel_name) (s\<lparr>disk := w\<rparr>) = Some (r, s')"
proof (cases "bind_result (env_bool env ''JIT_DEBUG'' False) (\<lambda>debug. or_env debug env ''JIT_PRINT_LOAD_TIME'')")
  case (Inl x)
  with assms that(1)[of x] show ?thesis by (simp add: npu_load_def)
next
  case (Inr b)
  let ?rest = "\<lambda>(ai, p, data). bind_io (the_kernel_name p data) (\<lambda>kernel_name.
     if ai then load_aicpu X booted p kernel_name else load_aicore X data kernel_name)"
  from assms Inr have "bind_io (on_disk (on_iothread (npu_environ X) (npu_faults X) (binary_task dir))) ?rest s = Some (r, s')"
    by (simp add: npu_load_def)
  then show ?thesis
  proof (cases rule: bind_io_cases)
    case (threw x)
    from threw(1) have "host_held X s' = host_held X s" "boot s' = boot s" by (auto elim: on_disk_cases)
    with threw(2) show ?thesis by (rule that(1))
  next
    case (went v s1)
    obtain ai p data where v: "v = (ai, p, data)" by (cases v)
    from went(1) obtain w where w: "on_iothread (npu_environ X) (npu_faults X) (binary_task dir) (disk s) = Some (Inr (ai, p, data), w)"
      and s1: "s1 = s\<lparr>disk := w\<rparr>" unfolding v by (rule on_disk_cases)
    obtain q where q: "the_kernel_name p data s1 = Some (q, s1)" "\<forall>name. q = Inr name \<longrightarrow> parse_kernel_names data = Some (Inr [name])"
      using the_kernel_name_spec by blast
    show ?thesis
    proof (cases q)
      case (Inl x)
      with went(2) q(1) v s1 show ?thesis by (intro that(1)[of x]) (auto simp: bind_io_def)
    next
      case (Inr kernel_name)
      with went(2) q v s1 show ?thesis
        by (intro that(2)[OF on_iothread_exec[OF w]]) (auto simp: bind_io_def)
    qed
  qed
qed

lemma launch_packed_returns: "\<exists>r s'. launch_packed X cs k opts parameters cfg s = Some (r, s')"
proof (cases "stream_of cs opts")
  case (Inr st)
  then show ?thesis
    by (cases "get_env_bool (npu_environ X) ''ASCEND_LAUNCH_BLOCKING'' False")
      (auto simp: launch_packed_def stream_of_def give_def split: option.split)
qed (simp add: launch_packed_def stream_of_def)

section \<open>Properties\<close>

text \<open>C12: The parameter block of an Ascend launch is the layout that the device expects: the
  arithmetic on machine words never leaves the buffer, every argument is at an offset aligned
  to its type (at least four bytes), the arguments follow each other in order with zeros
  between them, and the size is a positive multiple of eight.\<close>

theorem ascend_parameters_packed:
  assumes "args_fit args"
  shows "pack_arguments args = Some (parameters_of args) \<and> unat (parameter_size args) = length (parameters_of args) \<and>
    8 \<le> length (parameters_of args) \<and> 8 dvd length (parameters_of args) \<and>
    (\<forall>xs a ys. args = xs @ a # ys \<longrightarrow>
       (let off = round_up (kernel_arg_alignment a) (length (laid_out [] xs))
        in take (length (arg_bytes a)) (drop off (parameters_of args)) = arg_bytes a \<and>
           kernel_arg_alignment a dvd off \<and> length (laid_out [] xs) \<le> off \<and>
           off < length (laid_out [] xs) + kernel_arg_alignment a))"
proof -
  note size = parameter_size_exact[OF assms]
  have "take (length (arg_bytes a)) (drop (round_up (kernel_arg_alignment a) (length (laid_out [] xs))) (parameters_of args)) = arg_bytes a"
    if "args = xs @ a # ys" for xs a ys
  proof -
    let ?off = "round_up (kernel_arg_alignment a) (length (laid_out [] xs))"
    have "length (pad_to (kernel_arg_alignment a) (laid_out [] xs) @ arg_bytes a) \<le> length (laid_out [] args)"
      using laid_out_longer[of "pad_to (kernel_arg_alignment a) (laid_out [] xs) @ arg_bytes a" ys]
      by (simp add: that laid_out_append)
    then have fits: "?off + length (arg_bytes a) \<le> length (laid_out [] args)"
      by (simp add: length_pad_to kernel_arg_alignment_pos)
    have "take (length (arg_bytes a)) (drop ?off (parameters_of args)) =
        take (length (arg_bytes a)) (drop ?off (laid_out [] args))"
      by (subst size(2)) (use fits in simp)
    then show ?thesis using laid_out_at[of a xs ys] that by simp
  qed
  then show ?thesis
    using size(1,3,4) pack_arguments_exact[OF assms] round_up_facts[OF kernel_arg_alignment_pos] by (simp add: Let_def)
qed

theorem ascend_parameters_packed_witness:
  "pack_arguments [\<lparr>arg_align = 1, arg_bytes = ''a''\<rparr>, \<lparr>arg_align = 8, arg_bytes = ''bbbbbbbb''\<rparr>, \<lparr>arg_align = 4, arg_bytes = ''cccc''\<rparr>] =
     Some (''a'' @ replicate 7 nul @ ''bbbbbbbb'' @ ''cccc'' @ replicate 4 nul)"
proof -
  let ?args = "[\<lparr>arg_align = 1, arg_bytes = ''a''\<rparr>, \<lparr>arg_align = 8, arg_bytes = ''bbbbbbbb''\<rparr>, \<lparr>arg_align = 4, arg_bytes = ''cccc''\<rparr>]"
  have "args_fit ?args"
    by (auto simp: args_fit_def arg_ok_def pad_to_def round_up_def kernel_arg_alignment_def
        intro: exI[of _ "0 :: nat"] exI[of _ "3 :: nat"] exI[of _ "2 :: nat"])
  from ascend_parameters_packed[OF this] show ?thesis
    by (simp add: parameters_of_def pad_to_def round_up_def kernel_arg_alignment_def)
qed

text \<open>C30: A launch makes exactly the calls that the options describe: options outside the
  checked ranges are rejected before any call, and otherwise the calls are one launch with the
  packed parameters, the block count (one for an AICPU kernel, whose packet names its module)
  and the wanted attributes, then a synchronisation exactly when launches are blocking; the launch
  succeeds exactly when these calls do and the variable that asks for blocking can be read.\<close>

theorem ascend_launch_exact:
  assumes "args_fit args"
  shows "\<exists>r s'. npu_launch X cs k opts args s = Some (r, s') \<and> host_held X s' = host_held X s \<and>
    (\<not> npu_launchable k opts \<longrightarrow> (\<exists>m. r = Inl (Assertion m)) \<and> s' = s) \<and>
    (npu_launchable k opts \<longrightarrow> (case stream_of cs opts of
       Inl x \<Rightarrow> r = Inl x \<and> s' = s
     | Inr st \<Rightarrow> (\<exists>i. host_log s' = host_log s @ take (Suc i) (launch_sequence X k opts args st)) \<and>
         (r = Inr () \<longleftrightarrow> all_granted X (host_log s) (launch_sequence X k opts args st) \<and>
            (\<exists>b. get_env_bool (npu_environ X) ''ASCEND_LAUNCH_BLOCKING'' False = Inr b)) \<and>
         (r = Inr () \<longrightarrow> host_log s' = host_log s @ launch_sequence X k opts args st)))"
proof (cases "npu_launchable k opts")
  case False
  then obtain e where e: "npu_check_launch k opts = Inl e"
    using npu_check_launch_Inr[of k opts] by (cases "npu_check_launch k opts") auto
  with npu_check_launch_Inl[OF e] False show ?thesis by (auto simp: npu_launch_def)
next
  case True
  note eq = npu_launch_packed[OF assms True, of X cs s]
  show ?thesis
  proof (cases "stream_of cs opts")
    case (Inl x)
    with True eq show ?thesis by (simp add: launch_packed_def stream_of_def)
  next
    case (Inr st)
    obtain r s' where run: "npu_launch X cs k opts args s = Some (r, s')"
      using eq launch_packed_returns by metis
    from launch_packed_spec[OF Inr run[unfolded eq]] run True Inr show ?thesis by auto
  qed
qed

definition demo_launch_options :: npu_launch_options where
  "demo_launch_options = npu_unset_launch_options\<lparr>npu_stream := Some 6, num_launch_timeout_secs := Some 30\<rparr>"

definition demo_aicpu_kernel :: npu_kernel where
  "demo_aicpu_kernel = \<lparr>nk_aicpu = True, nk_module = 9, nk_binary = 0, nk_function = 5\<rparr>"

definition demo_args :: "npu_arg list" where
  "demo_args = [\<lparr>arg_align = 4, arg_bytes = ''abcd''\<rparr>]"

lemma demo_args_fit: "args_fit demo_args" "parameters_of demo_args = ''abcd'' @ replicate 4 nul"
  by (auto simp: demo_args_def args_fit_def arg_ok_def pad_to_def round_up_def kernel_arg_alignment_def parameters_of_def
      intro: exI[of _ "2 :: nat"])

lemma not_blocking: "get_env_bool (npu_environ (demo_npu_host A)) ''ASCEND_LAUNCH_BLOCKING'' False = Inr False"
  by (simp add: demo_npu_host_def slow_env_def get_env_bool_def get_env_def)

theorem ascend_launch_exact_witness:
  "\<exists>s'. npu_launch (demo_npu_host willing_api) (Inr 0) demo_aicpu_kernel demo_launch_options demo_args demo_npu = Some (Inr (), s') \<and>
     host_log s' = [Launch_args 5 1 6 (Some [Attr_timeout 30]) (invoke_packet 9 (''abcd'' @ replicate 4 nul))]"
proof -
  let ?X = "demo_npu_host willing_api" and ?k = demo_aicpu_kernel and ?o = demo_launch_options
  have calls: "launch_sequence ?X ?k ?o demo_args 6 =
      [Launch_args 5 1 6 (Some [Attr_timeout 30]) (invoke_packet 9 (''abcd'' @ replicate 4 nul))]"
    by (simp add: launch_sequence_def launch_call_def npu_wanted_attributes_def demo_launch_options_def demo_aicpu_kernel_def
        npu_unset_launch_options_def demo_args_fit blocking_launches_def not_blocking)
  have "npu_launchable ?k ?o"
    by (simp add: npu_launchable_def demo_launch_options_def demo_aicpu_kernel_def npu_unset_launch_options_def)
  moreover have "stream_of (Inr 0) ?o = Inr 6" by (simp add: stream_of_def demo_launch_options_def)
  moreover have "all_granted ?X (host_log demo_npu) (launch_sequence ?X ?k ?o demo_args 6)"
    by (simp add: calls all_granted_def demo_npu_host_def willing_api_def)
  moreover have "host_log demo_npu = []" by (simp add: demo_npu_def)
  ultimately show ?thesis
    using ascend_launch_exact[OF demo_args_fit(1), of ?X "Inr 0" ?k ?o demo_npu] not_blocking[of willing_api]
    by (auto simp: calls)
qed

text \<open>C31: A loaded kernel is the one kernel of the binary that is in the cache entry: the AICPU
  library when there is one, otherwise the AICore binary, complete and with exactly one kernel
  name; an AICore binary is registered and asked for exactly that name, an AICPU library is loaded
  on the device with the entry of that name. A load that fails keeps nothing.\<close>

theorem ascend_load_exact:
  assumes "npu_load X env booted dir s = Some (r, s')" and "real_handles X"
  shows "(\<forall>x. r = Inl x \<longrightarrow> host_held X s' = host_held X s \<or> (\<exists>h. host_held X s' = host_held X s + leaked h)) \<and>
    (\<forall>k. r = Inr k \<longrightarrow> (\<exists>p m data kernel_name w.
       p = dir @ [if nk_aicpu k then ''kernel.aicpu.so'' else ''kernel.o''] \<and>
       lookup (tree (disk s)) p = Some (File m data) \<and> parse_kernel_names data = Some (Inr [kernel_name]) \<and>
       (nk_aicpu k \<longleftrightarrow> (\<exists>m d. lookup (tree (disk s)) (dir @ [''kernel.aicpu.so'']) = Some (File m d))) \<and>
       (if nk_aicpu k
        then booted \<and> nk_function k = loader_handle (boot s) \<and>
          boot_load X p (kernel_name @ ''_interface'') (s\<lparr>disk := w\<rparr>) = Some (Inr (nk_module k), s')
        else host_log s' = host_log s @ [Binary_from_data data, Binary_function (nk_binary k) kernel_name])))"
  using assms(1)
proof (cases rule: npu_load_cases)
  case (found ai p data w kernel_name)
  note task = binary_task_found[OF found(1)]
  show ?thesis
  proof (cases ai)
    case True
    with found(3) have "load_aicpu X booted p kernel_name (s\<lparr>disk := w\<rparr>) = Some (r, s')" by simp
    from load_aicpu_spec[OF this assms(2)] task found(2) True show ?thesis
      by (fastforce simp: interface_suffix_def)
  next
    case False
    with found(3) have "load_aicore X data kernel_name (s\<lparr>disk := w\<rparr>) = Some (r, s')" by simp
    from load_aicore_spec[OF this assms(2)] task found(2) False show ?thesis by fastforce
  qed
qed auto


text \<open>An entry of the cache with the smallest AICore binary.\<close>

definition demo_entry :: npu where
  "demo_entry = demo_npu\<lparr>disk := \<lparr>tree = [([''c'', ''kernel.o''], File 0x1A4 demo_elf)], tick = 0\<rparr>\<rparr>"

definition demo_npu_env :: env where
  "demo_npu_env = \<lparr>env_prefix = ''X'', environ = slow_env\<rparr>"

lemma willing_real: "real_handles (demo_npu_host willing_api)"
  by (simp add: real_handles_def demo_npu_host_def willing_api_def)

lemma demo_load:
  "\<exists>s'. npu_load (demo_npu_host willing_api) demo_npu_env False [''c''] demo_entry =
     Some (Inr \<lparr>nk_aicpu = False, nk_module = 0, nk_binary = 9, nk_function = 9\<rparr>, s')"
proof -
  let ?X = "demo_npu_host willing_api" and ?w = "\<lparr>tree = [([''c'', ''kernel.o''], File 0x1A4 demo_elf)], tick = 0\<rparr>"
  have envs: "env_bool demo_npu_env ''JIT_DEBUG'' False = Inr False" "env_bool demo_npu_env ''JIT_PRINT_LOAD_TIME'' False = Inr False"
    by (simp_all add: env_bool_def env_get_or_def env_get_def get_with_prefix_def demo_npu_env_def slow_env_def
      var_name_def Let_def)
  have "\<exists>w'. exec no_faults (binary_task [''c'']) ?w = (Returned (False, [''c'', ''kernel.o''], demo_elf), w')"
    by (simp add: binary_task_def is_regular_file_def read_bytes_def on_node_def lookup_def Let_def exec_bind)
  then obtain w' where w': "exec no_faults (binary_task [''c'']) ?w = (Returned (False, [''c'', ''kernel.o''], demo_elf), w')" by blast
  from on_iothread_ok[OF this] have task: "on_iothread (npu_environ ?X) (npu_faults ?X) (binary_task [''c'']) (disk demo_entry) =
      Some (Inr (False, [''c'', ''kernel.o''], demo_elf), w')" by (simp add: demo_npu_host_def demo_entry_def)
  have name: "the_kernel_name p demo_elf s = Some (Inr ''k'', s)" for p s
    by (simp add: the_kernel_name_def names_of_def demo_parsed bind_io_def[of "names_of _"] give_def bind_io_def)
  have ok: "granted ?X s c = Some (9, encode_result new_result)" for s c
    by (simp add: granted_def demo_npu_host_def willing_api_def)
  show ?thesis
    by (simp add: npu_load_def envs or_env_def task bind_io_def[of "the_kernel_name _ _"] name load_aicore_def ok Let_def
        cleanup_io_def give_def no_kernel_def)
qed

theorem ascend_load_exact_witness:
  "\<exists>k s'. npu_load (demo_npu_host willing_api) demo_npu_env False [''c''] demo_entry = Some (Inr k, s') \<and>
     lookup (tree (disk demo_entry)) [''c'', ''kernel.o''] = Some (File 0x1A4 demo_elf) \<and>
     host_log s' = [Binary_from_data demo_elf, Binary_function 9 ''k'']"
proof -
  obtain s' where run: "npu_load (demo_npu_host willing_api) demo_npu_env False [''c''] demo_entry =
     Some (Inr \<lparr>nk_aicpu = False, nk_module = 0, nk_binary = 9, nk_function = 9\<rparr>, s')" using demo_load by blast
  have disk: "lookup (tree (disk demo_entry)) [''c'', ''kernel.o''] = Some (File 0x1A4 demo_elf)" "host_log demo_entry = []"
    by (simp_all add: demo_entry_def demo_npu_def lookup_def)
  from ascend_load_exact[OF run willing_real] run disk demo_parsed show ?thesis by auto
qed


end
