(* ===== verification/State_Order.thy ===== *)
theory State_Order
  imports Prelude
begin

text \<open>
  What a computation does to its state, by induction on how it is put together: the relation
  of the states before and after is a preorder that each of its steps respects.
\<close>

section \<open>Computations that respect a preorder\<close>

definition obeys :: "('s \<Rightarrow> 's \<Rightarrow> bool) \<Rightarrow> ('s, 'a) stateful \<Rightarrow> bool" where
  "obeys R m \<longleftrightarrow> (\<forall>s r s'. m s = Some (r, s') \<longrightarrow> R s s')"

lemma obeysD: "obeys R m \<Longrightarrow> m s = Some (r, s') \<Longrightarrow> R s s'"
  by (auto simp: obeys_def)

locale state_order =
  fixes R :: "'s \<Rightarrow> 's \<Rightarrow> bool"
  assumes refl: "R s s" and trans: "R s t \<Longrightarrow> R t u \<Longrightarrow> R s u"
begin

lemma obeys_give: "obeys R (give r)"
  by (auto simp: obeys_def give_def refl)

lemma obeys_bind: "obeys R m \<Longrightarrow> (\<And>x. obeys R (f x)) \<Longrightarrow> obeys R (bind_io m f)"
  unfolding obeys_def by (blast elim: bind_io_cases intro: trans)

lemma obeys_cleanup: "obeys R m \<Longrightarrow> obeys R h \<Longrightarrow> obeys R (cleanup_io m h)"
  unfolding obeys_def by (blast elim: cleanup_io_cases intro: trans)

lemma obeys_swallow: "obeys R m \<Longrightarrow> obeys R (swallow_io m)"
  by (auto simp: obeys_def swallow_io_def)

lemma obeys_scoped: "obeys R m \<Longrightarrow> obeys R h \<Longrightarrow> obeys R (scoped_io m h)"
  unfolding obeys_def scoped_io_def by (auto split: option.splits) (blast intro: trans)+

lemma obeys_state: "(\<And>s. obeys R (m s)) \<Longrightarrow> obeys R (\<lambda>s. m s s)"
  by (auto simp: obeys_def)

lemma obeys_if: "(c \<Longrightarrow> obeys R m) \<Longrightarrow> (\<not> c \<Longrightarrow> obeys R n) \<Longrightarrow> obeys R (if c then m else n)"
  by simp

lemma obeys_pair: "(\<And>a b. obeys R (f a b)) \<Longrightarrow> obeys R (case p of (a, b) \<Rightarrow> f a b)"
  by (cases p) simp

lemma obeys_let: "obeys R (f v) \<Longrightarrow> obeys R (Let v f)"
  by simp

lemmas obeys_rules = obeys_pair obeys_let obeys_give obeys_bind obeys_cleanup obeys_swallow obeys_scoped obeys_if

end

end
