(* ===== verification/Aicpu_Helper.thy ===== *)
theory Aicpu_Helper
  imports State_Order Filesystem Ascend_Options Aicpu_Abi
begin

text \<open>
  \<^verbatim>\<open>backend/ascend/aicpu/bootstrap_helper.hpp\<close>: the Python script that the bootstrap runs in a
  process of its own. It packs the loader into a private copy of the toolkit, in which
  everything but the package and its configuration is a symbolic link to the installed files,
  and deploys it by initialising ACL on that copy. So the file tree has links here, and what
  matters is where a path ends that goes through them. The arguments are given as paths and
  numbers, paths are absolute, and texts are ASCII.
\<close>

section \<open>A file tree with links\<close>

datatype lnode = L_dir | L_file string | L_link fpath

type_synonym ltree = "(fpath \<times> lnode) list"

definition find_node :: "ltree \<Rightarrow> fpath \<Rightarrow> lnode option" where
  "find_node t p = (if p = [] then Some L_dir else map_of t p)"

text \<open>
  Where a path ends: links on the way are followed, at most \<open>n\<close> of them, and the last name is
  followed too unless the call works on the link itself. \<open>None\<close> is a path with too many links.
  Targets are absolute. A name that does not exist is kept, and the call that uses it fails.
\<close>

function walk :: "nat \<Rightarrow> ltree \<Rightarrow> bool \<Rightarrow> fpath \<Rightarrow> fpath \<Rightarrow> fpath option" where
  "walk n t follow cur [] = Some cur"
| "walk n t follow cur (c # cs) =
     (case find_node t (cur @ [c]) of
        Some (L_link q) \<Rightarrow>
          (if cs = [] \<and> \<not> follow then Some (cur @ [c])
           else if n = 0 then None
           else walk (n - 1) t follow [] (q @ cs))
      | _ \<Rightarrow> walk n t follow (cur @ [c]) cs)"
  by pat_completeness auto
termination
  by (relation "measures [\<lambda>(n, t, follow, cur, p). n, \<lambda>(n, t, follow, cur, p). length p]") auto

definition max_links :: nat where
  "max_links = 40"

text \<open>The calls that Python makes, as they succeed or fail because of what the tree holds.\<close>

definition py_error :: "string \<Rightarrow> exn" where
  "py_error m = Filesystem_error m"

definition no_such_file :: exn where
  "no_such_file = py_error (errno_text ENOENT)"

definition at_path :: "bool \<Rightarrow> fpath \<Rightarrow> (fpath \<Rightarrow> 'a result \<times> ltree) \<Rightarrow> ltree \<Rightarrow> 'a result \<times> ltree" where
  "at_path follow p f t =
     (case walk max_links t follow [] p of
        None \<Rightarrow> (Inl (py_error ''Too many levels of symbolic links''), t)
      | Some r \<Rightarrow> f r)"

definition parent_error :: "ltree \<Rightarrow> fpath \<Rightarrow> exn" where
  "parent_error t r =
     (if list_ex (\<lambda>q. case find_node t q of Some (L_file _) \<Rightarrow> True | _ \<Rightarrow> False) (prefixes (butlast r))
      then py_error (errno_text ENOTDIR) else no_such_file)"

text \<open>A new node at \<open>r\<close>, where nothing may be.\<close>

definition add_node :: "lnode \<Rightarrow> ltree \<Rightarrow> fpath \<Rightarrow> unit result \<times> ltree" where
  "add_node n t r =
     (if find_node t r \<noteq> None then (Inl (py_error (errno_text EEXIST)), t)
      else if find_node t (butlast r) \<noteq> Some L_dir then (Inl (parent_error t r), t)
      else (Inr (), (r, n) # t))"

definition mkdir_at :: "fpath \<Rightarrow> ltree \<Rightarrow> unit result \<times> ltree" where
  "mkdir_at p t = at_path False p (add_node L_dir t) t"

definition symlink_at :: "fpath \<Rightarrow> fpath \<Rightarrow> ltree \<Rightarrow> unit result \<times> ltree" where
  "symlink_at p target t = at_path False p (add_node (L_link target) t) t"

text \<open>\<^verbatim>\<open>is_dir\<close> answers no where the path leads nowhere.\<close>

definition is_dir_path :: "fpath \<Rightarrow> ltree \<Rightarrow> bool result \<times> ltree" where
  "is_dir_path p t =
     (Inr (case walk max_links t True [] p of None \<Rightarrow> False | Some r \<Rightarrow> find_node t r = Some L_dir), t)"

definition names_below :: "ltree \<Rightarrow> fpath \<Rightarrow> string list" where
  "names_below t r = remdups (map last (filter (\<lambda>q. q \<noteq> [] \<and> butlast q = r) (map fst t)))"

definition iterdir_at :: "fpath \<Rightarrow> ltree \<Rightarrow> string list result \<times> ltree" where
  "iterdir_at p t = at_path True p (\<lambda>r.
     (case find_node t r of
        Some L_dir \<Rightarrow> Inr (names_below t r)
      | Some _ \<Rightarrow> Inl (py_error (errno_text ENOTDIR))
      | None \<Rightarrow> Inl (parent_error t r), t)) t"

definition read_at :: "fpath \<Rightarrow> ltree \<Rightarrow> string result \<times> ltree" where
  "read_at p t = at_path True p (\<lambda>r.
     (case find_node t r of
        Some (L_file d) \<Rightarrow> Inr d
      | Some _ \<Rightarrow> Inl (py_error (errno_text EISDIR))
      | None \<Rightarrow> Inl (parent_error t r), t)) t"

text \<open>\<^verbatim>\<open>open\<close> for writing gives the file it opened, which is empty then; writes go to that file.\<close>

definition open_at :: "fpath \<Rightarrow> ltree \<Rightarrow> fpath result \<times> ltree" where
  "open_at p t = at_path True p (\<lambda>r.
     case find_node t r of
       Some (L_file _) \<Rightarrow> (Inr r, (r, L_file []) # t)
     | Some _ \<Rightarrow> (Inl (py_error (errno_text EISDIR)), t)
     | None \<Rightarrow> if find_node t (butlast r) \<noteq> Some L_dir then (Inl (parent_error t r), t)
               else (Inr r, (r, L_file []) # t)) t"

definition write_at :: "fpath \<Rightarrow> string \<Rightarrow> ltree \<Rightarrow> unit result \<times> ltree" where
  "write_at r d t = (Inr (), (r, L_file d) # t)"

section \<open>The process of the script\<close>

text \<open>
  Outside the script: which calls of the file system fail although the tree would allow
  them, the random name, the digest, the archive of the entries of a directory, and ACL,
  whose status depends on the calls made before. A call of ACL is kept with the environment
  that it sees.
\<close>

datatype acl_arg = No_config | Device_arg int

type_synonym acl_call = "environ \<times> string \<times> acl_arg list"

record script_os =
  call_fails :: "nat \<Rightarrow> bool"
  uuid4_hex :: string
  sha256_hex :: "string \<Rightarrow> string"
  tar_gz :: "(fpath \<times> lnode) list \<Rightarrow> string"
  acl_loads :: bool
  acl_has :: "string \<Rightarrow> bool"
  acl_status :: "acl_call list \<Rightarrow> acl_call \<Rightarrow> int"

record script_state =
  files :: ltree
  calls_made :: nat
  py_environ :: environ
  acl_calls :: "acl_call list"

type_synonym 'a script = "(script_state, 'a) stateful"

definition os_call :: "script_os \<Rightarrow> (ltree \<Rightarrow> 'a result \<times> ltree) \<Rightarrow> 'a script" where
  "os_call H f s =
     (let s1 = s\<lparr>calls_made := Suc (calls_made s)\<rparr>
      in if call_fails H (calls_made s) then Some (Inl (py_error (errno_text EIO)), s1)
         else case f (files s) of (r, t) \<Rightarrow> Some (r, s1\<lparr>files := t\<rparr>))"

section \<open>The library of Python, as far as the script uses it\<close>

text \<open>\<^verbatim>\<open>try: m except OSError as x: f(x)\<close>\<close>

definition on_error :: "'a script \<Rightarrow> (exn \<Rightarrow> 'a script) \<Rightarrow> 'a script" where
  "on_error m f s = (case m s of Some (Inl x, s') \<Rightarrow> f x s' | r \<Rightarrow> r)"

text \<open>\<^verbatim>\<open>Path.mkdir\<close>: with \<^verbatim>\<open>exist_ok\<close> a directory that is there is no error.\<close>

definition mkdir_failed :: "script_os \<Rightarrow> bool \<Rightarrow> fpath \<Rightarrow> exn \<Rightarrow> unit script" where
  "mkdir_failed H exist_ok p x =
     (if exist_ok \<and> x \<noteq> no_such_file
      then bind_io (os_call H (is_dir_path p)) (\<lambda>d. give (if d then Inr () else Inl x))
      else give (Inl x))"

definition mkdir_path :: "script_os \<Rightarrow> bool \<Rightarrow> fpath \<Rightarrow> unit script" where
  "mkdir_path H exist_ok p = on_error (os_call H (mkdir_at p)) (mkdir_failed H exist_ok p)"

text \<open>With \<^verbatim>\<open>parents\<close> a missing parent is made, then the directory once more; a path is reversed here.\<close>

fun mkdir_parents :: "script_os \<Rightarrow> bool \<Rightarrow> string list \<Rightarrow> unit script" where
  "mkdir_parents H exist_ok [] = mkdir_path H exist_ok []"
| "mkdir_parents H exist_ok (c # rp) =
     (let p = rev (c # rp)
      in on_error (os_call H (mkdir_at p)) (\<lambda>x.
           if x = no_such_file
           then bind_io (mkdir_parents H True rp) (\<lambda>_. mkdir_path H exist_ok p)
           else mkdir_failed H exist_ok p x))"

definition write_file :: "script_os \<Rightarrow> fpath \<Rightarrow> string \<Rightarrow> unit script" where
  "write_file H p d = bind_io (os_call H (open_at p)) (\<lambda>r. os_call H (write_at r d))"

text \<open>\<^verbatim>\<open>shutil.copyfile\<close>: the source is opened before the target is made.\<close>

definition copyfile :: "script_os \<Rightarrow> fpath \<Rightarrow> fpath \<Rightarrow> unit script" where
  "copyfile H source destination =
     bind_io (os_call H (read_at source)) (\<lambda>data. write_file H destination data)"

text \<open>The entries of a directory as \<^verbatim>\<open>tarfile\<close> adds them, below the name of the directory.\<close>

definition archived :: "ltree \<Rightarrow> fpath \<Rightarrow> (fpath \<times> lnode) list" where
  "archived t dir =
     map (\<lambda>q. (drop (length dir - 1) q, the (find_node t q))) (remdups (filter (prefix dir) (map fst t)))"

definition make_archive :: "script_os \<Rightarrow> fpath \<Rightarrow> fpath \<Rightarrow> unit script" where
  "make_archive H p dir =
     bind_io (os_call H (open_at p)) (\<lambda>r.
     bind_io (os_call H (\<lambda>t. (Inr (tar_gz H (archived t dir)), t))) (\<lambda>d.
     os_call H (write_at r d)))"

text \<open>\<^verbatim>\<open>read_text\<close> translates the ends of lines; \<^verbatim>\<open>rstrip\<close> removes white space at the end.\<close>

fun universal_newlines :: "string \<Rightarrow> string" where
  "universal_newlines [] = []"
| "universal_newlines [c] = [if c = CHR 0x0D then CHR 0x0A else c]"
| "universal_newlines (c # d # cs) =
     (if c = CHR 0x0D then CHR 0x0A # universal_newlines (if d = CHR 0x0A then cs else d # cs)
      else c # universal_newlines (d # cs))"

definition py_space :: "char \<Rightarrow> bool" where
  "py_space c \<longleftrightarrow> (let n = of_char c :: nat in 9 \<le> n \<and> n \<le> 13 \<or> 28 \<le> n \<and> n \<le> 32)"

definition rstrip :: "string \<Rightarrow> string" where
  "rstrip s = rev (dropWhile py_space (rev s))"

text \<open>\<^verbatim>\<open>json.dumps\<close> of nested dictionaries of strings, for ASCII texts.\<close>

datatype py_value = Py_str string | Py_dict "(string \<times> py_value) list"

definition py_char :: "char \<Rightarrow> string" where
  "py_char c =
     (if c = CHR 0x22 then [CHR 0x5C, CHR 0x22]
      else if c = CHR 0x5C then [CHR 0x5C, CHR 0x5C]
      else if c = CHR 0x0A then [CHR 0x5C, CHR ''n'']
      else if c = CHR 0x0D then [CHR 0x5C, CHR ''r'']
      else if c = CHR 0x09 then [CHR 0x5C, CHR ''t'']
      else if c = CHR 0x0C then [CHR 0x5C, CHR ''f'']
      else if c = CHR 0x08 then [CHR 0x5C, CHR ''b'']
      else let n = of_char c :: nat
      in if n < 32 \<or> n = 127 then CHR 0x5C # ''u00'' @ [hex_digit (n div 16), hex_digit (n mod 16)] else [c])"

definition py_quote :: "string \<Rightarrow> string" where
  "py_quote s = CHR 0x22 # concat (map py_char s) @ [CHR 0x22]"

fun py_dumps :: "py_value \<Rightarrow> string" and py_items :: "(string \<times> py_value) list \<Rightarrow> string" where
  "py_dumps (Py_str s) = py_quote s"
| "py_dumps (Py_dict items) = ''{'' @ py_items items @ ''}''"
| "py_items [] = []"
| "py_items [(k, v)] = py_quote k @ '': '' @ py_dumps v"
| "py_items ((k, v) # items) = py_quote k @ '': '' @ py_dumps v @ '', '' @ py_items items"

section \<open>The script\<close>

text \<open>\<^verbatim>\<open>overlay\<close>: links to what the source holds, but for the private names.\<close>

fun link_children :: "script_os \<Rightarrow> fpath \<Rightarrow> fpath \<Rightarrow> string list \<Rightarrow> string list \<Rightarrow> unit script" where
  "link_children H source destination private [] = give (Inr ())"
| "link_children H source destination private (c # cs) =
     bind_io (if c \<notin> set private then os_call H (symlink_at (destination @ [c]) (source @ [c])) else give (Inr ()))
       (\<lambda>_. link_children H source destination private cs)"

definition overlay :: "script_os \<Rightarrow> fpath \<Rightarrow> fpath \<Rightarrow> string list \<Rightarrow> unit script" where
  "overlay H source destination private =
     bind_io (mkdir_path H True destination) (\<lambda>_.
     bind_io (os_call H (is_dir_path source)) (\<lambda>is_dir.
     if is_dir
     then bind_io (os_call H (iterdir_at source)) (\<lambda>cs. link_children H source destination private cs)
     else give (Inr ())))"

definition package_name :: "script_os \<Rightarrow> string" where
  "package_name H = ''deep_jit_aicpu_'' @ uuid4_hex H"

definition shadow_dir :: "fpath \<Rightarrow> fpath" where
  "shadow_dir state = state @ [''shadow'']"

definition stage_dir :: "fpath \<Rightarrow> fpath" where
  "stage_dir state = shadow_dir state @ [''build'', ''aicpu_kernels_device'']"

definition package_dir :: "script_os \<Rightarrow> fpath" where
  "package_dir H = [''opp'', ''vendors'', package_name H, ''aicpu'', ''kernel'']"

text \<open>The lines up to the links: the stage with the loader and its digest.\<close>

definition stage_loader :: "script_os \<Rightarrow> fpath \<Rightarrow> fpath \<Rightarrow> unit script" where
  "stage_loader H state loader =
     (let stage = stage_dir state; library = ''lib'' @ package_name H @ ''.so''
      in bind_io (mkdir_parents H False (rev stage)) (\<lambda>_.
         bind_io (copyfile H loader (stage @ [library])) (\<lambda>_.
         bind_io (os_call H (read_at (stage @ [library]))) (\<lambda>data.
         write_file H (stage @ [''bin_hash.cfg'']) (library @ ''='' @ sha256_hex H data @ [CHR 0x0A])))))"

definition overlay_toolkit :: "script_os \<Rightarrow> fpath \<Rightarrow> fpath \<Rightarrow> unit script" where
  "overlay_toolkit H cann state =
     (let shadow = shadow_dir state
      in bind_io (overlay H cann shadow [''conf'', ''opp'', ''build'']) (\<lambda>_.
         bind_io (overlay H (cann @ [''conf'']) (shadow @ [''conf''])
           [''ascend_package_load.ini'', ''bootstrap.json'']) (\<lambda>_.
         bind_io (overlay H (cann @ [''opp'']) (shadow @ [''opp'']) [''vendors'']) (\<lambda>_.
         overlay H (cann @ [''opp'', ''vendors'']) (shadow @ [''opp'', ''vendors'']) [package_name H]))))"

definition package_manifest :: "script_os \<Rightarrow> string \<Rightarrow> string" where
  "package_manifest H installed =
     rstrip (universal_newlines installed) @ [CHR 0x0A] @
     ''name:'' @ package_name H @ ''.tar.gz'' @ [CHR 0x0A] @ ''install_path:2'' @ [CHR 0x0A] @
     ''optional:true'' @ [CHR 0x0A] @ ''package_path:opp/vendors/'' @ package_name H @ ''/aicpu/kernel'' @ [CHR 0x0A] @
     ''load_as_per_soc:false'' @ [CHR 0x0A]"

definition bootstrap_json :: "script_os \<Rightarrow> string \<Rightarrow> string" where
  "bootstrap_json H kernel_entry =
     py_dumps (Py_dict [(kernel_entry, Py_dict [(''opInfo'', Py_dict
       [(''functionName'', Py_str kernel_entry), (''kernelSo'', Py_str (''lib'' @ package_name H @ ''.so'')),
        (''opKernelLib'', Py_str ''AICPUKernel'')])])])"

definition make_package :: "script_os \<Rightarrow> fpath \<Rightarrow> fpath \<Rightarrow> string \<Rightarrow> unit script" where
  "make_package H cann state kernel_entry =
     (let shadow = shadow_dir state; dir = shadow @ package_dir H; ini = ''ascend_package_load.ini''
      in bind_io (mkdir_parents H False (rev dir)) (\<lambda>_.
         bind_io (make_archive H (dir @ [package_name H @ ''.tar.gz'']) (stage_dir state)) (\<lambda>_.
         bind_io (os_call H (read_at (cann @ [''conf'', ini]))) (\<lambda>installed.
         bind_io (write_file H (shadow @ [''conf'', ini]) (package_manifest H installed)) (\<lambda>_.
         write_file H (shadow @ [''conf'', ''bootstrap.json'']) (bootstrap_json H kernel_entry))))))"

text \<open>The deployment: ACL on the private copy; a status other than zero raises.\<close>

definition update_environ :: "(string \<times> string) list \<Rightarrow> unit script" where
  "update_environ kvs s = Some (Inr (), s\<lparr>py_environ := py_environ s ++ map_of kvs\<rparr>)"

definition call_acl :: "script_os \<Rightarrow> string \<Rightarrow> acl_arg list \<Rightarrow> unit script" where
  "call_acl H f args s =
     (if \<not> acl_has H f then Some (Inl (Std_exception (''undefined symbol: '' @ f)), s)
      else let c = (py_environ s, f, args); status = acl_status H (acl_calls s) c;
               s1 = s\<lparr>acl_calls := acl_calls s @ [c]\<rparr>
      in if status \<noteq> 0 then Some (Inl (Std_exception (f @ '' failed: '' @ show_int status)), s1) else Some (Inr (), s1))"

fun acl_sequence :: "script_os \<Rightarrow> (string \<times> acl_arg list) list \<Rightarrow> unit script" where
  "acl_sequence H [] = give (Inr ())"
| "acl_sequence H ((f, args) # cs) = bind_io (call_acl H f args) (\<lambda>_. acl_sequence H cs)"

definition deployment :: "int \<Rightarrow> (string \<times> acl_arg list) list" where
  "deployment device =
     [(''aclInit'', [No_config]), (''aclrtSetDevice'', [Device_arg device]),
      (''aclrtResetDevice'', [Device_arg device]), (''aclFinalize'', [])]"

definition shadow_variables :: "fpath \<Rightarrow> (string \<times> string) list" where
  "shadow_variables state =
     (let at = show_path (shadow_dir state)
      in [(''ASCEND_HOME_PATH'', at), (''ASCEND_LATEST_INSTALL_PATH'', at), (''ASCEND_AICPU_PATH'', at)])"

definition deploy_package :: "script_os \<Rightarrow> fpath \<Rightarrow> int \<Rightarrow> unit script" where
  "deploy_package H state device =
     bind_io (update_environ (shadow_variables state)) (\<lambda>_.
     if \<not> acl_loads H then give (Inl (Std_exception ''libascendcl.so'')) else
     acl_sequence H (deployment device))"

definition helper_main :: "script_os \<Rightarrow> fpath \<Rightarrow> fpath \<Rightarrow> fpath \<Rightarrow> int \<Rightarrow> string \<Rightarrow> unit script" where
  "helper_main H cann state loader device kernel_entry =
     bind_io (stage_loader H state loader) (\<lambda>_.
     bind_io (overlay_toolkit H cann state) (\<lambda>_.
     bind_io (make_package H cann state kernel_entry) (\<lambda>_.
     deploy_package H state device)))"

section \<open>Where the paths of the script end\<close>

definition is_link :: "ltree \<Rightarrow> fpath \<Rightarrow> bool" where
  "is_link t p = (case find_node t p of Some (L_link _) \<Rightarrow> True | _ \<Rightarrow> False)"

lemma is_link_iff: "is_link t p \<longleftrightarrow> (\<exists>q. find_node t p = Some (L_link q))"
  by (auto simp: is_link_def split: option.splits lnode.splits)

lemma walk_step [simp]: "\<not> is_link t (cur @ [c]) \<Longrightarrow> walk n t follow cur (c # cs) = walk n t follow (cur @ [c]) cs"
  by (auto simp: is_link_def split: option.splits lnode.splits)

declare walk.simps(2) [simp del]

text \<open>A path without links ends where it says; the last name may be a link when it is not followed.\<close>

lemma walk_plain:
  assumes "\<And>q. prefix q p \<Longrightarrow> q \<noteq> [] \<Longrightarrow> \<not> is_link t (cur @ q)"
  shows "walk n t follow cur p = Some (cur @ p)"
  using assms
proof (induction p arbitrary: cur)
  case (Cons c p)
  have "walk n t follow (cur @ [c]) p = Some ((cur @ [c]) @ p)"
    by (rule Cons.IH) (use Cons.prems[of "c # _"] in simp)
  with Cons.prems[of "[c]"] show ?case by simp
qed simp

lemma walk_nofollow:
  assumes "\<And>q. prefix q p \<Longrightarrow> q \<noteq> [] \<Longrightarrow> \<not> is_link t (cur @ q)"
  shows "walk n t False cur (p @ [c]) = Some (cur @ p @ [c])"
  using assms
proof (induction p arbitrary: cur)
  case Nil
  show ?case by (auto simp: walk.simps(2) split: option.splits lnode.splits)
next
  case (Cons d p)
  have "walk n t False (cur @ [d]) (p @ [c]) = Some ((cur @ [d]) @ p @ [c])"
    by (rule Cons.IH) (use Cons.prems[of "d # _"] in simp)
  with Cons.prems[of "[d]"] show ?case by simp
qed

text \<open>Nothing leads out of a directory that holds nothing.\<close>

lemma walk_inside:
  assumes "\<And>q. prefix sh q \<Longrightarrow> find_node t q = None" and "prefix sh cur"
  shows "walk n t follow cur p = Some (cur @ p)"
  by (rule walk_plain) (use assms in \<open>auto simp: is_link_def\<close>)

text \<open>A path that ends outside a directory ends there too when only that directory is filled.\<close>

lemma walk_outside:
  assumes "walk n t follow cur p = Some r" "\<not> prefix sh r"
    and "\<And>q. \<not> prefix sh q \<Longrightarrow> find_node t' q = find_node t q" and "\<And>q. prefix sh q \<Longrightarrow> find_node t q = None"
  shows "walk n t' follow cur p = Some r"
  using assms(1,3,4)
proof (induction n t follow cur p rule: walk.induct)
  case (2 n t follow cur c cs)
  show ?case
  proof (cases "prefix sh (cur @ [c])")
    case True
    with 2(5,7) have "walk n t follow (cur @ [c]) cs = Some r" by (simp add: is_link_def)
    with walk_inside[OF 2(7) True] have "r = (cur @ [c]) @ cs" by simp
    with True assms(2) show ?thesis by (metis prefixI prefix_order.trans)
  next
    case False
    note same = 2(6)[OF False]
    show ?thesis
    proof (cases "is_link t (cur @ [c])")
      case True
      then obtain q where q: "find_node t (cur @ [c]) = Some (L_link q)" by (auto simp: is_link_iff)
      with same 2(5) 2(4)[OF q refl _ _ _ 2(6,7)] show ?thesis by (auto simp: walk.simps(2) split: if_splits)
    next
      case plain: False
      with same have "\<not> is_link t' (cur @ [c])" by (simp add: is_link_def)
      moreover have "walk n t' follow (cur @ [c]) cs = Some r"
        using plain 2(5) 2(1)[OF _ _ 2(6,7)] 2(2)[OF _ _ _ 2(6,7)] 2(3)[OF _ _ _ 2(6,7)]
        by (cases "find_node t (cur @ [c])") (auto simp: is_link_def split: lnode.splits)
      ultimately show ?thesis by simp
    qed
  qed
qed simp

section \<open>What the script changes\<close>

text \<open>
  The paths of the private copy that the script makes and writes itself, relative to the
  copy; the other paths in it are links to the toolkit.
\<close>

definition private_roots :: "script_os \<Rightarrow> fpath list" where
  "private_roots H =
     [[''build''], [''conf'', ''ascend_package_load.ini''], [''conf'', ''bootstrap.json''],
      [''opp'', ''vendors'', package_name H]]"

definition private_part :: "script_os \<Rightarrow> fpath \<Rightarrow> bool" where
  "private_part H p \<longleftrightarrow> list_ex (\<lambda>r. prefix p r \<or> prefix r p) (private_roots H)"

definition own_path :: "script_os \<Rightarrow> fpath \<Rightarrow> fpath \<Rightarrow> bool" where
  "own_path H state p \<longleftrightarrow> (\<exists>q. p = shadow_dir state @ q \<and> private_part H q)"

lemma own_path_append [simp]: "own_path H state (shadow_dir state @ q) = private_part H q"
  by (auto simp: own_path_def)

lemma private_part_root [simp]: "private_part H []"
  by (simp add: private_part_def private_roots_def)

lemma own_path_root [simp]: "own_path H state (shadow_dir state)"
  using own_path_append[of H state "[]"] by simp

lemma private_part_prefix: "private_part H p \<Longrightarrow> prefix q p \<Longrightarrow> private_part H q"
  unfolding private_part_def list_ex_iff by (meson prefix_order.trans prefix_same_cases)

lemma own_path_prefix:
  assumes "own_path H state p" "prefix q p"
  shows "prefix q state \<or> own_path H state q"
proof -
  from assms obtain r where r: "p = shadow_dir state @ r" "private_part H r" by (auto simp: own_path_def)
  with assms(2) consider "prefix q (shadow_dir state)" | q' where "q = shadow_dir state @ q'" "prefix q' r"
    by (auto simp: prefix_append)
  then show ?thesis
    by cases (use r private_part_prefix in \<open>auto simp: shadow_dir_def own_path_def\<close>)
qed

text \<open>The tree \<open>t0\<close> before the script is unchanged outside the copy, and no own path is a link.\<close>

definition script_inv :: "script_os \<Rightarrow> fpath \<Rightarrow> ltree \<Rightarrow> ltree \<Rightarrow> bool" where
  "script_inv H state t0 t \<longleftrightarrow>
     (\<forall>q. \<not> prefix (shadow_dir state) q \<longrightarrow> find_node t q = find_node t0 q) \<and>
     (\<forall>q. prefix q state \<or> own_path H state q \<longrightarrow> \<not> is_link t q) \<and> find_node t state = Some L_dir"

lemma walk_own:
  assumes "script_inv H state t0 t" "own_path H state p"
  shows "walk n t follow [] p = Some p" "walk n t False [] (p @ [c]) = Some (p @ [c])"
proof -
  have plain: "\<not> is_link t ([] @ q)" if "prefix q p" for q
    using own_path_prefix[OF assms(2) that] assms(1) by (auto simp: script_inv_def)
  show "walk n t follow [] p = Some p" using walk_plain[of p t "[]"] plain by simp
  show "walk n t False [] (p @ [c]) = Some (p @ [c])" using walk_nofollow[of p t "[]"] plain by simp
qed

text \<open>A change of the tree: of paths in \<open>P\<close> only, and what there is stays but for paths in \<open>W\<close>.\<close>

definition tree_step :: "script_os \<Rightarrow> fpath \<Rightarrow> ltree \<Rightarrow> fpath set \<Rightarrow> fpath set \<Rightarrow> ltree \<Rightarrow> ltree \<Rightarrow> bool" where
  "tree_step H state t0 P W t t' \<longleftrightarrow>
     script_inv H state t0 t' \<and> (\<forall>q. q \<notin> P \<longrightarrow> find_node t' q = find_node t q) \<and>
     (\<forall>q n. q \<notin> W \<longrightarrow> find_node t q = Some n \<longrightarrow> find_node t' q = Some n)"

definition script_step ::
  "script_os \<Rightarrow> fpath \<Rightarrow> ltree \<Rightarrow> fpath set \<Rightarrow> fpath set \<Rightarrow> script_state \<Rightarrow> script_state \<Rightarrow> bool" where
  "script_step H state t0 P W s s' \<longleftrightarrow>
     (script_inv H state t0 (files s) \<longrightarrow>
        tree_step H state t0 P W (files s) (files s') \<and> acl_calls s' = acl_calls s \<and> py_environ s' = py_environ s)"

interpretation scripting: state_order "script_step H state t0 P W" for H state t0 P W
  by unfold_locales (auto simp: script_step_def tree_step_def)

lemma script_step_mono:
  "script_step H state t0 P W s s' \<Longrightarrow> P \<subseteq> P' \<Longrightarrow> W \<subseteq> W' \<Longrightarrow> script_step H state t0 P' W' s s'"
  unfolding script_step_def tree_step_def by blast

lemma obeys_mono:
  assumes "obeys (script_step H state t0 P W) m" "P \<subseteq> P'" "W \<subseteq> W'"
  shows "obeys (script_step H state t0 P' W') m"
  using assms script_step_mono unfolding obeys_def by blast

lemma obeys_os_call:
  assumes "\<And>t. script_inv H state t0 t \<Longrightarrow> tree_step H state t0 P W t (snd (f t))"
  shows "obeys (script_step H state t0 P W) (os_call H f)"
  unfolding obeys_def
proof (intro allI impI)
  fix s r s'
  assume run: "os_call H f s = Some (r, s')"
  show "script_step H state t0 P W s s'"
  proof (cases "call_fails H (calls_made s)")
    case True
    with run show ?thesis by (auto simp: os_call_def script_step_def tree_step_def)
  next
    case False
    with run have "s' = s\<lparr>calls_made := Suc (calls_made s), files := snd (f (files s))\<rparr>"
      by (auto simp: os_call_def Let_def split: prod.splits)
    with assms show ?thesis by (simp add: script_step_def)
  qed
qed

lemma find_node_Cons: "find_node ((r, n) # t) q = (if q = r \<and> q \<noteq> [] then Some n else find_node t q)"
  by (simp add: find_node_def)

lemma below_shadow: "\<not> prefix (shadow_dir state) state" "prefix q state \<Longrightarrow> \<not> prefix (shadow_dir state) q"
  by (auto simp: shadow_dir_def dest!: prefix_length_le)

lemma tree_step_put:
  assumes "script_inv H state t0 t" "prefix (shadow_dir state) r" "own_path H state r \<Longrightarrow> \<nexists>q. n = L_link q"
    and "find_node t r = None \<or> r \<in> W" "r \<in> P"
  shows "tree_step H state t0 P W t ((r, n) # t)"
  using assms below_shadow[of state] below_shadow(2)[of r state]
  by (auto simp: tree_step_def script_inv_def find_node_Cons is_link_iff split: if_splits)

lemma tree_step_refl: "script_inv H state t0 t \<Longrightarrow> tree_step H state t0 P W t t"
  by (simp add: tree_step_def)

lemma own_path_below: "own_path H state p \<Longrightarrow> prefix (shadow_dir state) p"
  by (auto simp: own_path_def)

lemma obeys_mkdir: "own_path H state p \<Longrightarrow> p \<in> P \<Longrightarrow> obeys (script_step H state t0 P W) (os_call H (mkdir_at p))"
  by (rule obeys_os_call)
    (auto simp: mkdir_at_def at_path_def walk_own add_node_def own_path_below intro!: tree_step_put tree_step_refl)

lemma obeys_symlink:
  assumes "own_path H state p" "\<not> own_path H state (p @ [c])" "p @ [c] \<in> P"
  shows "obeys (script_step H state t0 P W) (os_call H (symlink_at (p @ [c]) target))"
  using assms own_path_below[OF assms(1)]
  by (intro obeys_os_call) (auto simp: symlink_at_def at_path_def walk_own add_node_def intro!: tree_step_put tree_step_refl)

lemma obeys_read:
  assumes "\<And>t. snd (f t) = t"
  shows "obeys (script_step H state t0 P W) (os_call H f)"
  by (rule obeys_os_call) (simp add: assms tree_step_refl)

lemma reads_only [simp]:
  "snd (is_dir_path p t) = t" "snd (iterdir_at p t) = t" "snd (read_at p t) = t"
  by (simp_all add: is_dir_path_def iterdir_at_def read_at_def at_path_def split: option.split)

text \<open>The operations of the library, on own paths.\<close>

lemma os_call_Inr:
  assumes "os_call H f s = Some (Inr v, s')"
  shows "f (files s) = (Inr v, files s')"
  using assms by (auto simp: os_call_def Let_def split: if_splits prod.splits)

lemma open_own:
  assumes "script_inv H state t0 t" "own_path H state p" "open_at p t = (Inr r, t')"
  shows "r = p \<and> t' = (p, L_file []) # t"
  using assms by (auto simp: open_at_def at_path_def walk_own split: option.splits lnode.splits if_splits)

lemma obeys_open:
  "own_path H state p \<Longrightarrow> p \<in> P \<Longrightarrow> p \<in> W \<Longrightarrow> obeys (script_step H state t0 P W) (os_call H (open_at p))"
  by (rule obeys_os_call)
    (auto simp: open_at_def at_path_def walk_own own_path_below intro!: tree_step_put tree_step_refl split: option.split lnode.split)

text \<open>A file that is open: what is written goes to its own path.\<close>

lemma obeys_after_open:
  assumes "own_path H state p" "p \<in> P" "p \<in> W" "obeys (script_step H state t0 P W) (f p)"
  shows "obeys (script_step H state t0 P W) (bind_io (os_call H (open_at p)) f)"
  unfolding obeys_def
proof (intro allI impI)
  fix s r s'
  assume "bind_io (os_call H (open_at p)) f s = Some (r, s')"
  then show "script_step H state t0 P W s s'"
  proof (cases rule: bind_io_cases)
    case (threw x)
    with obeys_open[OF assms(1-3)] show ?thesis by (auto dest: obeysD)
  next
    case (went v s1)
    show ?thesis
    proof (cases "script_inv H state t0 (files s)")
      case True
      with open_own[OF _ assms(1) os_call_Inr[OF went(1)]] have "v = p" by blast
      with went(2) assms(4) obeysD[OF obeys_open[OF assms(1-3)] went(1)] show ?thesis
        by (blast dest: obeysD intro: scripting.trans)
    qed (simp add: script_step_def)
  qed
qed

lemma obeys_write_at:
  "own_path H state p \<Longrightarrow> p \<in> P \<Longrightarrow> p \<in> W \<Longrightarrow> obeys (script_step H state t0 P W) (os_call H (write_at p d))"
  by (rule obeys_os_call) (auto simp: write_at_def own_path_below intro!: tree_step_put)

lemma obeys_write_file:
  "own_path H state p \<Longrightarrow> p \<in> P \<Longrightarrow> p \<in> W \<Longrightarrow> obeys (script_step H state t0 P W) (write_file H p d)"
  unfolding write_file_def by (intro obeys_after_open obeys_write_at)

lemma obeys_make_archive:
  "own_path H state p \<Longrightarrow> p \<in> P \<Longrightarrow> p \<in> W \<Longrightarrow> obeys (script_step H state t0 P W) (make_archive H p dir)"
  unfolding make_archive_def by (intro obeys_after_open scripting.obeys_bind obeys_write_at obeys_read) simp_all

lemma obeys_copyfile:
  "own_path H state p \<Longrightarrow> p \<in> P \<Longrightarrow> p \<in> W \<Longrightarrow> obeys (script_step H state t0 P W) (copyfile H source p)"
  unfolding copyfile_def by (intro scripting.obeys_bind obeys_write_file obeys_read) simp_all

lemma obeys_on_error:
  assumes "obeys (script_step H state t0 P W) m" "\<And>x. obeys (script_step H state t0 P W) (f x)"
  shows "obeys (script_step H state t0 P W) (on_error m f)"
  using assms unfolding obeys_def on_error_def
  by (auto split: option.splits sum.splits) (blast intro: scripting.trans)+

lemma obeys_mkdir_failed: "obeys (script_step H state t0 P W) (mkdir_failed H b p x)"
  unfolding mkdir_failed_def by (intro scripting.obeys_rules obeys_read) simp_all

lemma obeys_mkdir_path:
  "own_path H state p \<Longrightarrow> p \<in> P \<Longrightarrow> obeys (script_step H state t0 P W) (mkdir_path H b p)"
  unfolding mkdir_path_def by (intro obeys_on_error obeys_mkdir obeys_mkdir_failed)

text \<open>The state directory is there, so the parents that are made are own paths.\<close>

lemma on_error_cases [consumes 1, case_names handled went]:
  assumes "on_error m f s = Some (r, s')"
  obtains x s1 where "m s = Some (Inl x, s1)" "f x s1 = Some (r, s')" | v where "m s = Some (Inr v, s')" "r = Inr v"
  using assms by (auto simp: on_error_def split: option.splits sum.splits)

lemma mkdir_shadow:
  assumes "script_inv H state t0 (files s)" "os_call H (mkdir_at (shadow_dir state)) s = Some (Inl x, s')"
  shows "x \<noteq> no_such_file"
  using assms walk_own(1)[OF assms(1) own_path_root]
  by (auto simp: os_call_def Let_def mkdir_at_def at_path_def add_node_def script_inv_def shadow_dir_def no_such_file_def
      py_error_def split: if_splits)

lemma mkdir_parents_step:
  "private_part H q \<Longrightarrow> obeys (script_step H state t0 {p. own_path H state p \<and> prefix p (shadow_dir state @ q)} W)
     (mkdir_parents H b (rev (shadow_dir state @ q)))"
proof (induction q arbitrary: b rule: rev_induct)
  case Nil
  let ?P = "{p. own_path H state p \<and> prefix p (shadow_dir state @ [])}"
  have mk: "obeys (script_step H state t0 ?P W) (os_call H (mkdir_at (shadow_dir state)))" by (intro obeys_mkdir) simp_all
  have "script_step H state t0 ?P W s s'"
    if run: "mkdir_parents H b (rev (shadow_dir state)) s = Some (r, s')" "script_inv H state t0 (files s)" for s r s'
  proof -
    have "mkdir_parents H b (rev (shadow_dir state)) = on_error (os_call H (mkdir_at (shadow_dir state))) (\<lambda>x.
        if x = no_such_file then bind_io (mkdir_parents H True (rev state)) (\<lambda>_. mkdir_path H b (shadow_dir state))
        else mkdir_failed H b (shadow_dir state) x)" unfolding shadow_dir_def by (simp add: Let_def)
    with run(1) have "on_error (os_call H (mkdir_at (shadow_dir state))) (\<lambda>x.
        if x = no_such_file then bind_io (mkdir_parents H True (rev state)) (\<lambda>_. mkdir_path H b (shadow_dir state))
        else mkdir_failed H b (shadow_dir state) x) s = Some (r, s')" by simp
    then show ?thesis
    proof (cases rule: on_error_cases)
      case (handled x s1)
      with mkdir_shadow[OF run(2) handled(1)] obeysD[OF mk handled(1)] show ?thesis
        by (auto dest: obeysD[OF obeys_mkdir_failed] intro: scripting.trans)
    qed (use mk in \<open>auto dest: obeysD\<close>)
  qed
  then show ?case by (auto simp: obeys_def script_step_def)
next
  case (snoc c q)
  let ?P = "{p. own_path H state p \<and> prefix p (shadow_dir state @ q @ [c])}"
  have own: "own_path H state (shadow_dir state @ q @ [c])" "private_part H q"
    using snoc.prems private_part_prefix[OF snoc.prems, of q] by simp_all
  have "obeys (script_step H state t0 ?P W) (mkdir_parents H True (rev (shadow_dir state @ q)))"
    by (rule obeys_mono[OF snoc.IH[OF own(2)]]) (auto intro: prefix_order.trans)
  with own(1) have "obeys (script_step H state t0 ?P W) (mkdir_parents H b (c # rev (shadow_dir state @ q)))"
    by (simp add: Let_def) (intro obeys_on_error scripting.obeys_if scripting.obeys_bind obeys_mkdir obeys_mkdir_path obeys_mkdir_failed; simp)
  then show ?case by simp
qed

text \<open>The links of an overlay are no own paths.\<close>

lemma obeys_link_children:
  assumes "own_path H state d" and "\<And>c. c \<notin> set private \<Longrightarrow> \<not> own_path H state (d @ [c])"
    and "\<And>c. c \<notin> set private \<Longrightarrow> d @ [c] \<in> P"
  shows "obeys (script_step H state t0 P W) (link_children H source d private cs)"
proof (induction cs)
  case (Cons c cs)
  have "obeys (script_step H state t0 P W)
      (if c \<notin> set private then os_call H (symlink_at (d @ [c]) (source @ [c])) else give (Inr ()))"
    using assms by (intro scripting.obeys_if obeys_symlink scripting.obeys_give) auto
  with Cons show ?case by (simp add: scripting.obeys_bind)
qed (simp add: scripting.obeys_give)

lemma obeys_overlay:
  assumes "own_path H state d" "d \<in> P" and "\<And>c. c \<notin> set private \<Longrightarrow> \<not> own_path H state (d @ [c])"
    and "\<And>c. c \<notin> set private \<Longrightarrow> d @ [c] \<in> P"
  shows "obeys (script_step H state t0 P W) (overlay H source d private)"
  unfolding overlay_def
  using obeys_link_children[OF assms(1,3,4)] obeys_mkdir_path[OF assms(1,2)]
  by (intro scripting.obeys_bind scripting.obeys_if scripting.obeys_give obeys_read) simp_all

section \<open>The phases of the script\<close>

lemma private_parts:
  "private_part H [''build'']" "private_part H (''build'' # p)"
  "private_part H [''conf'']" "private_part H [''conf'', ''ascend_package_load.ini'']"
  "private_part H [''conf'', ''bootstrap.json'']" "private_part H [''opp'']" "private_part H [''opp'', ''vendors'']"
  "private_part H (package_dir H)" "private_part H (package_dir H @ p)"
  "private_part H (''opp'' # ''vendors'' # package_name H # p)"
  by (simp_all add: private_part_def private_roots_def package_dir_def)

lemma link_parts:
  "c \<notin> {''conf'', ''opp'', ''build''} \<Longrightarrow> \<not> private_part H [c]"
  "c \<notin> {''ascend_package_load.ini'', ''bootstrap.json''} \<Longrightarrow> \<not> private_part H [''conf'', c]"
  "c \<noteq> ''vendors'' \<Longrightarrow> \<not> private_part H [''opp'', c]"
  "c \<noteq> package_name H \<Longrightarrow> \<not> private_part H [''opp'', ''vendors'', c]"
  by (auto simp: private_part_def private_roots_def)

lemma own_stage: "own_path H state (stage_dir state)" "own_path H state (stage_dir state @ p)"
  by (simp_all add: stage_dir_def private_parts)

definition stage_library :: "script_os \<Rightarrow> fpath \<Rightarrow> fpath" where
  "stage_library H state = stage_dir state @ [''lib'' @ package_name H @ ''.so'']"

definition stage_paths :: "script_os \<Rightarrow> fpath \<Rightarrow> fpath set" where
  "stage_paths H state =
     {p. own_path H state p \<and> prefix p (stage_dir state)} \<union> {stage_library H state, stage_dir state @ [''bin_hash.cfg'']}"

text \<open>The four overlays: source, destination and private names.\<close>

definition overlays :: "script_os \<Rightarrow> fpath \<Rightarrow> fpath \<Rightarrow> (fpath \<times> fpath \<times> string list) list" where
  "overlays H cann state =
     (let shadow = shadow_dir state
      in [(cann, shadow, [''conf'', ''opp'', ''build'']),
          (cann @ [''conf''], shadow @ [''conf''], [''ascend_package_load.ini'', ''bootstrap.json'']),
          (cann @ [''opp''], shadow @ [''opp''], [''vendors'']),
          (cann @ [''opp'', ''vendors''], shadow @ [''opp'', ''vendors''], [package_name H])])"

definition overlay_paths :: "script_os \<Rightarrow> fpath \<Rightarrow> fpath set" where
  "overlay_paths H state = {p. prefix (shadow_dir state) p \<and> \<not> prefix (stage_dir state) p}"

definition package_file :: "script_os \<Rightarrow> fpath \<Rightarrow> fpath" where
  "package_file H state = shadow_dir state @ package_dir H @ [package_name H @ ''.tar.gz'']"

lemma obeys_stage_loader:
  "obeys (script_step H state t0 (stage_paths H state) {stage_library H state, stage_dir state @ [''bin_hash.cfg'']})
     (stage_loader H state loader)"
proof -
  have mk: "obeys (script_step H state t0 (stage_paths H state) W) (mkdir_parents H b (rev (stage_dir state)))" for b W
    unfolding stage_dir_def
    by (rule obeys_mono[OF mkdir_parents_step]) (auto simp: private_parts stage_paths_def stage_dir_def)
  show ?thesis
    unfolding stage_loader_def Let_def stage_library_def[symmetric]
    by (intro scripting.obeys_bind mk obeys_copyfile obeys_write_file obeys_read)
      (simp_all add: own_stage stage_paths_def stage_library_def)
qed

lemma overlay_own:
  assumes "(src, d, private) \<in> set (overlays H cann state)"
  shows "own_path H state d" "d \<in> overlay_paths H state"
    and "c \<notin> set private \<Longrightarrow> \<not> own_path H state (d @ [c])" "c \<notin> set private \<Longrightarrow> d @ [c] \<in> overlay_paths H state"
  using assms by (auto simp: overlays_def Let_def private_parts link_parts overlay_paths_def stage_dir_def)

lemma obeys_overlays:
  assumes "(src, d, private) \<in> set (overlays H cann state)"
  shows "obeys (script_step H state t0 (overlay_paths H state) {}) (overlay H src d private)"
  using overlay_own[OF assms] by (intro obeys_overlay)

lemma obeys_overlay_toolkit:
  "obeys (script_step H state t0 (overlay_paths H state) {}) (overlay_toolkit H cann state)"
  unfolding overlay_toolkit_def Let_def
  by (intro scripting.obeys_bind obeys_overlays[of _ _ _ H cann]) (simp_all add: overlays_def Let_def)

lemma obeys_make_package:
  "obeys (script_step H state t0 {p. own_path H state p \<and> \<not> prefix (stage_dir state) p}
     {package_file H state, shadow_dir state @ [''conf'', ''ascend_package_load.ini''], shadow_dir state @ [''conf'', ''bootstrap.json'']})
     (make_package H cann state kernel_entry)"
proof -
  have mk: "obeys (script_step H state t0 {p. own_path H state p \<and> \<not> prefix (stage_dir state) p} W)
      (mkdir_parents H b (rev (shadow_dir state @ package_dir H)))" for b W
    by (rule obeys_mono[OF mkdir_parents_step])
      (auto simp: private_parts stage_dir_def package_dir_def dest: prefix_order.trans)
  show ?thesis
    unfolding make_package_def Let_def
    by (intro scripting.obeys_bind mk obeys_make_archive obeys_write_file obeys_read)
      (simp_all add: private_parts stage_dir_def package_dir_def package_file_def)
qed

text \<open>The state directory, given by a path without links, and nothing of the copy in it yet.\<close>

definition fresh_state :: "ltree \<Rightarrow> fpath \<Rightarrow> bool" where
  "fresh_state t state \<longleftrightarrow> find_node t state = Some L_dir \<and> (\<forall>q. prefix q state \<longrightarrow> \<not> is_link t q) \<and>
     (\<forall>q. prefix (shadow_dir state) q \<longrightarrow> find_node t q = None)"

lemma fresh_state_inv: "fresh_state t state \<Longrightarrow> script_inv H state t t"
  by (auto simp: fresh_state_def script_inv_def is_link_iff dest: own_path_below)

lemma acl_sequence_calls:
  "acl_sequence H cs s = Some (r, s') \<Longrightarrow>
   files s' = files s \<and> (\<exists>k. acl_calls s' = acl_calls s @ map (\<lambda>(f, args). (py_environ s, f, args)) (take k cs)) \<and>
   (r = Inr () \<longrightarrow> acl_calls s' = acl_calls s @ map (\<lambda>(f, args). (py_environ s, f, args)) cs)"
proof (induction cs arbitrary: s)
  case (Cons c cs)
  obtain f args where c: "c = (f, args)" by (cases c)
  from Cons.prems[unfolded c acl_sequence.simps] show ?case
  proof (cases rule: bind_io_cases)
    case (threw x)
    then have "acl_calls s' = acl_calls s \<or> acl_calls s' = acl_calls s @ [(py_environ s, f, args)]" "files s' = files s"
      by (auto simp: call_acl_def Let_def split: if_splits)
    with threw show ?thesis by (auto simp: c intro: exI[of _ 0] exI[of _ 1])
  next
    case (went v s1)
    then have s1: "s1 = s\<lparr>acl_calls := acl_calls s @ [(py_environ s, f, args)]\<rparr>"
      by (auto simp: call_acl_def Let_def split: if_splits)
    from Cons.IH[OF went(2)] obtain k where
      "acl_calls s' = acl_calls s1 @ map (\<lambda>(f, args). (py_environ s1, f, args)) (take k cs)" "files s' = files s1"
      "r = Inr () \<longrightarrow> acl_calls s' = acl_calls s1 @ map (\<lambda>(f, args). (py_environ s1, f, args)) cs" by blast
    then show ?thesis by (auto simp: s1 c intro: exI[of _ "Suc k"])
  qed
qed (auto simp: give_def)

definition deployed_calls :: "fpath \<Rightarrow> int \<Rightarrow> script_state \<Rightarrow> acl_call list" where
  "deployed_calls state device s =
     map (\<lambda>(f, args). (py_environ s ++ map_of (shadow_variables state), f, args)) (deployment device)"

lemma deploy_package_calls:
  assumes "deploy_package H state device s = Some (r, s')"
  shows "files s' = files s" "\<exists>k. acl_calls s' = acl_calls s @ take k (deployed_calls state device s)"
    "r = Inr () \<Longrightarrow> acl_calls s' = acl_calls s @ deployed_calls state device s"
proof -
  let ?s1 = "s\<lparr>py_environ := py_environ s ++ map_of (shadow_variables state)\<rparr>"
  consider "s' = ?s1" "r \<noteq> Inr ()" | "acl_sequence H (deployment device) ?s1 = Some (r, s')"
    using assms by (cases "acl_loads H") (auto simp: deploy_package_def bind_io_def update_environ_def give_def)
  then have "files s' = files s \<and> (\<exists>k. acl_calls s' = acl_calls s @ take k (deployed_calls state device s)) \<and>
      (r = Inr () \<longrightarrow> acl_calls s' = acl_calls s @ deployed_calls state device s)"
  proof cases
    case 1
    then show ?thesis by (auto intro: exI[of _ 0])
  next
    case 2
    from acl_sequence_calls[OF this] show ?thesis by (auto simp: deployed_calls_def take_map)
  qed
  then show "files s' = files s" "\<exists>k. acl_calls s' = acl_calls s @ take k (deployed_calls state device s)"
    "r = Inr () \<Longrightarrow> acl_calls s' = acl_calls s @ deployed_calls state device s" by blast+
qed

text \<open>The files are as the packaging leaves them, and only then ACL is called.\<close>

definition packaging :: "script_os \<Rightarrow> fpath \<Rightarrow> fpath \<Rightarrow> fpath \<Rightarrow> string \<Rightarrow> unit script" where
  "packaging H cann state loader kernel_entry =
     bind_io (stage_loader H state loader) (\<lambda>_.
     bind_io (overlay_toolkit H cann state) (\<lambda>_.
     make_package H cann state kernel_entry))"

lemma helper_main_phases:
  "helper_main H cann state loader device kernel_entry =
   bind_io (packaging H cann state loader kernel_entry) (\<lambda>_. deploy_package H state device)"
  by (rule ext) (simp add: helper_main_def packaging_def bind_io_def split: option.split sum.split)

lemma obeys_packaging: "obeys (script_step H state t0 UNIV UNIV) (packaging H cann state loader kernel_entry)"
  unfolding packaging_def
  by (intro scripting.obeys_bind obeys_mono[OF obeys_stage_loader] obeys_mono[OF obeys_overlay_toolkit]
      obeys_mono[OF obeys_make_package]) simp_all

lemma helper_keeps:
  assumes "helper_main H cann state loader device kernel_entry s = Some (r, s')" and "fresh_state (files s) state"
  shows "script_inv H state (files s) (files s') \<and>
    (\<exists>k. acl_calls s' = acl_calls s @ take k (deployed_calls state device s))"
proof -
  from assms(1)[unfolded helper_main_phases] obtain q s1 where
    pack: "packaging H cann state loader kernel_entry s = Some (q, s1)"
      and rest: "s' = s1 \<or> deploy_package H state device s1 = Some (r, s')"
    by (cases rule: bind_io_cases) blast+
  from obeysD[OF obeys_packaging pack] fresh_state_inv[OF assms(2)]
  have inv: "script_inv H state (files s) (files s1)" and acl: "acl_calls s1 = acl_calls s" "py_environ s1 = py_environ s"
    by (auto simp: script_step_def tree_step_def)
  from rest show ?thesis
  proof
    assume "s' = s1"
    with inv acl show ?thesis by (auto intro: exI[of _ 0])
  next
    assume "deploy_package H state device s1 = Some (r, s')"
    with deploy_package_calls(1,2)[OF this] inv acl show ?thesis by (simp add: deployed_calls_def)
  qed
qed

section \<open>What a successful run leaves\<close>

text \<open>Reading the installed files gives what they hold, while the copy is filled.\<close>

lemma walk_stable:
  assumes "script_inv H state t0 t" "fresh_state t0 state" "walk n t0 follow [] p = Some r" "find_node t0 r \<noteq> None"
  shows "walk n t follow [] p = Some r" "find_node t r = find_node t0 r"
proof -
  have out: "\<not> prefix (shadow_dir state) r" using assms(2,4) by (auto simp: fresh_state_def)
  from walk_outside[OF assms(3) out, of t] assms(1,2) show "walk n t follow [] p = Some r"
    by (simp add: script_inv_def fresh_state_def)
  show "find_node t r = find_node t0 r" using assms(1) out by (simp add: script_inv_def)
qed

lemma read_stable:
  assumes "script_inv H state t0 t" "fresh_state t0 state" "read_at p t0 = (Inr d, t0)"
  shows "read_at p t = (Inr d, t)"
proof -
  from assms(3) obtain r where "walk max_links t0 True [] p = Some r" "find_node t0 r = Some (L_file d)"
    by (auto simp: read_at_def at_path_def split: option.splits lnode.splits)
  with walk_stable[OF assms(1,2) this(1)] show ?thesis by (simp add: read_at_def at_path_def)
qed

lemma names_below_iff: "c \<in> set (names_below t r) \<longleftrightarrow> find_node t (r @ [c]) \<noteq> None"
  by (auto simp: names_below_def find_node_def map_of_eq_None_iff image_iff)
    (metis append_butlast_last_id fst_conv snoc_eq_iff_butlast)+

lemma iterdir_stable:
  assumes "script_inv H state t0 t" "fresh_state t0 state" "iterdir_at p t0 = (Inr names, t0)"
  shows "is_dir_path p t = (Inr True, t)" "\<exists>names'. iterdir_at p t = (Inr names', t) \<and> set names \<subseteq> set names'"
proof -
  from assms(3) obtain r where r: "walk max_links t0 True [] p = Some r" "find_node t0 r = Some L_dir" "names = names_below t0 r"
    by (auto simp: iterdir_at_def at_path_def split: option.splits lnode.splits)
  note there = walk_stable[OF assms(1,2) r(1), unfolded r(2)]
  have "find_node t (r @ [c]) \<noteq> None" if "find_node t0 (r @ [c]) \<noteq> None" for c
    using that assms(1,2) by (metis script_inv_def fresh_state_def)
  with r(3) have "set names \<subseteq> set (names_below t r)" by (auto simp: names_below_iff)
  with there show "is_dir_path p t = (Inr True, t)" "\<exists>names'. iterdir_at p t = (Inr names', t) \<and> set names \<subseteq> set names'"
    by (auto simp: is_dir_path_def iterdir_at_def at_path_def)
qed

text \<open>What an operation that succeeds leaves at its path.\<close>

lemma os_call_done:
  assumes "os_call H f s = Some (Inr v, s')"
  shows "files s' = snd (f (files s))" "fst (f (files s)) = Inr v"
  using os_call_Inr[OF assms] by simp_all

lemma own_path_nonempty: "own_path H state p \<Longrightarrow> p \<noteq> []"
  using own_path_below[of H state p] by (auto simp: shadow_dir_def)

lemma add_node_done:
  assumes "fst (add_node n t r) = Inr v" "r \<noteq> []"
  shows "find_node (snd (add_node n t r)) r = Some n"
  using assms by (auto simp: add_node_def find_node_Cons split: if_splits)

lemma write_file_leaves:
  assumes "write_file H p d s = Some (Inr (), s')" "script_inv H state t0 (files s)" "own_path H state p"
  shows "find_node (files s') p = Some (L_file d)"
proof -
  from assms(1) obtain q s1 where "os_call H (open_at p) s = Some (Inr q, s1)" "os_call H (write_at q d) s1 = Some (Inr (), s')"
    unfolding write_file_def by (elim bind_io_Inr)
  with open_own[OF assms(2,3) os_call_Inr[OF this(1)]] os_call_done(1)[OF this(2)] own_path_nonempty[OF assms(3)] show ?thesis
    by (simp add: write_at_def find_node_Cons)
qed

lemma make_archive_leaves:
  assumes "make_archive H p dir s = Some (Inr (), s')" "script_inv H state t0 (files s)" "own_path H state p"
  shows "find_node (files s') p = Some (L_file (tar_gz H (archived ((p, L_file []) # files s) dir)))"
proof -
  from assms(1) obtain q s1 d s2 where run: "os_call H (open_at p) s = Some (Inr q, s1)"
      "os_call H (\<lambda>t. (Inr (tar_gz H (archived t dir)), t)) s1 = Some (Inr d, s2)" "os_call H (write_at q d) s2 = Some (Inr (), s')"
    unfolding make_archive_def by (elim bind_io_Inr)
  from open_own[OF assms(2,3) os_call_Inr[OF run(1)]] os_call_done[OF run(2)] os_call_done(1)[OF run(3)]
  have "files s' = (p, L_file (tar_gz H (archived ((p, L_file []) # files s) dir))) # (p, L_file []) # files s"
    by (simp add: write_at_def)
  then show ?thesis using own_path_nonempty[OF assms(3)] by (simp add: find_node_Cons)
qed

lemma mkdir_path_leaves:
  assumes "mkdir_path H False p s = Some (Inr v, s')" "script_inv H state t0 (files s)" "own_path H state p"
  shows "find_node (files s') p = Some L_dir"
  using assms(1)[unfolded mkdir_path_def]
proof (cases rule: on_error_cases)
  case went
  from walk_own(1)[OF assms(2,3)] have "mkdir_at p (files s) = add_node L_dir (files s) p"
    by (simp add: mkdir_at_def at_path_def)
  with os_call_done[OF went(1)] add_node_done own_path_nonempty[OF assms(3)] show ?thesis by simp
qed (simp add: mkdir_failed_def)

lemma mkdir_parents_leaves:
  assumes "mkdir_parents H False (rev (shadow_dir state @ q @ [c])) s = Some (Inr (), s')"
    and "script_inv H state t0 (files s)" "private_part H (q @ [c])"
  shows "find_node (files s') (shadow_dir state @ q @ [c]) = Some L_dir"
proof -
  let ?p = "shadow_dir state @ q @ [c]"
  have own: "own_path H state ?p" "private_part H q" using assms(3) private_part_prefix[OF assms(3), of q] by simp_all
  have split: "rev ?p = c # rev (shadow_dir state @ q)" and join: "rev (c # rev (shadow_dir state @ q)) = ?p" by simp_all
  have "on_error (os_call H (mkdir_at ?p)) (\<lambda>x. if x = no_such_file
      then bind_io (mkdir_parents H True (rev (shadow_dir state @ q))) (\<lambda>_. mkdir_path H False ?p)
      else mkdir_failed H False ?p x) s = Some (Inr (), s')"
    using assms(1)[unfolded split mkdir_parents.simps Let_def join] .
  then show ?thesis
  proof (cases rule: on_error_cases)
    case (handled x s1)
    note s1 = obeysD[OF obeys_mkdir[OF own(1), of UNIV t0 UNIV] handled(1)]
    have "x = no_such_file" using handled(2) by (cases "x = no_such_file") (simp_all add: mkdir_failed_def)
    with handled(2) have "bind_io (mkdir_parents H True (rev (shadow_dir state @ q))) (\<lambda>_. mkdir_path H False ?p) s1 = Some (Inr (), s')"
      by simp
    then obtain s2 where s2: "mkdir_parents H True (rev (shadow_dir state @ q)) s1 = Some (Inr (), s2)"
        "mkdir_path H False ?p s2 = Some (Inr (), s')"
      by (elim bind_io_Inr) simp
    with s1 obeysD[OF mkdir_parents_step[OF own(2), of state t0 UNIV True] s2(1)] assms(2)
    have "script_inv H state t0 (files s2)" by (auto simp: script_step_def tree_step_def)
    from mkdir_path_leaves[OF s2(2) this own(1)] show ?thesis .
  next
    case went
    from went(1) have "mkdir_path H False ?p s = Some (Inr v, s')" unfolding mkdir_path_def on_error_def by simp
    from mkdir_path_leaves[OF this assms(2) own(1)] show ?thesis .
  qed
qed

lemma link_children_leaves:
  assumes "own_path H state d" and "\<And>c. c \<notin> set private \<Longrightarrow> \<not> own_path H state (d @ [c])"
  shows "link_children H source d private cs s = Some (Inr (), s') \<Longrightarrow> script_inv H state t0 (files s) \<Longrightarrow>
    \<forall>c \<in> set cs - set private. find_node (files s') (d @ [c]) = Some (L_link (source @ [c]))"
proof (induction cs arbitrary: s)
  case (Cons c cs)
  from Cons.prems(1) obtain s1 where s1: "(if c \<notin> set private then os_call H (symlink_at (d @ [c]) (source @ [c])) else give (Inr ())) s =
      Some (Inr (), s1)" "link_children H source d private cs s1 = Some (Inr (), s')"
    by (auto elim: bind_io_Inr)
  have inv: "script_inv H state t0 (files s1)"
  proof (cases "c \<in> set private")
    case False
    with s1(1) obeysD[OF obeys_symlink[OF assms(1) assms(2)[of c], of UNIV t0 UNIV]] Cons.prems(2) show ?thesis
      by (auto simp: script_step_def tree_step_def)
  qed (use s1(1) Cons.prems(2) in \<open>simp add: give_def\<close>)
  note later = obeysD[OF obeys_link_children[OF assms(1,2), where P = UNIV and W = "{}" and ?t0.0 = t0] s1(2)]
  have "find_node (files s') (d @ [c]) = Some (L_link (source @ [c]))" if "c \<notin> set private"
  proof -
    from that s1(1) have "os_call H (symlink_at (d @ [c]) (source @ [c])) s = Some (Inr (), s1)" by simp
    moreover from walk_own(2)[OF Cons.prems(2) assms(1)]
    have "symlink_at (d @ [c]) (source @ [c]) (files s) = add_node (L_link (source @ [c])) (files s) (d @ [c])"
      by (simp add: symlink_at_def at_path_def)
    ultimately have "find_node (files s1) (d @ [c]) = Some (L_link (source @ [c]))"
      using os_call_done add_node_done by (metis append_is_Nil_conv list.distinct(1))
    with later inv show ?thesis by (auto simp: script_step_def tree_step_def)
  qed
  with Cons.IH[OF s1(2) inv] show ?case by auto
qed simp

lemma overlay_leaves:
  assumes "overlay H src d private s = Some (Inr (), s')" and "(src, d, private) \<in> set (overlays H cann state)"
    and "script_inv H state t0 (files s)" "fresh_state t0 state" "iterdir_at src t0 = (Inr names, t0)"
  shows "\<forall>c \<in> set names - set private. find_node (files s') (d @ [c]) = Some (L_link (src @ [c]))"
proof -
  note own = overlay_own[OF assms(2)]
  from assms(1) obtain s1 b s2 where s1: "mkdir_path H True d s = Some (Inr (), s1)"
      and s2: "os_call H (is_dir_path src) s1 = Some (Inr b, s2)"
      and rest: "(if b then bind_io (os_call H (iterdir_at src)) (\<lambda>cs. link_children H src d private cs) else give (Inr ())) s2 =
        Some (Inr (), s')"
    unfolding overlay_def by (elim bind_io_Inr) simp
  from obeysD[OF obeys_mkdir_path[OF own(1), of UNIV t0 UNIV] s1] assms(3)
  have inv: "script_inv H state t0 (files s1)" by (auto simp: script_step_def tree_step_def)
  note there = iterdir_stable[OF inv assms(4,5)]
  from os_call_Inr[OF s2] there(1) have "b" "files s2 = files s1" by auto
  with rest obtain cs s3 where s3: "os_call H (iterdir_at src) s2 = Some (Inr cs, s3)"
      "link_children H src d private cs s3 = Some (Inr (), s')" by (auto elim: bind_io_Inr)
  from os_call_Inr[OF s3(1)] there(2) \<open>files s2 = files s1\<close> have "files s3 = files s1" "set names \<subseteq> set cs" by auto
  with link_children_leaves[OF own(1,3) s3(2)] inv show ?thesis by auto
qed

lemma script_step_frame:
  assumes "script_step H state t0 P W s s'" "script_inv H state t0 (files s)"
  shows "script_inv H state t0 (files s')" "q \<notin> P \<Longrightarrow> find_node (files s') q = find_node (files s) q"
    "q \<notin> W \<Longrightarrow> find_node (files s) q = Some n \<Longrightarrow> find_node (files s') q = Some n"
  using assms by (auto simp: script_step_def tree_step_def)

definition digest_line :: "script_os \<Rightarrow> string \<Rightarrow> string" where
  "digest_line H data = ''lib'' @ package_name H @ ''.so'' @ ''='' @ sha256_hex H data @ [CHR 0x0A]"

lemma stage_leaves:
  assumes "stage_loader H state loader s = Some (Inr (), s')" "fresh_state (files s) state"
    and "read_at loader (files s) = (Inr data, files s)"
  shows "prefix (stage_dir state) q \<Longrightarrow> find_node (files s') q =
    (if q = stage_dir state then Some L_dir else if q = stage_library H state then Some (L_file data)
     else if q = stage_dir state @ [''bin_hash.cfg''] then Some (L_file (digest_line H data)) else None)"
proof -
  assume q: "prefix (stage_dir state) q"
  let ?lib = "stage_library H state" and ?cfg = "stage_dir state @ [''bin_hash.cfg'']" and ?t0 = "files s"
  note inv = fresh_state_inv[OF assms(2), of H]
  have own: "own_path H state ?lib" "own_path H state ?cfg" by (simp_all add: stage_library_def own_stage)
  have differ: "?lib \<noteq> ?cfg" by (simp add: stage_library_def)
  have stage: "stage_dir state = shadow_dir state @ [''build''] @ [''aicpu_kernels_device'']" by (simp add: stage_dir_def)
  from assms(1) obtain s1 s2 data' s3 where
      s1: "mkdir_parents H False (rev (stage_dir state)) s = Some (Inr (), s1)"
      and s2: "copyfile H loader ?lib s1 = Some (Inr (), s2)" and s3: "os_call H (read_at ?lib) s2 = Some (Inr data', s3)"
      and s': "write_file H ?cfg (digest_line H data') s3 = Some (Inr (), s')"
    unfolding stage_loader_def Let_def stage_library_def digest_line_def by (elim bind_io_Inr) simp
  have step1: "script_step H state ?t0 {p. own_path H state p \<and> prefix p (stage_dir state)} {} s s1"
    using obeysD[OF mkdir_parents_step s1[unfolded stage append_assoc]] by (simp add: stage private_parts)
  note f1 = script_step_frame[OF step1 inv]
  have dir: "find_node (files s1) (stage_dir state) = Some L_dir"
    using mkdir_parents_leaves[OF s1[unfolded stage append_assoc] inv] by (simp add: stage private_parts)
  from s2 obtain d sa where sa: "os_call H (read_at loader) s1 = Some (Inr d, sa)" "write_file H ?lib d sa = Some (Inr (), s2)"
    unfolding copyfile_def by (elim bind_io_Inr)
  from os_call_Inr[OF sa(1)] read_stable[OF f1(1) assms(2,3)] have d: "d = data" "files sa = files s1" by simp_all
  note inva = f1(1)[folded d(2)]
  note lib = write_file_leaves[OF sa(2) inva own(1), unfolded d(1)]
  note f2 = script_step_frame[OF obeysD[OF obeys_write_file[OF own(1), of "{?lib}" "{?lib}"] sa(2)] inva, unfolded d(2)]
  have "read_at ?lib (files s2) = (Inr data, files s2)"
    using walk_own(1)[OF f2(1) own(1)] lib by (simp add: read_at_def at_path_def)
  with os_call_Inr[OF s3] have s3: "data' = data" "files s3 = files s2" by simp_all
  note inv3 = f2(1)[simplified, folded s3(2)]
  note cfg = write_file_leaves[OF s' inv3 own(2), unfolded s3(1)]
  note f3 = script_step_frame[OF obeysD[OF obeys_write_file[OF own(2), of "{?cfg}" "{?cfg}"] s'] inv3, unfolded s3(2)]
  consider "q = stage_dir state" | "q = ?lib" | "q = ?cfg" | "q \<notin> {stage_dir state, ?lib, ?cfg}" by blast
  then show ?thesis
  proof cases
    case 4
    then have "\<not> prefix q (stage_dir state)" using q prefix_order.antisym by blast
    with 4 f1(2)[of q] f2(2)[of q] f3(2)[of q] have "find_node (files s') q = find_node (files s) q" by simp
    moreover have "prefix (shadow_dir state) q" using q by (auto simp: stage_dir_def intro: append_prefixD)
    ultimately show ?thesis using 4 assms(2) by (simp add: fresh_state_def)
  qed (use dir lib cfg differ f2(2) f3(2) in \<open>simp_all add: stage_library_def\<close>)
qed

lemma archived_set:
  assumes "dir \<noteq> []"
  shows "set (archived t dir) = {(drop (length dir - 1) q, n) | q n. prefix dir q \<and> find_node t q = Some n}"
proof -
  have "q \<in> set (map fst t) \<longleftrightarrow> find_node t q \<noteq> None" if "prefix dir q" for q
    using that assms dom_map_of_conv_image_fst[of t] by (auto simp: find_node_def dom_def)
  then have "{q \<in> fst ` set t. prefix dir q} = {q. prefix dir q \<and> find_node t q \<noteq> None}" by auto
  then have "set (archived t dir) = (\<lambda>q. (drop (length dir - 1) q, the (find_node t q))) ` {q. prefix dir q \<and> find_node t q \<noteq> None}"
    unfolding archived_def set_map set_remdups set_filter by (rule arg_cong)
  then show ?thesis by force
qed

text \<open>What goes into the archive: the stage, the loader and its digest.\<close>

definition package_entries :: "script_os \<Rightarrow> string \<Rightarrow> (fpath \<times> lnode) set" where
  "package_entries H data =
     {([''aicpu_kernels_device''], L_dir),
      ([''aicpu_kernels_device'', ''lib'' @ package_name H @ ''.so''], L_file data),
      ([''aicpu_kernels_device'', ''bin_hash.cfg''], L_file (digest_line H data))}"

lemma archived_stage:
  assumes "\<And>q. prefix (stage_dir state) q \<Longrightarrow> find_node t q =
    (if q = stage_dir state then Some L_dir else if q = stage_library H state then Some (L_file data)
     else if q = stage_dir state @ [''bin_hash.cfg''] then Some (L_file (digest_line H data)) else None)"
  shows "set (archived t (stage_dir state)) = package_entries H data"
proof -
  have len: "length (stage_dir state) - 1 = length (shadow_dir state @ [''build''])" and ne: "stage_dir state \<noteq> []"
    by (simp_all add: stage_dir_def)
  have drops: "drop (length (stage_dir state) - 1) (stage_dir state @ q) = ''aicpu_kernels_device'' # q" for q
    unfolding len by (simp add: stage_dir_def)
  have all: "prefix (stage_dir state) q \<and> find_node t q = Some n \<longleftrightarrow>
      (q, n) \<in> {(stage_dir state @ [], L_dir), (stage_library H state, L_file data), (stage_dir state @ [''bin_hash.cfg''], L_file (digest_line H data))}"
    for q n
    using assms[of q] by (auto simp: stage_library_def split: if_splits)
  have image: "{(f q, n) | q n. (q, n) \<in> A} = (\<lambda>(q, n). (f q, n)) ` A" for f :: "fpath \<Rightarrow> fpath" and A :: "(fpath \<times> lnode) set"
    by force
  show ?thesis
    unfolding archived_set[OF ne] all image package_entries_def stage_library_def image_insert image_empty prod.case drops ..
qed

lemma package_leaves:
  assumes "make_package H cann state kernel_entry s = Some (Inr (), s')" "script_inv H state t0 (files s)" "fresh_state t0 state"
    and "read_at (cann @ [''conf'', ''ascend_package_load.ini'']) t0 = (Inr installed, t0)"
    and "set (archived (files s) (stage_dir state)) = E"
  shows "find_node (files s') (shadow_dir state @ [''conf'', ''ascend_package_load.ini'']) = Some (L_file (package_manifest H installed))"
    and "find_node (files s') (shadow_dir state @ [''conf'', ''bootstrap.json'']) = Some (L_file (bootstrap_json H kernel_entry))"
    and "\<exists>entries. find_node (files s') (package_file H state) = Some (L_file (tar_gz H entries)) \<and> set entries = E"
proof -
  let ?ini = "shadow_dir state @ [''conf'', ''ascend_package_load.ini'']" and ?json = "shadow_dir state @ [''conf'', ''bootstrap.json'']"
  let ?dir = "shadow_dir state @ package_dir H" and ?tar = "package_file H state"
  have own: "own_path H state ?ini" "own_path H state ?json" "own_path H state ?tar"
    by (simp_all add: private_parts package_file_def)
  have differ: "?ini \<noteq> ?json" "?tar \<noteq> ?ini" "?tar \<noteq> ?json" by (simp_all add: package_file_def package_dir_def)
  have ne: "stage_dir state \<noteq> []" by (simp add: stage_dir_def)
  have out: "\<not> prefix (stage_dir state) ?dir" "\<not> prefix (stage_dir state) ?tar"
    by (simp_all add: stage_dir_def package_dir_def package_file_def)
  from assms(1) obtain s1 s2 d s3 s4 where
      s1: "mkdir_parents H False (rev ?dir) s = Some (Inr (), s1)"
      and s2: "make_archive H ?tar (stage_dir state) s1 = Some (Inr (), s2)"
      and s3: "os_call H (read_at (cann @ [''conf'', ''ascend_package_load.ini''])) s2 = Some (Inr d, s3)"
      and s4: "write_file H ?ini (package_manifest H d) s3 = Some (Inr (), s4)"
      and s': "write_file H ?json (bootstrap_json H kernel_entry) s4 = Some (Inr (), s')"
    unfolding make_package_def Let_def package_file_def by (elim bind_io_Inr) simp
  note f1 = script_step_frame[OF obeysD[OF mkdir_parents_step[OF private_parts(8)] s1, where ?W1 = "{}"] assms(2)]
  note f2 = script_step_frame[OF obeysD[OF obeys_make_archive[OF own(3), of "{?tar}" "{?tar}"] s2] f1(1)]
  from os_call_Inr[OF s3] read_stable[OF f2(1) assms(3,4)] have d: "d = installed" "files s3 = files s2" by simp_all
  note inv3 = f2(1)[simplified, folded d(2)]
  note f4 = script_step_frame[OF obeysD[OF obeys_write_file[OF own(1), of "{?ini}" "{?ini}"] s4] inv3]
  note f5 = script_step_frame[OF obeysD[OF obeys_write_file[OF own(2), of "{?json}" "{?json}"] s'] f4(1)]
  show "find_node (files s') ?json = Some (L_file (bootstrap_json H kernel_entry))"
    using write_file_leaves[OF s' f4(1) own(2)] by simp
  show "find_node (files s') ?ini = Some (L_file (package_manifest H installed))"
    using write_file_leaves[OF s4 inv3 own(1)] f5(2)[of ?ini] differ d by simp
  let ?t1 = "(?tar, L_file []) # files s1"
  have "find_node ?t1 q = find_node (files s) q" if "prefix (stage_dir state) q" for q
    using that out f1(2)[of q] by (auto simp: find_node_Cons dest: prefix_order.trans)
  then have "set (archived ?t1 (stage_dir state)) = E"
    unfolding assms(5)[symmetric] archived_set[OF ne] by (metis (no_types, lifting))
  moreover have "find_node (files s') ?tar = Some (L_file (tar_gz H (archived ?t1 (stage_dir state))))"
    using make_archive_leaves[OF s2 f1(1) own(3)] f4(2)[of ?tar] f5(2)[of ?tar] differ d by simp
  ultimately show "\<exists>entries. find_node (files s') ?tar = Some (L_file (tar_gz H entries)) \<and> set entries = E" by blast
qed

lemma overlays_leave:
  assumes "overlay_toolkit H cann state s = Some (Inr (), s')" "script_inv H state t0 (files s)" "fresh_state t0 state"
    and "(src, d, private) \<in> set (overlays H cann state)" "iterdir_at src t0 = (Inr names, t0)" "c \<in> set names - set private"
  shows "find_node (files s') (d @ [c]) = Some (L_link (src @ [c]))"
proof -
  define o1 o2 o3 o4 where o_defs: "o1 = overlays H cann state ! 0" "o2 = overlays H cann state ! 1"
    "o3 = overlays H cann state ! 2" "o4 = overlays H cann state ! 3"
  define run where "run ov = overlay H (fst ov) (fst (snd ov)) (snd (snd ov))" for ov
  have all: "overlays H cann state = [o1, o2, o3, o4]" by (simp add: o_defs overlays_def Let_def)
  from assms(1) obtain s1 s2 s3 where s: "run o1 s = Some (Inr (), s1)" "run o2 s1 = Some (Inr (), s2)"
      "run o3 s2 = Some (Inr (), s3)" "run o4 s3 = Some (Inr (), s')"
    unfolding overlay_toolkit_def Let_def run_def o_defs overlays_def by (elim bind_io_Inr) simp
  have step: "script_step H state t0 (overlay_paths H state) {} u u'" if "run ov u = Some (Inr (), u')" "ov \<in> set (overlays H cann state)" for ov u u'
    using that obeysD[OF obeys_overlays[of "fst ov" "fst (snd ov)" "snd (snd ov)"]] by (simp add: run_def)
  have leaves: "find_node (files u') (d @ [c]) = Some (L_link (src @ [c]))"
    if "run ov u = Some (Inr (), u')" "script_inv H state t0 (files u)" "ov = (src, d, private)" for ov u u'
    using overlay_leaves[of H src d "private" u u' cann state t0 names] that assms(3-6) by (auto simp: run_def)
  have mem: "o1 \<in> set (overlays H cann state)" "o2 \<in> set (overlays H cann state)" "o3 \<in> set (overlays H cann state)"
    "o4 \<in> set (overlays H cann state)" by (simp_all add: all)
  note f1 = script_step_frame[OF step[OF s(1) mem(1)] assms(2)]
  note f2 = script_step_frame[OF step[OF s(2) mem(2)] f1(1)]
  note f3 = script_step_frame[OF step[OF s(3) mem(3)] f2(1)]
  note f4 = script_step_frame[OF step[OF s(4) mem(4)] f3(1)]
  from assms(4) consider "o1 = (src, d, private)" | "o2 = (src, d, private)" | "o3 = (src, d, private)" | "o4 = (src, d, private)"
    by (auto simp: all)
  then show ?thesis
  proof cases
    case 1
    from leaves[OF s(1) assms(2) 1] f2(3) f3(3) f4(3) show ?thesis by simp
  next
    case 2
    from leaves[OF s(2) f1(1) 2] f3(3) f4(3) show ?thesis by simp
  next
    case 3
    from leaves[OF s(3) f2(1) 3] f4(3) show ?thesis by simp
  next
    case 4
    from leaves[OF s(4) f3(1) 4] show ?thesis .
  qed
qed

lemma packaging_leaves:
  assumes "packaging H cann state loader kernel_entry s = Some (Inr (), s')" "fresh_state (files s) state"
    and "read_at loader (files s) = (Inr data, files s)"
    and "read_at (cann @ [''conf'', ''ascend_package_load.ini'']) (files s) = (Inr installed, files s)"
  shows "(src, d, private) \<in> set (overlays H cann state) \<Longrightarrow> iterdir_at src (files s) = (Inr names, files s) \<Longrightarrow>
      c \<in> set names - set private \<Longrightarrow> find_node (files s') (d @ [c]) = Some (L_link (src @ [c]))"
    and "find_node (files s') (shadow_dir state @ [''conf'', ''ascend_package_load.ini'']) = Some (L_file (package_manifest H installed))"
    and "find_node (files s') (shadow_dir state @ [''conf'', ''bootstrap.json'']) = Some (L_file (bootstrap_json H kernel_entry))"
    and "\<exists>entries. find_node (files s') (package_file H state) = Some (L_file (tar_gz H entries)) \<and>
      set entries = package_entries H data"
proof -
  from assms(1) obtain s1 s2 where s1: "stage_loader H state loader s = Some (Inr (), s1)"
      and s2: "overlay_toolkit H cann state s1 = Some (Inr (), s2)" and s': "make_package H cann state kernel_entry s2 = Some (Inr (), s')"
    unfolding packaging_def by (elim bind_io_Inr) simp
  note f1 = script_step_frame[OF obeysD[OF obeys_stage_loader s1] fresh_state_inv[OF assms(2)]]
  note f2 = script_step_frame[OF obeysD[OF obeys_overlay_toolkit s2] f1(1)]
  note f3 = script_step_frame[OF obeysD[OF obeys_make_package s'] f2(1)]
  show "find_node (files s') (d @ [c]) = Some (L_link (src @ [c]))"
    if "(src, d, private) \<in> set (overlays H cann state)" "iterdir_at src (files s) = (Inr names, files s)" "c \<in> set names - set private"
    using overlays_leave[OF s2 f1(1) assms(2) that] f3(2)[of "d @ [c]"] overlay_own(3)[OF that(1), of c] that(3) by simp
  have "find_node (files s2) q = find_node (files s1) q" if "prefix (stage_dir state) q" for q
    using f2(2)[of q] that by (simp add: overlay_paths_def)
  with stage_leaves[OF s1 assms(2,3)] have "set (archived (files s2) (stage_dir state)) = package_entries H data"
    by (intro archived_stage) simp
  from package_leaves[OF s' f2(1) assms(2,4) this] show
    "find_node (files s') (shadow_dir state @ [''conf'', ''ascend_package_load.ini'']) = Some (L_file (package_manifest H installed))"
    "find_node (files s') (shadow_dir state @ [''conf'', ''bootstrap.json'']) = Some (L_file (bootstrap_json H kernel_entry))"
    "\<exists>entries. find_node (files s') (package_file H state) = Some (L_file (tar_gz H entries)) \<and>
      set entries = package_entries H data" by blast+
qed

section \<open>A toolkit\<close>

definition demo_toolkit :: ltree where
  "demo_toolkit =
     [([''k''], L_dir), ([''k'', ''bin''], L_dir), ([''k'', ''conf''], L_link [''c'']), ([''c''], L_dir),
      ([''c'', ''ascend_package_load.ini''], L_file ''old ''), ([''c'', ''x.ini''], L_file []),
      ([''k'', ''opp''], L_dir), ([''k'', ''opp'', ''vendors''], L_dir), ([''s''], L_dir), ([''l''], L_file ''so'')]"

definition demo_script :: script_os where
  "demo_script =
     \<lparr>call_fails = (\<lambda>_. False), uuid4_hex = ''0'', sha256_hex = (\<lambda>_. ''1''), tar_gz = (\<lambda>es. concat (map (concat \<circ> fst) es)),
      acl_loads = True, acl_has = (\<lambda>_. True), acl_status = (\<lambda>_ _. 0)\<rparr>"

definition demo_start :: script_state where
  "demo_start = \<lparr>files = demo_toolkit, calls_made = 0, py_environ = Map.empty, acl_calls = []\<rparr>"

lemma demo_fresh: "fresh_state (files demo_start) [''s'']"
  by (auto simp: fresh_state_def demo_start_def demo_toolkit_def find_node_def is_link_iff shadow_dir_def prefix_Cons)

lemma demo_helper_ends: "map_option fst (helper_main demo_script [''k''] [''s''] [''l''] 0 ''f'' demo_start) = Some (Inr ())"
  by code_simp

lemma demo_helper_run: "\<exists>s'. helper_main demo_script [''k''] [''s''] [''l''] 0 ''f'' demo_start = Some (Inr (), s')"
  using demo_helper_ends by auto

section \<open>Properties\<close>

text \<open>C8: The script leaves everything outside its private copy as it is, whatever call fails and wherever
  the links of the copy lead, in particular the installed toolkit, although the copy is a
  directory of links into it; and it calls ACL, if at all, in the order of a deployment and
  with the environment of the copy.\<close>

theorem helper_keeps_toolkit:
  assumes "helper_main H cann state loader device kernel_entry s = Some (r, s')" and "fresh_state (files s) state"
  shows "(\<forall>q. \<not> prefix (shadow_dir state) q \<longrightarrow> find_node (files s') q = find_node (files s) q) \<and>
    (\<exists>k. acl_calls s' = acl_calls s @ take k (deployed_calls state device s))"
  using helper_keeps[OF assms] by (auto simp: script_inv_def)


section \<open>Witnesses\<close>

theorem helper_keeps_toolkit_witness:
  "\<exists>s'. helper_main demo_script [''k''] [''s''] [''l''] 0 ''f'' demo_start = Some (Inr (), s') \<and>
     find_node (files s') [''c'', ''ascend_package_load.ini''] = Some (L_file ''old '')"
proof -
  obtain s' where run: "helper_main demo_script [''k''] [''s''] [''l''] 0 ''f'' demo_start = Some (Inr (), s')"
    using demo_helper_run by blast
  let ?ini = "[''c'', ''ascend_package_load.ini'']"
  have "\<not> prefix (shadow_dir [''s'']) ?ini" by (simp add: shadow_dir_def)
  with helper_keeps_toolkit[OF run demo_fresh] have "find_node (files s') ?ini = find_node (files demo_start) ?ini" by blast
  also have "... = Some (L_file ''old '')" by (simp add: demo_start_def demo_toolkit_def find_node_def)
  finally show ?thesis using run by blast
qed


end
