(* ===== verification/Aicpu_Protocol.thy ===== *)
theory Aicpu_Protocol
  imports Ascend_Kernel
begin

text \<open>
  Host and device together: what the packets that the host launches make the loader on the
  device do. The driver in between is described by the condition \<open>delivers\<close>.
\<close>

section \<open>The device behind the driver\<close>

text \<open>
  The device after the calls of a record: every launch of the loader's handle \<open>h\<close> that the driver
  accepts runs the loader on its packet. \<open>None\<close>: the loader did not return.
\<close>

definition dev_step :: "npu_host \<Rightarrow> dev_api \<Rightarrow> nat \<Rightarrow> (64 word \<Rightarrow> nat \<Rightarrow> string) \<Rightarrow> 64 word \<Rightarrow>
    host_call list \<Rightarrow> host_call \<Rightarrow> device option \<Rightarrow> device option" where
  "dev_step X E n mem h pre c d = (case c of
     Launch_args f b st cfg packet \<Rightarrow>
       if f = h \<and> all_granted X pre [c] then Option.bind d (\<lambda>d. map_option snd (loader_v1 E n mem packet d)) else d
   | _ \<Rightarrow> d)"

definition device_after :: "npu_host \<Rightarrow> dev_api \<Rightarrow> nat \<Rightarrow> (64 word \<Rightarrow> nat \<Rightarrow> string) \<Rightarrow> 64 word \<Rightarrow>
    device \<Rightarrow> host_call list \<Rightarrow> device option" where
  "device_after X E n mem h d0 log = gather (dev_step X E n mem h) (Some d0) log"

text \<open>
  The documented behaviour of the driver: when the synchronisation of a stream succeeds, the
  launch before it has run to its end, and a copy from device memory returns what the
  device wrote there last.
\<close>

definition delivers :: "npu_host \<Rightarrow> dev_api \<Rightarrow> nat \<Rightarrow> (64 word \<Rightarrow> nat \<Rightarrow> string) \<Rightarrow> 64 word \<Rightarrow> device \<Rightarrow> bool" where
  "delivers X E n mem h d0 \<longleftrightarrow> (\<forall>pre b st cfg packet buf v bytes.
     let log = pre @ [Launch_args h b st cfg packet, Synchronize_stream st]
     in all_granted X pre [Launch_args h b st cfg packet, Synchronize_stream st] \<longrightarrow>
        (\<exists>d. device_after X E n mem h d0 log = Some d \<and>
          (api X log (Acl_memcpy buf 272) = Reply 0 v bytes \<longrightarrow>
            (case map_of (rev (dev_published d)) buf of None \<Rightarrow> True | Some b \<Rightarrow> bytes = b))))"

fun launches :: "host_call \<Rightarrow> bool" where
  "launches (Launch_args f b st cfg packet) = True"
| "launches c = False"

lemma dev_step_other [simp]: "\<not> launches c \<Longrightarrow> dev_step X E n mem h pre c d = d"
  by (cases c) (simp_all add: dev_step_def)

lemma device_after_quiet:
  "\<forall>c \<in> set cs. \<not> launches c \<Longrightarrow> device_after X E n mem h d0 (log @ cs) = device_after X E n mem h d0 log"
  unfolding device_after_def by (rule gather_append_same) simp

lemma device_after_launch:
  "device_after X E n mem h d0 (log @ [Launch_args h b st cfg packet]) =
     (if all_granted X log [Launch_args h b st cfg packet]
      then Option.bind (device_after X E n mem h d0 log) (\<lambda>d. map_option snd (loader_v1 E n mem packet d))
      else device_after X E n mem h d0 log)"
  by (simp add: device_after_def dev_step_def)

section \<open>The calls of a request\<close>

lemma execute_Inr:
  assumes "execute X rq s = Some (Inr res, s')"
  shows "\<exists>v bytes. host_log s' = host_log s @ request_calls (boot s) rq \<and>
    all_granted X (host_log s) (request_calls (boot s) rq) \<and>
    api X (host_log s @ take 2 (request_calls (boot s) rq)) (Acl_memcpy (result_buffer (boot s)) 272) = Reply 0 v bytes \<and>
    res_module res = res_module (decode_result bytes) \<and> res_status (decode_result bytes) = 0"
  using assms
proof (cases rule: execute_cases)
  case (ran q)
  let ?b = "boot s" and ?s0 = "s\<lparr>boot := (boot s)\<lparr>loader_healthy := False\<rparr>\<rparr>"
  define c1 where "c1 = Launch_args (loader_handle ?b) 1 (loader_stream ?b) (Some [Attr_timeout 30])
       (encode_request (rq\<lparr>req_result := result_buffer ?b\<rparr>))"
  define c2 where "c2 = Synchronize_stream (loader_stream ?b)"
  define c3 where "c3 = Acl_memcpy (result_buffer ?b) 272"
  let ?s1 = "asked c1 ?s0" let ?s2 = "asked c2 ?s1"
  have calls: "request_calls ?b rq = [c1, c2, c3]" by (simp add: request_calls_def c1_def c2_def c3_def)
  from ran(3,4) obtain res0 where q: "q = Inr res0" "res_status res0 = 0" "res_module res = res_module res0"
    by (cases q) (auto split: if_splits)
  note run = ran(2)[unfolded run_request_def Let_def q(1), folded c1_def c2_def c3_def]
  from run obtain p1 p2 v bytes where p: "granted X ?s0 c1 = Some p1" "granted X ?s1 c2 = Some p2"
      "granted X ?s2 c3 = Some (v, bytes)" and res0: "res0 = decode_result bytes"
      and log: "host_log s' = host_log s @ [c1, c2, c3]"
    by (auto simp: give_def split: option.splits)
  have "all_granted X (host_log s) [c1, c2, c3]"
    using p all_granted_Cons[of X ?s0 c1 "[c2, c3]"] all_granted_Cons[of X ?s1 c2 "[c3]"] all_granted_Cons[of X ?s2 c3 "[]"]
    by simp
  moreover have "api X (host_log s @ [c1, c2]) c3 = Reply 0 v bytes" using p(3) by (simp add: granted_reply)
  ultimately show ?thesis using calls log res0 q by (auto simp: c3_def)
qed simp

section \<open>What a load request does on the device\<close>

text \<open>The entry of a loaded module is the symbol that was asked for.\<close>

lemma find_entry_symbol:
  assumes "find_entry E l symbol d = Some (Inr e, d')"
  shows "\<exists>log. e = rptr (E log (Dlsym l symbol))"
  using assms by (auto simp: find_entry_def give_def split: option.splits if_splits)

lemma open_library_symbol:
  assumes "open_library E p fd symbol d = Some (Inr q, d')"
  shows "\<exists>m log. dev_modules d' p = Some m \<and> mod_entry m = rptr (E log (Dlsym (mod_library m) symbol))"
  using assms
  by (auto simp: open_library_def cleanup_io_def split: if_splits option.splits sum.splits
      elim!: bind_io_Inr dest!: find_entry_symbol) blast

lemma load_module_symbol:
  assumes "load_module E n mem rq d = Some (Inr p, d')"
  shows "\<exists>m log. dev_modules d' p = Some m \<and> mod_entry m = rptr (E log (Dlsym (mod_library m) (c_text (req_symbol rq)))) \<and>
    p \<noteq> 0 \<and> memfd_data E (mod_fd m) d' = mem (req_image rq) (unat (req_image_size rq))"
proof -
  from load_module_spec[OF assms] obtain m where m: "p \<noteq> 0" "dev_modules d' p = Some m"
      "memfd_data E (mod_fd m) d' = mem (req_image rq) (unat (req_image_size rq))" by auto
  have "\<exists>fd d1. open_library E p fd (c_text (req_symbol rq)) d1 = Some (Inr p, d')"
    using assms load_module_spec[OF assms]
    by (auto simp: load_module_def cleanup_io_def split: if_splits option.splits sum.splits elim!: bind_io_Inr)
      (metis open_library_spec)+
  with m open_library_symbol show ?thesis by fastforce
qed

text \<open>A load request publishes status 1, or the pointer of the module it has loaded.\<close>

lemma loader_v1_load:
  assumes "loader_v1 E n mem (encode_request rq) d = Some (rc, d')"
    and "length (req_symbol rq) = 128" and "hd_operation (req_header rq) = operation_code Load"
  shows "\<exists>res d1. d' = publish (req_result rq) res d1 \<and> length (res_message res) = 256 \<and>
    (res_status res = 1 \<or> load_module E n mem rq d = Some (Inr (res_module res), d1))"
proof -
  let ?raw = "encode_request rq"
  have raw: "decode_request ?raw = rq" "length ?raw = 176" "decode_header ?raw = req_header rq"
    using assms(2) by (simp_all add: decode_request_encode length_encode_request) (simp add: encode_request_def)
  have op: "operation_of (hd_operation (decode_header ?raw)) = Some Load" by (simp only: raw assms(3) operation_of_code)
  then have not_invoke: "operation_of (hd_operation (decode_header ?raw)) \<noteq> Some Invoke" by simp
  from assms(1) loader_v1_request[OF _ not_invoke, of E n mem d] raw(2) obtain r d1 where
    run: "dispatch E n mem rq d = Some (r, d1)" and
    d': "d' = publish (req_result rq) (case r of Inr res \<Rightarrow> res | Inl x \<Rightarrow> failed_result (dev_errno d1) x) d1"
    by (auto simp: raw(1) split: option.splits sum.splits)
  show ?thesis
  proof (cases r)
    case (Inl x)
    with d' show ?thesis by (intro exI[of _ "failed_result (dev_errno d1) x"] exI[of _ d1]) (simp add: failed_result_def)
  next
    case (Inr res)
    with run op[unfolded raw(3)] have "load_module E n mem rq d = Some (Inr (res_module res), d1)"
      by (auto simp: dispatch_def give_def elim!: bind_io_Inr)
    with d' Inr dispatch_published[OF run] show ?thesis by auto
  qed
qed

section \<open>The image is the file\<close>

lemma exec_read_bytes_tree:
  assumes "exec F (read_bytes p) w = (Returned d, w')"
  shows "tree w' = tree w"
proof -
  from exec_Stat[OF assms[unfolded read_bytes_def]] show ?thesis
    by (auto simp: Let_def split: option.splits node.splits if_splits dest!: exec_Open_read exec_Read_file)
qed

lemma binary_task_tree:
  assumes "exec F (binary_task dir) w = (Returned v, w')"
  shows "tree w' = tree w"
proof -
  from assms obtain b w1 where reg: "exec F (is_regular_file (dir @ [''kernel.aicpu.so''])) w = (Returned b, w1)"
    and rest: "exec F (bind_prog (read_bytes (dir @ [if b then ''kernel.aicpu.so'' else ''kernel.o'']))
      (\<lambda>data. Return (b, dir @ [if b then ''kernel.aicpu.so'' else ''kernel.o''], data))) w1 = (Returned v, w')"
    unfolding binary_task_def Let_def by (rule exec_bind_Returned)
  from rest obtain data where "exec F (read_bytes (dir @ [if b then ''kernel.aicpu.so'' else ''kernel.o''])) w1 = (Returned data, w')"
    by (auto elim!: exec_bind_Returned)
  from exec_read_bytes_tree[OF this] reg show ?thesis
    by (auto simp: is_regular_file_def dest!: exec_Stat split: option.splits)
qed

lemma image_size_found:
  assumes "exec F (image_size_task p) w = (Returned k, w')" and "k > 0"
  shows "tree w' = tree w \<and> (\<exists>m d. lookup (tree w) p = Some (File m d) \<and> k = int (length d))"
proof -
  from exec_Open_read[OF assms(1)[unfolded image_size_task_def]]
  show ?thesis
    using assms(2) by (auto dest!: exec_Stat split: option.splits node.splits)
qed

lemma image_read_found:
  assumes "exec F (image_read_task p k) w = (Returned t, w')"
  shows "tree w' = tree w \<and> (\<exists>m d. lookup (tree w) p = Some (File m d) \<and> t = take k d)"
  using exec_Read_file[OF assms[unfolded image_read_task_def]]
  by (auto split: if_splits)

lemma pin_image_data:
  assumes "pin_image X p k im s = Some (Inr (im', data), s1)"
  shows "\<exists>w. exec (npu_faults X) (image_read_task p k) (disk s) = (Returned data, w)"
  using assms unfolding pin_image_def
proof (rule bind_io_Inr)
  fix t s2
  assume "cleanup_io (fill_image X p k im) (release_image X im) s = Some (Inr t, s2)"
    and point: "(let im = im\<lparr>img_registered := True\<rparr> in cleanup_io (point_image X im t) (release_image X im)) s2 = Some (Inr (im', data), s1)"
  then have "fill_image X p k im s = Some (Inr t, s2)" by (auto elim: cleanup_io_cases)
  then obtain w where "here (npu_faults X) (image_read_task p k) (disk s) = Some (Inr t, w)"
    by (auto simp: fill_image_def give_def split: option.splits sum.splits)
  moreover have "t = data"
    using point by (auto simp: Let_def point_image_def give_def elim!: cleanup_io_cases split: option.splits)
  ultimately show ?thesis by (auto dest: here_Inr)
qed

lemma make_image_content:
  assumes "make_image X p s = Some (Inr (im, data), s1)"
  shows "\<exists>m. lookup (tree (disk s)) p = Some (File m data)"
proof -
  from assms obtain k w where size: "here (npu_faults X) (image_size_task p) (disk s) = Some (Inr k, w)"
    by (auto simp: make_image_def split: option.splits sum.splits)
  let ?s1 = "s\<lparr>disk := w\<rparr>"
  from assms size have lim: "size_limits k (page_size X) (show_path p) = Inr ()"
    by (cases "size_limits k (page_size X) (show_path p)") (auto simp: make_image_def)
  with assms size obtain im0 s2 where "pin_image X p (nat k) im0 s2 = Some (Inr (im, data), s1)" "disk s2 = w"
    by (auto simp: make_image_def Let_def give_def split: host_reply.splits if_splits)
  then obtain w2 where rd: "exec (npu_faults X) (image_read_task p (nat k)) w = (Returned data, w2)"
    using pin_image_data by blast
  from lim have "k > 0" by (simp add: size_limits_def result_simps)
  from image_size_found[OF here_Inr[OF size] this] image_read_found[OF rd] show ?thesis by auto
qed

section \<open>Loading through the driver\<close>

lemma all_granted_prefix: "all_granted X pre (cs @ ds) \<Longrightarrow> all_granted X pre cs"
proof (unfold all_granted_def, intro allI impI)
  fix i assume all: "\<forall>i < length (cs @ ds). \<exists>v b. api X (pre @ take i (cs @ ds)) ((cs @ ds) ! i) = Reply 0 v b" and "i < length cs"
  then show "\<exists>v b. api X (pre @ take i cs) (cs ! i) = Reply 0 v b"
    using all[rule_format, of i] by (simp add: nth_append)
qed

lemma publish_simps [simp]:
  "dev_modules (publish out res d) = dev_modules d" "memfd_data E fd (publish out res d) = memfd_data E fd d"
  "dev_published (publish out res d) = dev_published d @ [(out, encode_result res)]"
  by (simp_all add: publish_def memfd_data_def)

lemma release_image_quiet:
  assumes "release_image X im s = Some (r, s')"
  shows "\<exists>cs. host_log s' = host_log s @ cs \<and> (\<forall>c \<in> set cs. \<not> launches c)"
proof -
  have "\<exists>cs. host_log s' = host_log s @ cs \<and> set cs \<subseteq> {Host_unregister (img_host im), Munmap (img_host im) (img_mapped im)}"
    using assms
    by (auto simp: release_image_def swallow_io_def bind_io_def host_ask_def give_def
        split: host_reply.splits sum.splits if_splits prod.splits)
  then show ?thesis by fastforce
qed

lemma boot_load_Inr:
  assumes "boot_load X p symbol s = Some (Inr m, s')" and "real_handles X"
  obtains im data s1 res s2 cs where
    "length symbol < 128" "make_image X p s = Some (Inr (im, data), s1)" "length data = unat (img_length im)" "boot s1 = boot s"
    "execute X (load_request im symbol) s1 = Some (Inr res, s2)" "m = res_module res"
    "host_log s' = host_log s2 @ cs" "\<forall>c \<in> set cs. \<not> launches c"
proof -
  have len: "length symbol < 128"
    using assms(1) by (cases "length symbol < 128") (auto simp: boot_load_def)
  with assms(1) have "bind_io (make_image X p) (\<lambda>(im, _).
     scoped_io (bind_io (execute X (load_request im symbol)) (\<lambda>res. give (Inr (res_module res)))) (release_image X im)) s =
     Some (Inr m, s')" by (simp add: boot_load_def)
  then obtain v s1 where mk: "make_image X p s = Some (Inr v, s1)" and rest: "(case v of (im, _) \<Rightarrow>
     scoped_io (bind_io (execute X (load_request im symbol)) (\<lambda>res. give (Inr (res_module res)))) (release_image X im)) s1 =
     Some (Inr m, s')" by (rule bind_io_Inr)
  obtain im data where v: "v = (im, data)" by (cases v)
  from rest[unfolded v] obtain s2 r where
    ex: "bind_io (execute X (load_request im symbol)) (\<lambda>res. give (Inr (res_module res))) s1 = Some (Inr m, s2)"
    and rel: "release_image X im s2 = Some (r, s')"
    by (auto simp: scoped_io_def split: option.splits)
  from ex obtain res where res: "execute X (load_request im symbol) s1 = Some (Inr res, s2)" "m = res_module res"
    by (auto simp: give_def elim!: bind_io_Inr)
  from release_image_quiet[OF rel] obtain cs where "host_log s' = host_log s2 @ cs" "\<forall>c \<in> set cs. \<not> launches c" by blast
  with make_image_spec[OF mk assms(2)] len mk v res that show ?thesis by blast
qed

lemma c_text_symbol: "nul \<notin> set symbol \<Longrightarrow> length symbol < 128 \<Longrightarrow> c_text (req_symbol (load_request im symbol)) = symbol"
  by (auto simp: load_request_def c_text_def takeWhile_append takeWhile_eq_all_conv[THEN iffD2] gr0_conv_Suc dest!: less_imp_Suc_add)

lemma load_reaches_device:
  assumes "boot_load X p symbol s = Some (Inr m, s')" and "real_handles X"
    and "delivers X E n mem (loader_handle (boot s)) d0" and "nul \<notin> set symbol"
  shows "\<exists>d M log. device_after X E n mem (loader_handle (boot s)) d0 (host_log s') = Some d \<and> m \<noteq> 0 \<and>
    dev_modules d m = Some M \<and> mod_entry M = rptr (E log (Dlsym (mod_library M) symbol)) \<and>
    (\<exists>im data s1. make_image X p s = Some (Inr (im, data), s1) \<and> length data = unat (img_length im) \<and>
       memfd_data E (mod_fd M) d = mem (img_device im) (length data))"
  using assms(1,2)
proof (rule boot_load_Inr)
  fix im data s1 res s2 cs
  assume len: "length symbol < 128" and mk: "make_image X p s = Some (Inr (im, data), s1)" and data: "length data = unat (img_length im)"
    and boot: "boot s1 = boot s" and ex: "execute X (load_request im symbol) s1 = Some (Inr res, s2)" and m: "m = res_module res"
    and log: "host_log s' = host_log s2 @ cs" and quiet: "\<forall>c \<in> set cs. \<not> launches c"
  let ?h = "loader_handle (boot s)" and ?st = "loader_stream (boot s)" and ?out = "result_buffer (boot s)"
  let ?rq = "(load_request im symbol)\<lparr>req_result := ?out\<rparr>" and ?after = "device_after X E n mem (loader_handle (boot s)) d0"
  define c1 where "c1 = Launch_args ?h 1 ?st (Some [Attr_timeout 30]) (encode_request ?rq)"
  define c3 where "c3 = Acl_memcpy ?out 272"
  from execute_Inr[OF ex] obtain v bytes where
    calls: "host_log s2 = host_log s1 @ [c1, Synchronize_stream ?st, c3]"
      "all_granted X (host_log s1) ([c1, Synchronize_stream ?st] @ [c3])"
    and reply: "api X (host_log s1 @ [c1, Synchronize_stream ?st]) c3 = Reply 0 v bytes"
    and res: "res_module res = res_module (decode_result bytes)" "res_status (decode_result bytes) = 0"
    by (auto simp: boot request_calls_def c1_def c3_def numeral_2_eq_2)
  have granted: "all_granted X (host_log s1) [c1, Synchronize_stream ?st]" by (rule all_granted_prefix[OF calls(2)])
  with assms(3) obtain d where d: "?after (host_log s1 @ [c1, Synchronize_stream ?st]) = Some d"
      "api X (host_log s1 @ [c1, Synchronize_stream ?st]) c3 = Reply 0 v bytes \<longrightarrow>
       (case map_of (rev (dev_published d)) ?out of None \<Rightarrow> True | Some b \<Rightarrow> bytes = b)"
    unfolding delivers_def c1_def c3_def Let_def by blast
  have "?after (host_log s1 @ [c1]) = Some d"
    using d(1) device_after_quiet[of "[Synchronize_stream ?st]" X E n mem ?h d0 "host_log s1 @ [c1]"] by simp
  moreover have "all_granted X (host_log s1) [c1]" using all_granted_prefix[of X _ "[c1]" "[Synchronize_stream ?st]"] granted by simp
  ultimately obtain d1 rc where "loader_v1 E n mem (encode_request ?rq) d1 = Some (rc, d)"
    by (auto simp: c1_def device_after_launch bind_eq_Some_conv)
  moreover have "length (req_symbol ?rq) = 128" "hd_operation (req_header ?rq) = operation_code Load"
    using len by (simp_all add: load_request_def new_request_def)
  ultimately obtain res0 d2 where dev: "d = publish (req_result ?rq) res0 d2" "length (res_message res0) = 256"
      "res_status res0 = 1 \<or> load_module E n mem ?rq d1 = Some (Inr (res_module res0), d2)"
    by (auto dest: loader_v1_load)
  from d(2) reply dev(1) have "bytes = encode_result res0" by simp
  with dev(2) res have res0: "res_module res = res_module res0" "res_status res0 = 0" by (simp_all add: decode_result_encode)
  with dev(3) have "load_module E n mem ?rq d1 = Some (Inr m, d2)" by (simp add: m)
  from load_module_symbol[OF this] obtain M log where M: "dev_modules d2 m = Some M" "m \<noteq> 0"
      "mod_entry M = rptr (E log (Dlsym (mod_library M) (c_text (req_symbol ?rq))))"
      "memfd_data E (mod_fd M) d2 = mem (req_image ?rq) (unat (req_image_size ?rq))" by blast
  have "?after (host_log s') = Some d"
    using d(1) device_after_quiet[of "[c3] @ cs" X E n mem ?h d0 "host_log s1 @ [c1, Synchronize_stream ?st]"] quiet
    by (simp add: log calls(1) c3_def)
  moreover have "c_text (req_symbol ?rq) = symbol" "req_image ?rq = img_device im" "req_image_size ?rq = img_length im"
    using c_text_symbol[OF assms(4) len, of im] by (simp_all add: load_request_def)
  ultimately show ?thesis
    using M mk data by (intro exI[of _ d] exI[of _ M] exI[of _ log]) (auto simp: dev(1))
qed

section \<open>Invoking through the driver\<close>

lemma loader_v1_invoke:
  assumes "dev_modules d m = Some M"
  shows "\<exists>rc. loader_v1 E n mem (invoke_packet m parameters) d = Some (rc, called E (Call_entry (mod_entry M) parameters) d)"
  using assms operation_of_code[of Invoke] by (simp add: loader_v1_def invoke_packet_def Let_def)

lemma invoke_reaches_device:
  assumes "npu_launch X cs k opts args s = Some (Inr (), s')" and "args_fit args" and "nk_aicpu k"
    and "device_after X E n mem (nk_function k) d0 (host_log s) = Some d" and "dev_modules d (nk_module k) = Some M"
  shows "device_after X E n mem (nk_function k) d0 (host_log s') = Some (called E (Call_entry (mod_entry M) (parameters_of args)) d)"
proof -
  from assms(1) have "npu_check_launch k opts = Inr ()"
    by (cases "npu_check_launch k opts") (auto simp: npu_launch_def)
  then have ok: "npu_launchable k opts" using npu_check_launch_Inr by blast
  note run = assms(1)[unfolded npu_launch_packed[OF assms(2) ok]]
  then obtain st where st: "stream_of cs opts = Inr st"
    by (cases "stream_of cs opts") (auto simp: launch_packed_def stream_of_def)
  from launch_packed_spec[OF st run] have log: "host_log s' = host_log s @ launch_sequence X k opts args st"
    and all: "all_granted X (host_log s) (launch_sequence X k opts args st)" by auto
  obtain b cfg where call: "launch_call k opts args st =
      Launch_args (nk_function k) b st cfg (invoke_packet (nk_module k) (parameters_of args))"
    using assms(3) by (simp add: launch_call_def)
  from all have "all_granted X (host_log s) [launch_call k opts args st]"
    using all_granted_prefix[of X "host_log s" "[launch_call k opts args st]"] by (simp add: launch_sequence_def)
  moreover obtain rc where "loader_v1 E n mem (invoke_packet (nk_module k) (parameters_of args)) d =
      Some (rc, called E (Call_entry (mod_entry M) (parameters_of args)) d)"
    using loader_v1_invoke[OF assms(5)] by blast
  ultimately have "device_after X E n mem (nk_function k) d0 (host_log s @ [launch_call k opts args st]) =
      Some (called E (Call_entry (mod_entry M) (parameters_of args)) d)"
    using assms(4) by (simp add: call device_after_launch)
  moreover have "device_after X E n mem (nk_function k) d0 (host_log s') =
      device_after X E n mem (nk_function k) d0 (host_log s @ [launch_call k opts args st])"
    using device_after_quiet[of "[Synchronize_device]" X E n mem "nk_function k" d0 "host_log s @ [launch_call k opts args st]"]
    by (simp add: log launch_sequence_def)
  ultimately show ?thesis by simp
qed

section \<open>Kernel names are C strings\<close>

lemma c_string_at_text: "c_string_at table pos = Some name \<Longrightarrow> nul \<notin> set name"
proof -
  have "char_of (0 :: nat) = nul" by code_simp
  then show "c_string_at table pos = Some name \<Longrightarrow> nul \<notin> set name"
    by (auto simp: c_string_at_def split_at_char_Some split: prod.splits option.splits)
qed

lemma parse_kernel_names_text:
  assumes "parse_kernel_names data = Some (Inr names)" and "name \<in> set names"
  shows "nul \<notin> set name"
proof (cases "is_aicpu_elf (elf_header data)")
  case True
  with parse_kernel_names_dispatch[OF assms(1)] obtain symbols
    where "read_dynsyms data (elf_sections data) (elf_sections data) [] = Some (Inr symbols)"
      and "names = aicpu_kernels (to_std_set symbols)"
    using aicpu_names_Inr[of data "elf_sections data" names] by auto
  with assms(2) read_dynsyms_names have "name \<in> exported_names data (elf_sections data) (elf_sections data)"
    by (fastforce simp: set_aicpu_kernels)
  then show ?thesis by (auto simp: exported_names_def dest: c_string_at_text)
next
  case False
  with parse_kernel_names_dispatch[OF assms(1)] have "names = aicore_kernels (name_table data) (elf_sections data)"
    using aicore_names_table by auto
  with assms(2) obtain sec where "section_kernel (name_table data) sec = Some name" by (auto simp: set_aicore_kernels)
  then obtain n0 where n0: "c_string_at (name_table data) (sh_name sec) = Some n0" "name = strip_mix (drop (length meta_prefix) n0)"
    by (auto simp: section_kernel_def split: if_splits option.splits)
  have "set (strip_mix t) \<subseteq> set t" for t
    by (auto simp: strip_mix_def dest: in_set_takeD)
  then show ?thesis using c_string_at_text[OF n0(1)] n0(2) by (meson in_set_dropD subsetD)
qed

section \<open>Properties\<close>


section \<open>A driver that delivers\<close>

text \<open>
  A driver that runs the loader itself, refuses a launch whose packet the loader would not
  survive, and copies what the loader published.
\<close>

definition sim_step :: "dev_api \<Rightarrow> nat \<Rightarrow> (64 word \<Rightarrow> nat \<Rightarrow> string) \<Rightarrow> 64 word \<Rightarrow> device \<Rightarrow> host_call \<Rightarrow> device" where
  "sim_step E n mem h d c = (case c of
     Launch_args f b st cfg packet \<Rightarrow>
       if f = h then (case loader_v1 E n mem packet d of None \<Rightarrow> d | Some (rc, d') \<Rightarrow> d') else d
   | _ \<Rightarrow> d)"

definition honest_api :: "dev_api \<Rightarrow> nat \<Rightarrow> (64 word \<Rightarrow> nat \<Rightarrow> string) \<Rightarrow> 64 word \<Rightarrow> device \<Rightarrow> host_call list \<Rightarrow> host_call \<Rightarrow> host_reply" where
  "honest_api E n mem h d0 pre c =
     (let d = foldl (sim_step E n mem h) d0 pre
      in case c of
        Launch_args f b st cfg packet \<Rightarrow>
          if f = h \<and> loader_v1 E n mem packet d = None then Reply 507 0 [] else Reply 0 9 []
      | Acl_memcpy buf k \<Rightarrow> Reply 0 9 (case map_of (rev (dev_published d)) buf of Some b \<Rightarrow> b | None \<Rightarrow> [])
      | _ \<Rightarrow> Reply 0 9 [])"

lemma sim_step_simps:
  "sim_step E n mem h d (Launch_args f b st cfg packet) =
     (if f = h then (case loader_v1 E n mem packet d of None \<Rightarrow> d | Some (rc, d') \<Rightarrow> d') else d)"
  "\<not> launches c \<Longrightarrow> sim_step E n mem h d c = d"
  by (simp add: sim_step_def) (cases c; simp add: sim_step_def)

lemma sim_quiet: "\<forall>c \<in> set cs. \<not> launches c \<Longrightarrow> foldl (sim_step E n mem h) d cs = d"
proof (induction cs arbitrary: d)
  case (Cons c cs)
  then show ?case by (cases c) (auto simp: sim_step_def)
qed simp

lemma device_after_honest:
  assumes "api X = honest_api E n mem h d0"
  shows "device_after X E n mem h d0 log = Some (foldl (sim_step E n mem h) d0 log)"
proof (induction log rule: rev_induct)
  case (snoc c log)
  have "all_granted X log [c] \<longleftrightarrow> (\<exists>v b. honest_api E n mem h d0 log c = Reply 0 v b)"
    by (simp add: all_granted_def assms)
  with snoc show ?case
    by (cases "launches c"; cases c)
      (auto simp: device_after_def dev_step_def sim_step_simps honest_api_def Let_def split: option.split)
qed (simp add: device_after_def)

lemma honest_delivers: "api X = honest_api E n mem h d0 \<Longrightarrow> delivers X E n mem h d0"
  by (auto simp: delivers_def Let_def device_after_honest honest_api_def split: option.split)

definition honest_host :: npu_host where
  "honest_host = demo_npu_host (honest_api demo_api (Suc (Suc 0)) (\<lambda>_ _. ''eee'') 5 new_device)"

lemma honest_host_api [simp]: "api honest_host = honest_api demo_api (Suc (Suc 0)) (\<lambda>_ _. ''eee'') 5 new_device"
  by (simp add: honest_host_def demo_npu_host_def)

abbreviation honest_device :: "host_call list \<Rightarrow> device" where
  "honest_device \<equiv> foldl (sim_step demo_api (Suc (Suc 0)) (\<lambda>_ _. ''eee'') 5) new_device"

lemma honest_real: "real_handles honest_host"
  by (simp add: real_handles_def honest_api_def Let_def split: host_call.split)

lemma honest_granted:
  "\<not> launches c \<Longrightarrow> \<exists>b. granted honest_host s c = Some (9, b)"
  by (cases c) (auto simp: granted_def honest_api_def Let_def)

lemma honest_copy:
  "granted honest_host s (Acl_memcpy buf k) = Some (9, case map_of (rev (dev_published (honest_device (host_log s)))) buf of
     Some b \<Rightarrow> b | None \<Rightarrow> [])"
  by (simp add: granted_def honest_api_def Let_def)

lemma honest_launch:
  "granted honest_host s (Launch_args 5 b st cfg packet) =
     (if loader_v1 demo_api (Suc (Suc 0)) (\<lambda>_ _. ''eee'') packet (honest_device (host_log s)) = None then None else Some (9, []))"
  by (simp add: granted_def honest_api_def Let_def)

text \<open>A load request on the fresh device.\<close>

lemma demo_loads:
  "\<exists>D. load_module demo_api (Suc (Suc 0)) (\<lambda>_ _. ''eee'') rq new_device = Some (Inr 9, D) \<and> dev_published D = []"
  by (simp add: load_module_def open_library_def find_entry_def demo_api_def new_device_def
      called_def cleanup_io_def give_def bind_io_def dev_ask_def)

lemma demo_load_request:
  assumes "length (req_symbol rq) = 128" and "hd_operation (req_header rq) = operation_code Load"
  shows "\<exists>d. loader_v1 demo_api (Suc (Suc 0)) (\<lambda>_ _. ''eee'') (encode_request rq) new_device = Some (0, d) \<and>
    map_of (rev (dev_published d)) (req_result rq) = Some (encode_result (new_result\<lparr>res_module := 9\<rparr>))"
proof -
  let ?raw = "encode_request rq"
  have raw: "decode_request ?raw = rq" "length ?raw = 176" "decode_header ?raw = req_header rq"
    using assms(1) by (simp_all add: decode_request_encode length_encode_request) (simp add: encode_request_def)
  have op: "operation_of (hd_operation (decode_header ?raw)) = Some Load" by (simp only: raw assms(2) operation_of_code)
  then have "operation_of (hd_operation (decode_header ?raw)) \<noteq> Some Invoke" by simp
  from loader_v1_request[OF _ this, of demo_api "Suc (Suc 0)" "\<lambda>_ _. ''eee''" new_device, unfolded raw(1)] raw(2)
  have v1: "loader_v1 demo_api (Suc (Suc 0)) (\<lambda>_ _. ''eee'') ?raw new_device =
    (case dispatch demo_api (Suc (Suc 0)) (\<lambda>_ _. ''eee'') rq new_device of
       None \<Rightarrow> None
     | Some (Inr result, d1) \<Rightarrow> Some (0, publish (req_result rq) result d1)
     | Some (Inl x, d1) \<Rightarrow> Some (0, publish (req_result rq) (failed_result (dev_errno d1) x) d1))" by simp
  obtain D where D: "load_module demo_api (Suc (Suc 0)) (\<lambda>_ _. ''eee'') rq new_device = Some (Inr 9, D)" "dev_published D = []"
    using demo_loads by blast
  have "dispatch demo_api (Suc (Suc 0)) (\<lambda>_ _. ''eee'') rq new_device = Some (Inr (new_result\<lparr>res_module := 9\<rparr>), D)"
    using op[unfolded raw(3)] by (simp add: dispatch_def bind_io_def D(1) give_def)
  with v1 D(2) show ?thesis by simp
qed

definition demo_aicpu_entry :: npu where
  "demo_aicpu_entry = demo_npu\<lparr>disk := \<lparr>tree = [([''c'', ''kernel.aicpu.so''], File 0x1A4 demo_elf)], tick = 0\<rparr>\<rparr>"

lemma honest_parts [simp]:
  "npu_faults honest_host = no_faults" "npu_environ honest_host = slow_env" "page_size honest_host = 4096"
  by (simp_all add: honest_host_def demo_npu_host_def)

lemma honest_replies:
  "granted honest_host s (Host_register a k) = Some (9, [])" "granted honest_host s (Host_pointer a) = Some (9, [])"
  "granted honest_host s (Synchronize_stream a) = Some (9, [])"
  "honest_api E n mem h d0 pre (Mmap k) = Reply 0 9 []" "honest_api E n mem h d0 pre (Host_unregister a) = Reply 0 9 []"
  "honest_api E n mem h d0 pre (Munmap a k) = Reply 0 9 []"
  by (simp_all add: granted_def honest_api_def Let_def)

lemma demo_image:
  assumes "lookup (tree (disk s)) p = Some (File 0x1A4 demo_elf)"
  shows "\<exists>im s1 cs. make_image honest_host p s = Some (Inr (im, demo_elf), s1) \<and>
    boot s1 = boot s \<and> host_log s1 = host_log s @ cs \<and> (\<forall>c \<in> set cs. \<not> launches c)"
proof -
  define w1 where "w1 = (disk s)\<lparr>tick := Suc (Suc (tick (disk s)))\<rparr>"
  have size: "here no_faults (image_size_task p) (disk s) = Some (Inr 143, w1)"
    using assms by (cases "disk s") (simp add: here_def run_directly_def image_size_task_def demo_length on_node_def w1_def)
  have "lookup (tree w1) p = Some (File 0x1A4 demo_elf)" using assms by (simp add: w1_def)
  then have rd: "\<exists>w2. here no_faults (image_read_task p 143) w1 = Some (Inr demo_elf, w2)"
    using demo_length by (cases w1) (simp add: here_def run_directly_def image_read_task_def on_node_def)
  then obtain w2 where rd: "here no_faults (image_read_task p 143) w1 = Some (Inr demo_elf, w2)" by blast
  have lim: "size_limits 143 4096 q = Inr ()" for q by (simp add: size_limits_def result_simps dj_host_assert_def)
  show ?thesis
    by (simp add: make_image_def size rd lim honest_replies Let_def pin_image_def fill_image_def point_image_def give_def
        cleanup_io_def bind_io_def[of "cleanup_io _ _"])
qed

lemma demo_execute:
  assumes "honest_device (host_log s) = new_device" and "loader_handle (boot s) = 5" and "loader_healthy (boot s)"
    and "length symbol < 128"
  shows "\<exists>res s'. execute honest_host (load_request im symbol) s = Some (Inr res, s') \<and> res_module res = 9"
proof -
  let ?b = "boot s" and ?s0 = "s\<lparr>boot := (boot s)\<lparr>loader_healthy := False\<rparr>\<rparr>"
  let ?rq = "(load_request im symbol)\<lparr>req_result := result_buffer ?b\<rparr>"
  define c1 where "c1 = Launch_args 5 1 (loader_stream ?b) (Some [Attr_timeout 30]) (encode_request ?rq)"
  have rq: "length (req_symbol ?rq) = 128" "hd_operation (req_header ?rq) = operation_code Load"
    using assms(4) by (simp_all add: load_request_def new_request_def)
  from demo_load_request[OF rq] obtain d where
    d: "loader_v1 demo_api (Suc (Suc 0)) (\<lambda>_ _. ''eee'') (encode_request ?rq) new_device = Some (0, d)"
      "map_of (rev (dev_published d)) (result_buffer ?b) = Some (encode_result (new_result\<lparr>res_module := 9\<rparr>))" by auto
  have g1: "granted honest_host ?s0 c1 = Some (9, [])" using assms(1) d(1) by (simp add: c1_def honest_launch)
  have "honest_device (host_log (asked (Synchronize_stream st) (asked c1 ?s0))) = d" for st
    using assms(1) d(1) by (simp add: c1_def sim_step_simps)
  then have g3: "granted honest_host (asked (Synchronize_stream st) (asked c1 ?s0)) (Acl_memcpy (result_buffer ?b) 272) =
      Some (9, encode_result (new_result\<lparr>res_module := 9\<rparr>))" for st
    using d(2) by (simp add: honest_copy)
  have dec: "decode_result (encode_result (new_result\<lparr>res_module := 9\<rparr>)) = new_result\<lparr>res_module := 9\<rparr>"
    by (simp add: decode_result_encode new_result_def)
  have "\<exists>s'. run_request honest_host (load_request im symbol) s = Some (Inr (new_result\<lparr>res_module := 9\<rparr>), s')"
    by (simp add: run_request_def Let_def assms(2) c1_def[symmetric] g1 g3 honest_replies dec give_def)
  then obtain s' where "run_request honest_host (load_request im symbol) s = Some (Inr (new_result\<lparr>res_module := 9\<rparr>), s')" by blast
  then show ?thesis
    using assms(3) by (simp add: execute_def bind_io_def[of "run_request _ _"] Let_def new_result_def dj_host_assert_def give_def bind_io_def)
qed

lemma demo_boot_load:
  assumes "lookup (tree (disk s)) p = Some (File 0x1A4 demo_elf)" and "host_log s = []" and "boot s = boot demo_npu"
  shows "\<exists>s'. boot_load honest_host p (''k'' @ interface_suffix) s = Some (Inr 9, s')"
proof -
  from demo_image[OF assms(1)] obtain im s1 cs where im: "make_image honest_host p s = Some (Inr (im, demo_elf), s1)"
      "boot s1 = boot s" "host_log s1 = host_log s @ cs" "\<forall>c \<in> set cs. \<not> launches c" by blast
  have "honest_device (host_log s1) = new_device" using im(3,4) assms(2) by (simp add: sim_quiet)
  moreover have "loader_handle (boot s1) = 5" "loader_healthy (boot s1)"
    by (simp_all add: im(2) assms(3) demo_npu_def new_bootstrap_def)
  moreover have len: "length (''k'' @ interface_suffix) < 128" by (simp add: interface_suffix_def)
  ultimately obtain res s2 where res: "execute honest_host (load_request im (''k'' @ interface_suffix)) s1 = Some (Inr res, s2)"
      "res_module res = 9" using demo_execute by blast
  have "\<exists>r s3. release_image honest_host im s2 = Some (r, s3)"
    by (auto simp: release_image_def swallow_io_def honest_replies give_def bind_io_def host_ask_def)
  with len im(1) res show ?thesis
    by (auto simp: boot_load_def bind_io_def[of "make_image _ _"] scoped_io_def bind_io_def[of "execute _ _"] give_def
        dj_host_assert_def bind_io_def)
qed

lemma demo_aicpu_load:
  "\<exists>s0 s'. npu_load honest_host demo_npu_env True [''c''] demo_aicpu_entry =
     Some (Inr \<lparr>nk_aicpu = True, nk_module = 9, nk_binary = 0, nk_function = 5\<rparr>, s') \<and>
     boot_load honest_host [''c'', ''kernel.aicpu.so''] (''k'' @ interface_suffix) s0 = Some (Inr 9, s') \<and> boot s0 = boot demo_npu"
proof -
  let ?p = "[''c'', ''kernel.aicpu.so'']"
  have envs: "env_bool demo_npu_env ''JIT_DEBUG'' False = Inr False" "env_bool demo_npu_env ''JIT_PRINT_LOAD_TIME'' False = Inr False"
    by (simp_all add: env_bool_def env_get_or_def env_get_def get_with_prefix_def demo_npu_env_def slow_env_def
      var_name_def Let_def)
  have "\<exists>w'. exec no_faults (binary_task [''c'']) (disk demo_aicpu_entry) = (Returned (True, ?p, demo_elf), w')"
    by (simp add: demo_aicpu_entry_def binary_task_def is_regular_file_def read_bytes_def on_node_def lookup_def Let_def exec_bind)
  then obtain w' where w': "exec no_faults (binary_task [''c'']) (disk demo_aicpu_entry) = (Returned (True, ?p, demo_elf), w')" by blast
  let ?s1 = "demo_aicpu_entry\<lparr>disk := w'\<rparr>"
  have name: "the_kernel_name p demo_elf s = Some (Inr ''k'', s)" for p s
    by (simp add: the_kernel_name_def names_of_def demo_parsed bind_io_def[of "names_of _"] give_def bind_io_def)
  have "lookup (tree (disk ?s1)) ?p = Some (File 0x1A4 demo_elf)"
    using binary_task_tree[OF w'] by (simp add: demo_aicpu_entry_def lookup_def)
  moreover have "host_log ?s1 = []" "boot ?s1 = boot demo_npu" by (simp_all add: demo_aicpu_entry_def demo_npu_def)
  ultimately obtain s' where ld: "boot_load honest_host ?p (''k'' @ interface_suffix) ?s1 = Some (Inr 9, s')"
    using demo_boot_load by blast
  have "boot s' = (boot ?s1)\<lparr>loader_healthy := loader_healthy (boot s')\<rparr>"
    using boot_load_balance[OF ld honest_real] by blast
  then have "loader_handle (boot s') = loader_handle ((boot ?s1)\<lparr>loader_healthy := loader_healthy (boot s')\<rparr>)" by (rule arg_cong)
  then have handle: "loader_handle (boot s') = 5" by (simp add: demo_aicpu_entry_def demo_npu_def)
  have "npu_load honest_host demo_npu_env True [''c''] demo_aicpu_entry =
     Some (Inr \<lparr>nk_aicpu = True, nk_module = 9, nk_binary = 0, nk_function = 5\<rparr>, s')"
    using on_iothread_ok[OF w'] ld handle
    by (simp add: npu_load_def envs or_env_def bind_io_def[of "the_kernel_name _ _"] name load_aicpu_def
        bind_io_def[of "boot_load _ _ _"] dj_host_assert_def)
  with ld \<open>boot ?s1 = boot demo_npu\<close> show ?thesis by blast
qed


end
