(* ===== verification/Ascend_Backend.thy ===== *)
theory Ascend_Backend
  imports Ascend_Kernel Paths
begin

text \<open>
  \<^verbatim>\<open>backend/ascend/backend.hpp\<close>: the discovery of the toolkit, the versions of compiler and
  linker, the compilation pipeline, loading with the bootstrap that is started for the first
  AICPU kernel, and the backend as an instance of the runtime. Output on the terminal is left
  out; the shell is a parameter. The directory of a build is absolute and normal already.
\<close>

section \<open>The compiler\<close>

record npu_compiler_info =
  bisheng_path :: path
  bisheng_version :: string
  linker_path :: path
  linker_version :: string

definition npu_get_hash :: "npu_compiler_info \<Rightarrow> string" where
  "npu_get_hash info = get_hex_digest (update (update fnv_new (bisheng_version info)) (linker_version info))"

definition npu_info_to_json :: "npu_compiler_info \<Rightarrow> json" where
  "npu_info_to_json info = Object
     [(''path'', Str (bisheng_path info)), (''version'', Str (bisheng_version info)),
      (''linker_path'', Str (linker_path info)), (''linker_version'', Str (linker_version info))]"

record npu_toolkit =
  bisheng :: path
  ld_lld :: path
  asc_devkit_include :: path

record ascend =
  ascend_toolkit :: npu_toolkit
  ascend_info :: npu_compiler_info

definition npu_get_compiler_info :: "shell \<Rightarrow> npu_toolkit \<Rightarrow> npu_compiler_info comp" where
  "npu_get_compiler_info sh tk =
     bind_io (run_command sh (bisheng tk @ '' --version'')) (\<lambda>version.
     bind_io (run_command sh (ld_lld tk @ '' --version'')) (\<lambda>lversion.
     give (Inr \<lparr>bisheng_path = bisheng tk, bisheng_version = version, linker_path = ld_lld tk, linker_version = lversion\<rparr>)))"

section \<open>Discovery\<close>

definition is_directory :: "fpath \<Rightarrow> bool prog" where
  "is_directory p = Sys (Stat p) (\<lambda>r. case r of
     R_stat (Some n) \<Rightarrow> Return (is_dir_node n) | R_err e \<Rightarrow> Raise (filesystem_error p e) | _ \<Rightarrow> Return False)"

text \<open>One \<^verbatim>\<open>if (home_path.empty() and exists(p)) home_path = p;\<close>.\<close>

definition home_at :: "faults \<Rightarrow> path \<Rightarrow> path \<Rightarrow> path \<Rightarrow> path comp" where
  "home_at F cwd p home =
     (if home = [] then bind_io (here F (exists_file (resolve cwd p))) (\<lambda>there. give (Inr (if there then p else [])))
      else give (Inr home))"

definition find_ascend_home :: "faults \<Rightarrow> path \<Rightarrow> environ \<Rightarrow> path comp" where
  "find_ascend_home F cwd e =
     bind_io (give (get_env_string e ''ASCEND_HOME_PATH'')) (\<lambda>home.
     bind_io (if home = [] then give (get_env_string e ''ASCEND_TOOLKIT_HOME'') else give (Inr home)) (\<lambda>home.
     bind_io (home_at F cwd ''/usr/local/Ascend/ascend-toolkit/latest'' home) (\<lambda>home.
     bind_io (home_at F cwd ''/usr/local/Ascend/cann'' home) (\<lambda>home.
     bind_io (if home = [] then give (Inr False) else here F (is_directory (resolve cwd home))) (\<lambda>there.
     bind_io (give (dj_host_assert there ''Ascend toolkit home was not found'')) (\<lambda>_.
     give (Inr (lexically_normal (absolute_path cwd home)))))))))"

definition find_ascend_toolkit :: "faults \<Rightarrow> path \<Rightarrow> environ \<Rightarrow> npu_toolkit comp" where
  "find_ascend_toolkit F cwd e =
     bind_io (find_ascend_home F cwd e) (\<lambda>home.
     let b = path_append home ''bin/bisheng''; l = path_append home ''bin/ld.lld'';
         inc = path_append home ''aarch64-linux/asc/include/adv_api''
     in
     bind_io (here F (is_executable (resolve cwd b))) (\<lambda>ok.
     bind_io (give (dj_host_assert ok (''Bisheng compiler is not executable: '' @ b))) (\<lambda>_.
     bind_io (here F (is_executable (resolve cwd l))) (\<lambda>ok.
     bind_io (give (dj_host_assert ok (''Ascend linker is not executable: '' @ l))) (\<lambda>_.
     bind_io (here F (is_directory (resolve cwd inc))) (\<lambda>ok.
     bind_io (give (dj_host_assert ok (''Ascend adv_api include directory was not found: '' @ inc))) (\<lambda>_.
     give (Inr \<lparr>bisheng = b, ld_lld = l, asc_devkit_include = inc\<rparr>))))))))"

definition make_ascend :: "shell \<Rightarrow> faults \<Rightarrow> path \<Rightarrow> env \<Rightarrow> ascend comp" where
  "make_ascend sh F cwd env =
     bind_io (find_ascend_toolkit F cwd (environ env)) (\<lambda>tk.
     bind_io (npu_get_compiler_info sh tk) (\<lambda>info.
     give (Inr \<lparr>ascend_toolkit = tk, ascend_info = info\<rparr>)))"

section \<open>The pipeline\<close>

definition binary_name :: "npu_compiler_options \<Rightarrow> string" where
  "binary_name opts = (if is_aicpu opts then ''kernel.aicpu.so'' else ''kernel.o'')"

definition prepare_task :: "fpath \<Rightarrow> string \<Rightarrow> bool \<Rightarrow> unit prog" where
  "prepare_task dir source asm =
     bind_prog (write_file_sync (dir @ [''kernel.asc'']) source False) (\<lambda>_.
     if asm then make_dirs (dir @ [''asm'']) False else Return ())"

text \<open>The include directories that AICPU kernels get beside the common ones.\<close>

definition aicpu_includes :: "path \<Rightarrow> path list" where
  "aicpu_includes devkit =
     (let asc = parent_path devkit
      in [asc, path_append asc ''basic_api'', parent_path asc, path_append (parent_path (parent_path asc)) ''include''])"

definition base_bisheng_args :: "ascend \<Rightarrow> config \<Rightarrow> npu_compiler_options \<Rightarrow> string list \<Rightarrow> string list" where
  "base_bisheng_args c cfg opts flags =
     (let devkit = asc_devkit_include (ascend_toolkit c)
      in [bisheng (ascend_toolkit c)] @ flags @
         map (\<lambda>p. ''-I'' @ p) (include_dirs cfg @ [devkit] @ (if is_aicpu opts then aicpu_includes devkit else [])))"

definition bisheng_command :: "ascend \<Rightarrow> config \<Rightarrow> npu_compiler_options \<Rightarrow> fpath \<Rightarrow> string list \<Rightarrow> string" where
  "bisheng_command c cfg opts dir flags =
     join (base_bisheng_args c cfg opts flags @ [path_in dir ''kernel.asc'', ''-o'', path_in dir ''kernel.rel.o'']) '' ''"

definition linker_command :: "ascend \<Rightarrow> npu_compiler_options \<Rightarrow> fpath \<Rightarrow> string" where
  "linker_command c opts dir =
     join ([ld_lld (ascend_toolkit c)] @ get_linker_flags opts @
       [path_in dir ''kernel.rel.o'', ''-o'', path_in dir (binary_name opts)]) '' ''"

definition asm_command :: "ascend \<Rightarrow> config \<Rightarrow> npu_compiler_options \<Rightarrow> fpath \<Rightarrow> string list \<Rightarrow> string" where
  "asm_command c cfg opts dir flags =
     join (base_bisheng_args c cfg opts flags @
       [if is_aicpu opts then ''-S'' else ''-save-temps'', path_in dir ''kernel.asc'', ''-o'',
        path_in (dir @ [''asm'']) (if is_aicpu opts then ''kernel.s'' else ''kernel.rel.o'')]) '' ''"

definition ascend_metadata :: "ascend \<Rightarrow> config \<Rightarrow> npu_compiler_options \<Rightarrow> string \<Rightarrow> json" where
  "ascend_metadata c cfg opts cmd = Object
     [(''command'', Str cmd), (''config'', config_to_json cfg),
      (''compiler_info'', npu_info_to_json (ascend_info c)), (''compiler_options'', npu_options_to_json opts)]"

text \<open>The task that checks the output and writes the metadata.\<close>

definition finish_ascend_build :: "nat \<Rightarrow> fpath \<Rightarrow> string \<Rightarrow> string \<Rightarrow> unit prog" where
  "finish_ascend_build depth dir binary data =
     bind_prog (valid_output (dir @ [binary]) (''Bisheng did not produce a valid Ascend binary: '' @ path_in dir binary)) (\<lambda>_.
     bind_prog (safe_remove_all depth (dir @ [''kernel.rel.o''])) (\<lambda>_.
     write_file_sync (dir @ [''meta.json'']) data False))"

definition ascend_compile ::
  "shell \<Rightarrow> faults \<Rightarrow> nat \<Rightarrow> ascend \<Rightarrow> env \<Rightarrow> config \<Rightarrow> npu_compiler_options \<Rightarrow> string \<Rightarrow> fpath \<Rightarrow> unit comp" where
  "ascend_compile sh F depth c env cfg opts source dir =
     bind_io (give (bind_result (env_bool env ''JIT_DEBUG'' False) (\<lambda>debug.
                    or_env debug env ''JIT_PRINT_COMPILER_COMMAND''))) (\<lambda>_.
     bind_io (on_iothread (environ env) F (prepare_task dir source (value_or_false (dump_asm opts)))) (\<lambda>_.
     bind_io (give (get_bisheng_flags opts)) (\<lambda>flags.
     bind_io (run_command sh (in_dir dir (bisheng_command c cfg opts dir flags))) (\<lambda>_.
     bind_io (run_command sh (in_dir dir (linker_command c opts dir))) (\<lambda>_.
     bind_io (if value_or_false (dump_asm opts)
              then run_command sh (in_dir (dir @ [''asm'']) (asm_command c cfg opts dir flags))
              else give (Inr [])) (\<lambda>_.
     on_iothread (environ env) F
       (finish_ascend_build depth dir (binary_name opts)
         (dump (ascend_metadata c cfg opts
           (bisheng_command c cfg opts dir flags @ '' && '' @ linker_command c opts dir))))))))))"

section \<open>Loading\<close>

text \<open>What the backend keeps: the calls of the driver, and the bootstrap once it has been started.\<close>

record ascend_state =
  as_log :: "host_call list"
  as_boot :: "bootstrap option"

definition entry_kind_task :: "fpath \<Rightarrow> bool prog" where
  "entry_kind_task dir = is_regular_file (dir @ [''kernel.aicpu.so''])"

text \<open>\<^verbatim>\<open>if (aicpu_bootstrap == nullptr and is_aicpu)\<close>; the result tells whether there is a bootstrap now.\<close>

definition ensure_bootstrap :: "npu_host \<Rightarrow> ascend \<Rightarrow> bool \<Rightarrow> fpath \<Rightarrow> (npu, bool) stateful" where
  "ensure_bootstrap X c booted dir =
     bind_io (on_disk (on_iothread (npu_environ X) (npu_faults X) (entry_kind_task dir))) (\<lambda>ai.
     if \<not> booted \<and> ai
     then bind_io (make_bootstrap X (parent_path (parent_path (bisheng (ascend_toolkit c))))) (\<lambda>_. give (Inr True))
     else give (Inr booted))"

definition ascend_load :: "npu_host \<Rightarrow> ascend \<Rightarrow> env \<Rightarrow> (npu_kernel, ascend_state) loader" where
  "ascend_load X c env dir dc st w =
     (let booted = as_boot st \<noteq> None;
          s = \<lparr>host_log = as_log st, disk = w, cache = dc,
               boot = (case as_boot st of Some b \<Rightarrow> b | None \<Rightarrow> new_bootstrap [])\<rparr>;
          back = (\<lambda>r booted s. Some (r, cache s, \<lparr>as_log = host_log s, as_boot = (if booted then Some (boot s) else None)\<rparr>, disk s))
      in case ensure_bootstrap X c booted dir s of
           None \<Rightarrow> None
         | Some (Inl x, s1) \<Rightarrow> back (Inl x) booted s1
         | Some (Inr booted, s1) \<Rightarrow>
             (case npu_load X env booted dir s1 of
                None \<Rightarrow> None
              | Some (r, s2) \<Rightarrow> back r booted s2))"

section \<open>The backend of the runtime\<close>

text \<open>
  The launches of the backend need the state of the host, so the result of a launch is a
  computation. \<open>acl\<close> are the queries of the device properties.
\<close>

definition ascend_backend ::
  "npu_host \<Rightarrow> acl_queries \<Rightarrow> 64 word result \<Rightarrow>
   (npu_compiler_options, npu_launch_options, ascend, ascend_state, npu_kernel, npu_arg list, (npu, unit) stateful) backend" where
  "ascend_backend X acl current_stream =
     \<lparr>make_options = (\<lambda>env. fst (npu_default_options env acl new_npu_device)),
      make_launch_options = npu_default_launch_options,
      make_backend = make_ascend (npu_shell X) (npu_faults X) (npu_cwd X),
      compiler_hash = (\<lambda>c. npu_get_hash (ascend_info c)),
      merge_options = npu_override_with,
      merge_launch_options = npu_launch_override_with,
      hash_options = npu_update_hash,
      hook_hash = (\<lambda>cfg opts s. (Inr [], s)),
      compile_source = (\<lambda>c env cfg opts source. ascend_compile (npu_shell X) (npu_faults X) (npu_depth X) c env cfg opts source),
      load_dir = (\<lambda>c env. ascend_load X c env),
      launch_kernel = (\<lambda>k opts args. npu_launch X current_stream k opts args)\<rparr>"

text \<open>The parts of a key that the options give: the mode, the flags and the linker flags, joined.\<close>

definition ascend_parts :: "npu_compiler_options \<Rightarrow> string list result" where
  "ascend_parts opts = bind_result (get_bisheng_flags opts) (\<lambda>flags.
     Inr ((if is_aicpu opts then [''aicpu''] else []) @ [join flags '' '', join (get_linker_flags opts) '' '']))"

interpretation ascend_key: keyed_options npu_update_hash ascend_parts
  by unfold_locales (simp add: npu_update_hash_def ascend_parts_def bind_result_def Let_def split: sum.split)

section \<open>Lemmas\<close>

lemma finish_ascend_build_outputs:
  assumes "exec F (finish_ascend_build depth dir binary data) w = (Returned u, w')"
    and "binary \<noteq> ''kernel.rel.o''" and "binary \<noteq> ''meta.json''"
  shows "nonempty_file (tree w') (dir @ [binary]) \<and> lookup (tree w') (dir @ [''meta.json'']) \<noteq> None"
proof -
  let ?bin = "dir @ [binary]"
  from assms(1) obtain w1 w2 where run:
    "exec F (valid_output ?bin (''Bisheng did not produce a valid Ascend binary: '' @ path_in dir binary)) w = (Returned (), w1)"
    "exec F (safe_remove_all depth (dir @ [''kernel.rel.o''])) w1 = (Returned (), w2)"
    "exec F (write_file_sync (dir @ [''meta.json'']) data False) w2 = (Returned u, w')"
    unfolding finish_ascend_build_def by (auto elim!: exec_bind_Returned)
  have "\<not> prefix (dir @ [''kernel.rel.o'']) ?bin" using assms(2) by simp
  from exec_spares[OF spares_safe_remove_all[OF this] run(2)] valid_output_nonempty[OF run(1)]
  have "nonempty_file (tree w2) ?bin" by simp
  with exec_spares[OF spares_write run(3), of ?bin] assms(3) have "nonempty_file (tree w') ?bin" by simp
  with written_file_exists[OF run(3)] show ?thesis by simp
qed

text \<open>The chain behind a key.\<close>

definition ascend_chain :: "string \<Rightarrow> string \<Rightarrow> bool \<Rightarrow> string list \<Rightarrow> string list \<Rightarrow> string \<Rightarrow> string list" where
  "ascend_chain signature compiler ai flags lflags code =
     [signature, compiler] @ (if ai then [''aicpu''] else []) @ [join flags '' '', join lflags '' '', [], code]"

lemma ascend_chain_inj:
  assumes "Hash_FNV.stream (ascend_chain sg h ai fl lf code) = Hash_FNV.stream (ascend_chain sg' h' ai' fl' lf' code')"
    and "\<forall>x \<in> set (ascend_chain sg h ai fl lf code) \<union> set (ascend_chain sg' h' ai' fl' lf' code'). length x < 2 ^ 64"
  shows "sg = sg' \<and> h = h' \<and> ai = ai' \<and> join fl '' '' = join fl' '' '' \<and> join lf '' '' = join lf' '' '' \<and> code = code'"
proof -
  have "ascend_chain sg h ai fl lf code = ascend_chain sg' h' ai' fl' lf' code'"
    by (rule stream_inj[OF assms(1)]) (use assms(2) in auto)
  then show ?thesis by (auto simp: ascend_chain_def split: if_splits)
qed

lemma load_aicore_boot:
  assumes "load_aicore X data kernel_name s = Some (r, s')"
  shows "boot s' = boot s"
proof (cases "granted X s (Binary_from_data data)")
  case (Some p)
  let ?k = "no_kernel\<lparr>nk_binary := fst p\<rparr>" and ?s1 = "asked (Binary_function (fst p) kernel_name) (asked (Binary_from_data data) s)"
  obtain k2 s2 where "npu_unload X ?k ?s1 = Some (Inr k2, s2)" "boot s2 = boot s"
    using npu_unload_aicore[of ?k X ?s1] by (auto simp: no_kernel_def)
  with assms Some show ?thesis
    by (cases "granted X (asked (Binary_from_data data) s) (Binary_function (fst p) kernel_name)"; cases p)
      (auto simp: load_aicore_def cleanup_io_def give_def Let_def bind_io_def[of "npu_unload _ _"])
qed (use assms in \<open>auto simp: load_aicore_def\<close>)

section \<open>Properties\<close>


text \<open>The first two parts are what a new runtime starts from.\<close>

lemma new_ascend_runtime_base:
  assumes "make_runtime (ascend_backend X acl cs) cwd files num_cpus can_start e cfg w = Some (Inr rt, w')"
  shows "rt_hash_base rt = foldl update fnv_new [extra_signature cfg, npu_get_hash (ascend_info (rt_backend rt))]"
  using make_runtime_base[OF assms] by (simp add: ascend_backend_def)

text \<open>C37: The cache key of an Ascend kernel is the digest of the framed chain of the extra signature, the
  hash of the versions of compiler and linker, the marker of an AICPU build, the joined flags of the
  compiler and of the linker, an empty hook and the digest of the source with its tracked
  includes, in this order and nothing else (equal chains agree in the mode and in every part:
  lemma \<open>ascend_chain_inj\<close>).\<close>

theorem ascend_cache_key_exact:
  assumes "rt_hash_base rt = foldl update fnv_new [extra_signature (rt_config rt), npu_get_hash (ascend_info (rt_backend rt))]"
    and "cache_key (ascend_backend X acl cs) os rt source opts s = Some (Inr key, pst, s1)"
  shows "\<exists>flags code. get_bisheng_flags opts = Inr flags \<and>
    parse_into_hash (os_fuel os) ((rt_parser rt)\<lparr>p_files := os_files os\<rparr>) (rt_parser_state rt) source = Some (Inr code, pst) \<and>
    key = get_hex_digest (foldl update_byte fnv_new (Hash_FNV.stream
      (ascend_chain (extra_signature (rt_config rt)) (npu_get_hash (ascend_info (rt_backend rt))) (is_aicpu opts) flags
        (get_linker_flags opts) code)))"
proof -
  have ops: "hash_options (ascend_backend X acl cs) = npu_update_hash"
      "\<And>cfg opts s. hook_hash (ascend_backend X acl cs) cfg opts s = (Inr [], s)"
    by (simp_all add: ascend_backend_def)
  let ?base = "[extra_signature (rt_config rt), npu_get_hash (ascend_info (rt_backend rt))]"
  from ascend_key.cache_key_parts[OF ops(1) assms(2,1)] obtain ps code where k:
    "ascend_parts opts = Inr ps"
    "parse_into_hash (os_fuel os) ((rt_parser rt)\<lparr>p_files := os_files os\<rparr>) (rt_parser_state rt) source = Some (Inr code, pst)"
    "key = get_hex_digest (foldl update fnv_new (?base @ ps @ [[], code]))"
    by (auto simp: ops)
  from k(1) obtain flags where flags: "get_bisheng_flags opts = Inr flags"
      "ps = (if is_aicpu opts then [''aicpu''] else []) @ [join flags '' '', join (get_linker_flags opts) '' '']"
    by (auto simp: ascend_parts_def result_simps)
  have "key = get_hex_digest (foldl update_byte fnv_new (Hash_FNV.stream (?base @ ps @ [[], code])))"
    using k(3) by (simp only: updates_stream)
  then have "key = get_hex_digest (foldl update_byte fnv_new (Hash_FNV.stream
      (ascend_chain (extra_signature (rt_config rt)) (npu_get_hash (ascend_info (rt_backend rt))) (is_aicpu opts) flags
        (get_linker_flags opts) code)))"
    by (simp add: flags(2) ascend_chain_def)
  then show ?thesis using k(2) flags(1) by blast
qed

section \<open>One bootstrap\<close>

definition as_held :: "npu_host \<Rightarrow> ascend_state \<Rightarrow> host_resource multiset" where
  "as_held X st = gather (host_effect X) {#} (as_log st)"

text \<open>What the bootstrap of the backend stands for.\<close>

definition as_owned :: "ascend_state \<Rightarrow> host_resource multiset" where
  "as_owned st = (case as_boot st of Some b \<Rightarrow> owned b | None \<Rightarrow> {#})"

text \<open>What a load leaves with its kernel: the binary; or the pages that the driver did not unregister.\<close>

definition load_keeps :: "npu_kernel result \<Rightarrow> host_resource multiset set" where
  "load_keeps r = (case r of
     Inr k \<Rightarrow> if nk_aicpu k then insert {#} (range leaked) else {{#Binary (nk_binary k)#}}
   | Inl x \<Rightarrow> insert {#} (range leaked))"

lemma npu_load_keeps:
  assumes "npu_load X env booted dir s = Some (r, s')" and "real_handles X"
  shows "(\<exists>R \<in> load_keeps r. host_held X s' = host_held X s + R) \<and> (\<exists>h. boot s' = (boot s)\<lparr>loader_healthy := h\<rparr>) \<and>
    (\<forall>k. r = Inr k \<and> nk_aicpu k \<longrightarrow> booted \<and> nk_function k = loader_handle (boot s'))"
  using assms(1)
proof (cases rule: npu_load_cases)
  case (found ai p data w kernel_name)
  show ?thesis
  proof (cases ai)
    case False
    with found(3) have run: "load_aicore X data kernel_name (s\<lparr>disk := w\<rparr>) = Some (r, s')" by simp
    have "\<exists>h. boot s' = (boot s)\<lparr>loader_healthy := h\<rparr>"
      using load_aicore_boot[OF run] by (intro exI[of _ "loader_healthy (boot s)"]) simp
    with load_aicore_spec[OF run assms(2)] show ?thesis by (cases r) (auto simp: load_keeps_def)
  next
    case True
    with found(3) have run: "load_aicpu X booted p kernel_name (s\<lparr>disk := w\<rparr>) = Some (r, s')" by simp
    note spec = load_aicpu_spec[OF run assms(2)]
    have boot: "\<exists>h. boot s' = (boot s)\<lparr>loader_healthy := h\<rparr>"
    proof (cases booted)
      case b: True
      with run have "bind_io (boot_load X p (kernel_name @ interface_suffix)) (\<lambda>m s.
         Some (Inr \<lparr>nk_aicpu = True, nk_module = m, nk_binary = 0, nk_function = loader_handle (boot s)\<rparr>, s)) (s\<lparr>disk := w\<rparr>) = Some (r, s')"
        by (simp add: load_aicpu_def)
      then obtain q where "boot_load X p (kernel_name @ interface_suffix) (s\<lparr>disk := w\<rparr>) = Some (q, s')"
        by (cases rule: bind_io_cases) auto
      from boot_load_balance[OF this assms(2)] show ?thesis by auto
    qed (use run in \<open>auto simp: load_aicpu_def intro: exI[of _ "loader_healthy (boot s)"]\<close>)
    then have "loader_handle (boot s') = loader_handle (boot s)" by auto
    with spec boot show ?thesis by (cases r) (auto simp: load_keeps_def)
  qed
next
  case (early x)
  then show ?thesis
    by (auto simp: load_keeps_def intro!: exI[of _ "loader_healthy (boot s)"])
qed

lemma ensure_bootstrap_cases [consumes 2, case_names failed kept started]:
  assumes "ensure_bootstrap X c booted dir s = Some (r, s1)" and "real_handles X"
  obtains x where "r = Inl x" "booted \<longrightarrow> boot s1 = boot s" "host_held X s1 = host_held X s"
  | "r = Inr booted" "boot s1 = boot s" "host_held X s1 = host_held X s"
  | w1 where "r = Inr True" "\<not> booted" "exec (npu_faults X) (entry_kind_task dir) (disk s) = (Returned True, w1)"
    "host_held X s1 = host_held X s + owned (boot s1)"
proof -
  let ?rest = "\<lambda>ai. if \<not> booted \<and> ai
     then bind_io (make_bootstrap X (parent_path (parent_path (bisheng (ascend_toolkit c))))) (\<lambda>_. give (Inr True))
     else give (Inr booted)"
  from assms(1) have "bind_io (on_disk (on_iothread (npu_environ X) (npu_faults X) (entry_kind_task dir))) ?rest s = Some (r, s1)"
    by (simp add: ensure_bootstrap_def)
  then show ?thesis
  proof (cases rule: bind_io_cases)
    case (threw x)
    then show ?thesis by (intro that(1)[of x]) (auto elim: on_disk_cases)
  next
    case (went ai s2)
    from went(1) obtain w1 where w1: "on_iothread (npu_environ X) (npu_faults X) (entry_kind_task dir) (disk s) = Some (Inr ai, w1)"
      and s2: "s2 = s\<lparr>disk := w1\<rparr>" by (rule on_disk_cases)
    show ?thesis
    proof (cases "\<not> booted \<and> ai")
      case True
      with went(2) have "bind_io (make_bootstrap X (parent_path (parent_path (bisheng (ascend_toolkit c))))) (\<lambda>_. give (Inr True)) s2 =
        Some (r, s1)" by simp
      then show ?thesis
      proof (cases rule: bind_io_cases)
        case (threw x)
        from make_bootstrap_owned[OF threw(1) assms(2)] threw(2) True s2 show ?thesis by (intro that(1)[of x]) auto
      next
        case (went u s3)
        from went(2) have "s3 = s1" "r = Inr True" by (simp_all add: give_def)
        with make_bootstrap_owned[OF went(1) assms(2)] True s2 on_iothread_exec[OF w1] show ?thesis
          by (intro that(3)[of w1]) auto
      qed
    next
      case False
      with went(2) s2 show ?thesis by (intro that(2)) (auto simp: give_def)
    qed
  qed
qed

text \<open>C15: The bootstrap is started at most once, for the first AICPU kernel: a load never replaces a
  bootstrap that is there, starts one only for an entry with an AICPU binary, and an AICPU
  kernel that is handed out launches through the bootstrap that the backend holds. Whatever happens,
  the host holds afterwards exactly what it held before, what a bootstrap that was started
  stands for, and what the kernel keeps: nothing is lost when a constructor or a load fails (apart from
  the pages of an image that the driver does not unregister).\<close>

theorem ascend_boots_once:
  assumes "ascend_load X c env dir dc st w = Some (r, dc', st', w')" and "real_handles X"
  shows "(\<forall>b. as_boot st = Some b \<longrightarrow> (\<exists>h. as_boot st' = Some (b\<lparr>loader_healthy := h\<rparr>))) \<and>
    (as_boot st = None \<and> as_boot st' \<noteq> None \<longrightarrow>
       (\<exists>w1. exec (npu_faults X) (entry_kind_task dir) w = (Returned True, w1))) \<and>
    (\<forall>k. r = Inr k \<and> nk_aicpu k \<longrightarrow> (\<exists>b. as_boot st' = Some b \<and> nk_function k = loader_handle b)) \<and>
    (\<exists>R \<in> load_keeps r. as_held X st' + as_owned st = as_held X st + as_owned st' + R)"
proof -
  let ?booted = "as_boot st \<noteq> None"
  define s where "s = \<lparr>host_log = as_log st, disk = w, cache = dc,
     boot = (case as_boot st of Some b \<Rightarrow> b | None \<Rightarrow> new_bootstrap [])\<rparr>"
  have s: "host_held X s = as_held X st" "disk s = w" "\<And>b. as_boot st = Some b \<Longrightarrow> boot s = b"
    by (simp_all add: s_def host_held_def as_held_def)
  note run = assms(1)[unfolded ascend_load_def Let_def, folded s_def]
  then obtain q s1 where en: "ensure_bootstrap X c ?booted dir s = Some (q, s1)" by (auto split: option.splits)
  have held: "as_held X \<lparr>as_log = host_log t, as_boot = b\<rparr> = host_held X t" for t b
    by (simp add: as_held_def host_held_def)
  show ?thesis
  proof (cases q)
    case (Inl x)
    with run en have out: "r = Inl x" "st' = \<lparr>as_log = host_log s1, as_boot = (if ?booted then Some (boot s1) else None)\<rparr>" by auto
    from en have "host_held X s1 = host_held X s \<and> (?booted \<longrightarrow> boot s1 = boot s)"
      using assms(2) by (cases rule: ensure_bootstrap_cases) (use Inl in auto)
    with out s held show ?thesis
      by (auto simp: load_keeps_def as_owned_def intro: exI[of _ "loader_healthy (boot s)"])
  next
    case (Inr booted)
    with run en obtain s2 where ld: "npu_load X env booted dir s1 = Some (r, s2)"
      and out: "st' = \<lparr>as_log = host_log s2, as_boot = (if booted then Some (boot s2) else None)\<rparr>"
      by (auto split: option.splits)
    from npu_load_keeps[OF ld assms(2)] obtain R h where keep: "R \<in> load_keeps r" "host_held X s2 = host_held X s1 + R"
        "boot s2 = (boot s1)\<lparr>loader_healthy := h\<rparr>" "\<forall>k. r = Inr k \<and> nk_aicpu k \<longrightarrow> booted \<and> nk_function k = loader_handle (boot s2)" by blast
    from en assms(2) show ?thesis
    proof (cases rule: ensure_bootstrap_cases)
      case (failed x)
      with Inr show ?thesis by simp
    next
      case kept
      with Inr have "booted = ?booted" by simp
      with kept keep out s held show ?thesis
        by (cases "as_boot st") (auto simp: as_owned_def intro!: bexI[of _ R])
    next
      case (started w1)
      with Inr keep out s held show ?thesis
        by (auto simp: as_owned_def intro!: bexI[of _ R])
    qed
  qed
qed

text \<open>An AICPU entry on a host where device memory is exhausted.\<close>

definition demo_ascend :: ascend where
  "demo_ascend = \<lparr>ascend_toolkit = \<lparr>bisheng = ''/b'', ld_lld = ''/l'', asc_devkit_include = ''/a/b/c/adv_api''\<rparr>,
     ascend_info = \<lparr>bisheng_path = ''/b'', bisheng_version = ''1'', linker_path = ''/l'', linker_version = ''2''\<rparr>\<rparr>"

theorem ascend_boots_once_witness:
  "\<exists>x dc' st' w'. ascend_load (demo_npu_host no_memory_api) demo_ascend demo_npu_env [''c''] two_roots \<lparr>as_log = [], as_boot = None\<rparr>
       \<lparr>tree = [([''c'', ''kernel.aicpu.so''], File 0x1A4 demo_elf)], tick = 0\<rparr> = Some (Inl x, dc', st', w') \<and>
     as_boot st' = None \<and> Create_stream \<in> set (as_log st') \<and>
     as_held (demo_npu_host no_memory_api) st' \<in> insert {#} (range leaked)"
proof -
  let ?X = "demo_npu_host no_memory_api" and ?w = "\<lparr>tree = [([''c'', ''kernel.aicpu.so''], File 0x1A4 demo_elf)], tick = 0\<rparr>"
  let ?st = "\<lparr>as_log = [], as_boot = None\<rparr>"
  have "exec no_faults (entry_kind_task [''c'']) ?w = (Returned True, ?w\<lparr>tick := 1\<rparr>)"
    by (simp add: entry_kind_task_def is_regular_file_def on_node_def lookup_def)
  from on_iothread_ok[OF this]
  have kind: "on_iothread (npu_environ ?X) (npu_faults ?X) (entry_kind_task [''c'']) ?w = Some (Inr True, ?w\<lparr>tick := 1\<rparr>)"
    by (simp add: demo_npu_host_def)
  have "\<exists>x s1. ensure_bootstrap ?X demo_ascend False [''c'']
      \<lparr>host_log = [], disk = ?w, cache = two_roots, boot = new_bootstrap []\<rparr> = Some (Inl x, s1) \<and> Create_stream \<in> set (host_log s1)"
    unfolding ensure_bootstrap_def bind_disk npu.select_convs kind
    by (simp add: make_bootstrap_def granted_def no_memory_api_def willing_api_def demo_npu_host_def cleanup_io_def
        init_bootstrap_def release_bootstrap_def try_release_def new_bootstrap_def bind_io_def acl_checked_def
        host_ask_def swallow_io_def give_def asked_def check_acl_def)
  then obtain x dc' st' w' where run: "ascend_load ?X demo_ascend demo_npu_env [''c''] two_roots ?st ?w = Some (Inl x, dc', st', w')"
    and "as_boot st' = None" "Create_stream \<in> set (as_log st')"
    by (auto simp: ascend_load_def)
  with ascend_boots_once[OF run no_memory_real] show ?thesis
    by (auto simp: as_held_def as_owned_def load_keeps_def)
qed

text \<open>An AICPU build of an empty source with tools that write one byte.\<close>

definition demo_npu_options :: npu_compiler_options where
  "demo_npu_options = npu_unset_options\<lparr>aicpu := Some True, npu_optimize_level := Some ''2''\<rparr>"

definition demo_build_dir :: fpath where
  "demo_build_dir = [''t'']"

definition demo_tools :: shell where
  "demo_tools cmd w = (Inr [], w\<lparr>tree := AList.update (demo_build_dir @ [''kernel.aicpu.so'']) (File 0x1A4 ''x'') (tree w)\<rparr>)"

definition demo_npu_config :: config where
  "demo_npu_config = \<lparr>python_library_root = ''/x'', cfg_env_prefix = ''X'', extra_signature = ''s'', include_dirs = [], include_prefixes = []\<rparr>"

definition demo_build_world :: world where
  "demo_build_world = \<lparr>tree = [(demo_build_dir, Dir 0x1ED)], tick = 0\<rparr>"

lemma demo_npu_flags: "\<exists>flags. get_bisheng_flags demo_npu_options = Inr flags"
  by (simp add: get_bisheng_flags_def demo_npu_options_def npu_unset_options_def is_aicpu_def dj_host_assert_def)

lemma demo_remove:
  assumes "lookup (tree w) p = None"
  shows "exec no_faults (safe_remove_all (Suc k) p) w = (Returned (), w\<lparr>tick := Suc (tick w)\<rparr>)"
  using assms by (cases w) (simp add: on_node_def)

lemma demo_ascend_compile:
  "\<exists>w'. ascend_compile demo_tools no_faults 1 demo_ascend demo_npu_env demo_npu_config demo_npu_options [] demo_build_dir demo_build_world =
     Some (Inr (), w')"
proof -
  let ?dir = demo_build_dir and ?bin = "demo_build_dir @ [''kernel.aicpu.so'']"
  have dir: "is_dir_at (tree demo_build_world) ?dir" "lookup (tree demo_build_world) (?dir @ [x]) = None" for x
    by (simp_all add: is_dir_at_def lookup_def demo_build_world_def demo_build_dir_def)
  obtain w1 where w1: "exec no_faults (write_file_sync (?dir @ [''kernel.asc'']) [] False) demo_build_world = (Returned (), w1)"
      "\<forall>q. q \<noteq> ?dir @ [''kernel.asc''] \<longrightarrow> lookup (tree w1) q = lookup (tree demo_build_world) q"
    using write_file_sync_ok[of demo_build_world "?dir @ [''kernel.asc'']" "[]"] dir by (auto simp: is_dir_at_def)
  define w2 where "w2 = w1\<lparr>tree := AList.update ?bin (File 0x1A4 ''x'') (tree w1)\<rparr>"
  define w3 where "w3 = w2\<lparr>tree := AList.update ?bin (File 0x1A4 ''x'') (tree w2)\<rparr>"
  have look: "lookup (tree w3) q = (if q = ?bin then Some (File 0x1A4 ''x'') else lookup (tree w1) q)" for q
    by (simp add: w3_def w2_def lookup_def update_conv')
  have w1_dir: "lookup (tree w1) ?dir = lookup (tree demo_build_world) ?dir"
      "lookup (tree w1) (?dir @ [x]) = None" if "x \<noteq> ''kernel.asc''" for x
    using w1(2) that dir(2) by (simp_all add: demo_build_dir_def)
  have fin: "\<exists>w'. exec no_faults (finish_ascend_build 1 ?dir ''kernel.aicpu.so'' d) w3 = (Returned (), w')" for d
  proof -
    have "nonempty_file (tree w3) ?bin" by (simp add: look nonempty_file_def)
    note v = valid_output_ok[OF this, of "''Bisheng did not produce a valid Ascend binary: '' @ path_in ?dir ''kernel.aicpu.so''"]
    let ?w4 = "w3\<lparr>tick := Suc (Suc (tick w3))\<rparr>"
    have rel: "lookup (tree ?w4) (?dir @ [''kernel.rel.o'']) = None" using look w1_dir(2) by simp
    let ?w5 = "?w4\<lparr>tick := Suc (tick ?w4)\<rparr>"
    have "is_dir_at (tree ?w5) ?dir" "\<not> is_dir_at (tree ?w5) (?dir @ [''meta.json''])"
      using look w1_dir(1)[of "''x''"] w1_dir(2)[of "''meta.json''"] dir(1) by (simp_all add: is_dir_at_def)
    then have "\<exists>w'. exec no_faults (write_file_sync (?dir @ [''meta.json'']) d False) ?w5 = (Returned (), w')"
      using write_file_sync_ok[of ?w5 "?dir @ [''meta.json'']" d] by auto
    then show ?thesis
      unfolding finish_ascend_build_def exec_bind v using demo_remove[OF rel, of 0] by (simp add: exec_bind)
  qed
  have envs: "env_bool demo_npu_env ''JIT_DEBUG'' False = Inr False"
      "env_bool demo_npu_env ''JIT_PRINT_COMPILER_COMMAND'' False = Inr False" "environ demo_npu_env = slow_env"
    by (simp_all add: env_bool_def env_get_or_def env_get_def get_with_prefix_def demo_npu_env_def slow_env_def
      var_name_def Let_def)
  have prep: "exec no_faults (prepare_task ?dir [] False) demo_build_world = (Returned (), w1)"
    using w1(1) by (simp add: prepare_task_def exec_bind)
  have opts: "dump_asm demo_npu_options = None" "is_aicpu demo_npu_options" "binary_name demo_npu_options = ''kernel.aicpu.so''"
    by (simp_all add: demo_npu_options_def npu_unset_options_def is_aicpu_def binary_name_def)
  have tools: "demo_tools cmd w1 = (Inr [], w2)" "demo_tools cmd w2 = (Inr [], w3)" for cmd
    by (simp_all add: demo_tools_def w2_def w3_def)
  obtain flags where flags: "get_bisheng_flags demo_npu_options = Inr flags" using demo_npu_flags by blast
  obtain w' where w': "exec no_faults (finish_ascend_build 1 ?dir ''kernel.aicpu.so''
      (dump (ascend_metadata demo_ascend demo_npu_config demo_npu_options
        (bisheng_command demo_ascend demo_npu_config demo_npu_options ?dir flags @ '' && '' @
         linker_command demo_ascend demo_npu_options ?dir)))) w3 = (Returned (), w')"
    using fin by blast
  show ?thesis
    unfolding ascend_compile_def envs opts value_or_false_def
    using on_iothread_ok[OF prep] on_iothread_ok[OF w'] flags
    by (simp add: bind_io_def give_def envs or_env_def run_command_def tools)
qed


definition demo_acl :: acl_queries where
  "demo_acl = \<lparr>aclrtGetDevice = (0, 0), aclrtGetSocName = Some ''soc'', aclrtGetDeviceInfo = (\<lambda>_ _. (0, 1)),
     aclGetRecentErrMsg = (\<lambda>_. None)\<rparr>"

definition demo_npu_runtime :: "(npu_compiler_options, npu_launch_options, ascend, npu_kernel) runtime" where
  "demo_npu_runtime =
     \<lparr>rt_config = demo_npu_config, rt_env = demo_npu_env, rt_default_options = demo_npu_options,
      rt_default_launch = npu_unset_launch_options, rt_disk_cache = two_roots, rt_backend = demo_ascend,
      rt_parser = \<lparr>p_include_dirs = [], p_include_prefixes = [],
                   p_files = \<lparr>path_exists = (\<lambda>_. False), open_read = Map.empty\<rparr>\<rparr>,
      rt_parser_state = new_pstate, rt_mem_cache = Map.empty,
      rt_hash_base = foldl update fnv_new [extra_signature demo_npu_config, npu_get_hash (ascend_info demo_ascend)],
      rt_precompiler = None\<rparr>"

theorem ascend_cache_key_exact_witness:
  "\<exists>key pst s1 flags. cache_key (ascend_backend (demo_npu_host willing_api) demo_acl (Inr 0)) toy_os demo_npu_runtime []
       demo_npu_options \<lparr>as_log = [], as_boot = None\<rparr> = Some (Inr key, pst, s1) \<and>
     get_bisheng_flags demo_npu_options = Inr flags \<and>
     key = get_hex_digest (foldl update_byte fnv_new (Hash_FNV.stream
       [''s'', npu_get_hash (ascend_info demo_ascend), ''aicpu'', join flags '' '', [], [], hex_digest_of []]))"
proof -
  let ?B = "ascend_backend (demo_npu_host willing_api) demo_acl (Inr 0)" and ?s = "\<lparr>as_log = [], as_boot = None\<rparr>"
  have parse: "parse_into_hash (os_fuel toy_os) ((rt_parser demo_npu_runtime)\<lparr>p_files := os_files toy_os\<rparr>)
      (rt_parser_state demo_npu_runtime) [] = Some (Inr (hex_digest_of []), new_pstate)"
    by (simp add: parse_into_hash_def toy_os_def demo_npu_runtime_def code_lines.simps[of "[]"] hex_digest_of_def)
  have parts: "rt_config demo_npu_runtime = demo_npu_config" "rt_backend demo_npu_runtime = demo_ascend"
    "rt_hash_base demo_npu_runtime = foldl update fnv_new [extra_signature demo_npu_config, npu_get_hash (ascend_info demo_ascend)]"
    by (simp_all add: demo_npu_runtime_def)
  have opts: "is_aicpu demo_npu_options" "get_linker_flags demo_npu_options = []"
    by (simp_all add: demo_npu_options_def npu_unset_options_def is_aicpu_def get_linker_flags_def)
  have nojoin: "join [] '' '' = []" by code_simp
  have "\<exists>key pst s1. cache_key ?B toy_os demo_npu_runtime [] demo_npu_options ?s = Some (Inr key, pst, s1)"
    using demo_npu_flags by (auto simp: cache_key_def ascend_backend_def npu_update_hash_def bind_result_def Let_def parse)
  then obtain key pst s1 where k: "cache_key ?B toy_os demo_npu_runtime [] demo_npu_options ?s = Some (Inr key, pst, s1)" by blast
  have base: "rt_hash_base demo_npu_runtime =
      foldl update fnv_new [extra_signature (rt_config demo_npu_runtime), npu_get_hash (ascend_info (rt_backend demo_npu_runtime))]"
    by (simp add: parts)
  from ascend_cache_key_exact[OF base k] k show ?thesis
    unfolding parse parts ascend_chain_def opts(2) nojoin by (auto simp: demo_npu_config_def opts(1))
qed

end
