(* ===== verification/Backtrace.thy ===== *)
theory Backtrace
  imports Hash_FNV
begin

text \<open>
  \<^verbatim>\<open>utils/exception.hpp\<close>: the message of an exception and the backtrace in it, and
  \<^verbatim>\<open>utils/uuid.hpp\<close>. The unwinder, the dynamic linker and libdw are parameters: the return
  addresses of the stack, what \<^verbatim>\<open>dladdr\<close> and libdw know of an address, and the demangler.
\<close>

section \<open>What is known of an address\<close>

record dl_info =
  dli_fname :: "string option"
  dli_fbase :: "64 word"
  dli_sname :: "string option"

record dwfl_api =
  dw_handle :: bool
  dw_session :: bool
  dwfl_addrmodule :: "64 word \<Rightarrow> nat option"
  dwfl_module_addrname :: "nat \<Rightarrow> 64 word \<Rightarrow> string option"
  dwfl_module_getsrc :: "nat \<Rightarrow> 64 word \<Rightarrow> (string option \<times> int) option"

definition dwfl_valid :: "dwfl_api \<Rightarrow> bool" where
  "dwfl_valid dw \<longleftrightarrow> dw_handle dw \<and> dw_session dw"

record frame_info =
  fi_function :: "string option"
  fi_file_line :: string

definition find_frame :: "dwfl_api \<Rightarrow> 64 word \<Rightarrow> frame_info" where
  "find_frame dw addr =
     (let unknown = \<lparr>fi_function = None, fi_file_line = ''??:0''\<rparr>
      in if \<not> dwfl_valid dw then unknown
      else case dwfl_addrmodule dw addr of
        None \<Rightarrow> unknown
      | Some m \<Rightarrow>
          (let found = unknown\<lparr>fi_function := dwfl_module_addrname dw m addr\<rparr>
           in case dwfl_module_getsrc dw m addr of
                None \<Rightarrow> found
              | Some (src_file, ln) \<Rightarrow>
                  found\<lparr>fi_file_line := (case src_file of None \<Rightarrow> ''??'' | Some f \<Rightarrow> f) @ '':'' @ show_int ln\<rparr>))"

text \<open>\<^verbatim>\<open>filename\<close> after its last slash.\<close>

definition base_name :: "string \<Rightarrow> string" where
  "base_name s = rev (takeWhile (\<lambda>c. c \<noteq> CHR ''/'') (rev s))"

definition is_python_frame :: "dl_info \<Rightarrow> bool" where
  "is_python_frame info =
     ((case dli_sname info of None \<Rightarrow> False | Some s \<Rightarrow> prefix ''Py'' s \<or> prefix ''_Py'' s) \<or>
      (case dli_fname info of
         None \<Rightarrow> False
       | Some f \<Rightarrow> let b = base_name f
                   in b = ''python'' \<or> prefix ''python3'' b \<or> prefix ''libpython'' b))"

definition demangle :: "(string \<Rightarrow> string option) \<Rightarrow> string option \<Rightarrow> string" where
  "demangle cxa n = (case n of None \<Rightarrow> ''<unknown function>''
     | Some s \<Rightarrow> (case cxa s of Some v \<Rightarrow> v | None \<Rightarrow> s))"

text \<open>\<^verbatim>\<open>{:#x}\<close>\<close>

fun show_hex :: "nat \<Rightarrow> string" where
  "show_hex n = (if n < 16 then [hex_digit n] else show_hex (n div 16) @ [hex_digit (n mod 16)])"

declare show_hex.simps [simp del]

section \<open>The backtrace\<close>

record unwinder =
  return_addresses :: "64 word list"
  dladdr :: "64 word \<Rightarrow> dl_info"
  dwfl :: dwfl_api
  cxa_demangle :: "string \<Rightarrow> string option"

definition max_num_frames :: nat where
  "max_num_frames = 16"

definition lookup_address :: "64 word \<Rightarrow> 64 word" where
  "lookup_address a = (if a = 0 then 0 else a - 1)"

definition format_frame :: "unwinder \<Rightarrow> nat \<Rightarrow> 64 word \<Rightarrow> string" where
  "format_frame U i a =
     (let info = dladdr U a; fi = find_frame (dwfl U) a;
          func = (case fi_function fi of None \<Rightarrow> dli_sname info | Some f \<Rightarrow> Some f)
      in ''  #'' @ show_nat i @ '' '' @ (case dli_fname info of None \<Rightarrow> ''??'' | Some f \<Rightarrow> f) @ ''+0x'' @
         show_hex (unat (a - dli_fbase info)) @ '' '' @ demangle (cxa_demangle U) func @ '' at '' @ fi_file_line fi @ [CHR 0x0A])"

text \<open>
  The loop over \<open>i\<close>, with \<open>n\<close> rounds left; \<open>frames\<close> is the array, of which the unwinder has filled
  \<open>num\<close> slots. \<open>None\<close> is a read outside the array.
\<close>

fun trace_loop :: "unwinder \<Rightarrow> 64 word list \<Rightarrow> nat \<Rightarrow> nat \<Rightarrow> nat \<Rightarrow> nat \<Rightarrow> string option" where
  "trace_loop U frames num skip 0 i = Some []"
| "trace_loop U frames num skip (Suc n) i =
     (if skip + i \<ge> num then Some []
      else if skip + i \<ge> length frames then None
      else let a = lookup_address (frames ! (skip + i))
      in if is_python_frame (dladdr U a) then Some []
         else map_option (\<lambda>s. format_frame U i a @ s) (trace_loop U frames num skip n (Suc i)))"

text \<open>\<^verbatim>\<open>backtrace\<close> fills the array as far as the stack goes; the other slots stay null.\<close>

definition get_backtrace :: "unwinder \<Rightarrow> nat \<Rightarrow> string option" where
  "get_backtrace U skip =
     (let size = max_num_frames + skip;
          got = take size (return_addresses U);
          frames = got @ replicate (size - length got) 0
      in trace_loop U frames (length got) skip max_num_frames 0)"

text \<open>
  \<^verbatim>\<open>DwflApi::DwflApi\<close> and \<^verbatim>\<open>refresh\<close> at the head of \<^verbatim>\<open>get_backtrace\<close>: libdw may be absent, and the
  pointers that \<^verbatim>\<open>dlsym\<close> returns are not checked; \<open>None\<close> is a call through a null pointer. The
  object is made once, and the mutex makes the rest of the function one step.
\<close>

definition dwfl_symbols :: "string list" where
  "dwfl_symbols = [''dwfl_begin'', ''dwfl_linux_proc_report'', ''dwfl_report_end'', ''dwfl_addrmodule'',
     ''dwfl_module_addrname'', ''dwfl_module_getsrc'', ''dwfl_lineinfo'', ''dwfl_linux_proc_find_elf'']"

record libdw =
  dw_opens :: bool
  dw_exports :: "string list"
  dw_begins :: bool
  dw_answers :: dwfl_api

definition load_dwfl :: "libdw \<Rightarrow> dwfl_api option" where
  "load_dwfl L =
     (if \<not> dw_opens L then Some ((dw_answers L)\<lparr>dw_handle := False, dw_session := False\<rparr>)
      else if ''dwfl_begin'' \<notin> set (dw_exports L) then None
      else Some ((dw_answers L)\<lparr>dw_handle := True, dw_session := dw_begins L\<rparr>))"

definition refresh_dwfl :: "libdw \<Rightarrow> dwfl_api \<Rightarrow> unit option" where
  "refresh_dwfl L dw =
     (if \<not> dwfl_valid dw then Some ()
      else if ''dwfl_linux_proc_report'' \<in> set (dw_exports L) \<and> ''dwfl_report_end'' \<in> set (dw_exports L) then Some ()
      else None)"

definition backtrace_of_process :: "libdw \<Rightarrow> unwinder \<Rightarrow> nat \<Rightarrow> string option" where
  "backtrace_of_process L U skip =
     Option.bind (load_dwfl L) (\<lambda>dw. Option.bind (refresh_dwfl L dw) (\<lambda>_. get_backtrace (U\<lparr>dwfl := dw\<rparr>) skip))"

definition exception_message :: "unwinder \<Rightarrow> string \<Rightarrow> string \<Rightarrow> int \<Rightarrow> string \<Rightarrow> string option" where
  "exception_message U kind src_file ln err =
     map_option (\<lambda>trace.
       kind @ '' error ('' @ src_file @ '':'' @ show_int ln @ ''): '' @ err @
       (if trace = [] then [] else [CHR 0x0A] @ ''C++ trace (most recent call first):'' @ [CHR 0x0A] @ trace))
     (get_backtrace U 2)"

section \<open>Identifiers\<close>

text \<open>\<^verbatim>\<open>{:08x}\<close> of 32 bits, and \<^verbatim>\<open>get_uuid\<close> for a process and three random words.\<close>

definition hex8 :: "32 word \<Rightarrow> string" where
  "hex8 x = (let s = show_hex (unat x) in replicate (8 - length s) CHR ''0'' @ s)"

definition get_uuid :: "nat \<Rightarrow> 32 word \<Rightarrow> 32 word \<Rightarrow> 32 word \<Rightarrow> string" where
  "get_uuid pid a b c = show_nat pid @ ''-'' @ hex8 a @ ''-'' @ hex8 b @ ''-'' @ hex8 c"

section \<open>Lemmas\<close>

text \<open>The frames that the trace shows: those above the skipped ones, at most sixteen, up to the interpreter.\<close>

definition shown_frames :: "unwinder \<Rightarrow> nat \<Rightarrow> 64 word list" where
  "shown_frames U skip =
     takeWhile (\<lambda>a. \<not> is_python_frame (dladdr U a))
       (map lookup_address (take max_num_frames (drop skip (return_addresses U))))"

lemma trace_loop_shown:
  assumes "length got \<le> length frames" and "take (length got) frames = got"
  shows "trace_loop U frames (length got) skip n i =
    Some (concat (map (\<lambda>(j, a). format_frame U j a)
      (zip [i..<i + n] (takeWhile (\<lambda>a. \<not> is_python_frame (dladdr U a)) (map lookup_address (take n (drop (skip + i) got)))))))"
proof (induction n arbitrary: i)
  case (Suc n)
  show ?case
  proof (cases "skip + i < length got")
    case False
    then show ?thesis by simp
  next
    case True
    then have "frames ! (skip + i) = got ! (skip + i)" using assms(2) by (metis nth_take)
    moreover have "take (Suc n) (drop (skip + i) got) = got ! (skip + i) # take n (drop (skip + Suc i) got)"
      using True by (simp add: Cons_nth_drop_Suc[symmetric])
    moreover have "[i..<i + Suc n] = i # [Suc i..<Suc i + n]" by (simp add: upt_conv_Cons)
    ultimately show ?thesis using True Suc.IH[of "Suc i"] assms(1) by (simp add: Let_def)
  qed
qed simp

lemma is_hex_digit: "d < 16 \<Longrightarrow> hex_digit d \<in> set ''0123456789abcdef''"
  by (simp only: hex_digit_def) (rule nth_mem, simp)

text \<open>Identifiers are names of one path component, and differ when a word or the process does.\<close>

lemma show_hex_digits: "set (show_hex n) \<subseteq> set ''0123456789abcdef''"
proof (induction n rule: show_hex.induct)
  case (1 n)
  show ?case
  proof (cases "n < 16")
    case True
    then show ?thesis using is_hex_digit[of n] by (subst show_hex.simps) simp
  next
    case False
    with 1 is_hex_digit[of "n mod 16"] show ?thesis by (subst show_hex.simps) simp
  qed
qed

lemma hex8_digits: "set (hex8 x) \<subseteq> set ''0123456789abcdef''"
  using show_hex_digits[of "unat x"] by (auto simp: hex8_def Let_def)

lemma uuid_component: "CHR ''/'' \<notin> set (get_uuid pid a b c)"
  using hex8_digits[of a] hex8_digits[of b] hex8_digits[of c] show_nat_digits[of pid]
  by (auto simp: get_uuid_def list_all_iff is_digit_def)

section \<open>Properties\<close>

text \<open>The trace of an exception never reads outside its array of frames and shows exactly the native
  frames: those above the skipped ones, at most sixteen, up to the first frame of the Python
  interpreter, numbered from zero, one line each; the message has the trace only when it is
  not empty.\<close>

theorem backtrace_exact:
  "\<exists>trace. get_backtrace U skip = Some trace \<and>
     trace = concat (map (\<lambda>(i, a). format_frame U i a) (zip [0..<length (shown_frames U skip)] (shown_frames U skip))) \<and>
     length (shown_frames U skip) \<le> 16 \<and> (\<forall>a \<in> set (shown_frames U skip). \<not> is_python_frame (dladdr U a)) \<and>
     (skip = 2 \<longrightarrow> exception_message U kind src_file ln err = Some
       (kind @ '' error ('' @ src_file @ '':'' @ show_int ln @ ''): '' @ err @
        (if shown_frames U 2 = [] then []
         else [CHR 0x0A] @ ''C++ trace (most recent call first):'' @ [CHR 0x0A] @ trace)))"
proof -
  let ?size = "max_num_frames + skip" and ?got = "take (max_num_frames + skip) (return_addresses U)"
  let ?frames = "?got @ replicate (?size - length ?got) 0" and ?shown = "shown_frames U skip"
  define trace where "trace = concat (map (\<lambda>(i, a). format_frame U i a) (zip [0..<length ?shown] ?shown))"
  have "take max_num_frames (drop (skip + 0) ?got) = take max_num_frames (drop skip (return_addresses U))"
    by (simp add: drop_take)
  moreover have "take (length ?got) ?frames = ?got" "length ?got \<le> length ?frames" by (simp_all add: min_def)
  ultimately have "get_backtrace U skip = Some (concat (map (\<lambda>(j, a). format_frame U j a) (zip [0..<16] ?shown)))"
    using trace_loop_shown[of ?got ?frames U skip max_num_frames 0]
    unfolding get_backtrace_def Let_def shown_frames_def by (simp add: max_num_frames_def)
  moreover have len: "length ?shown \<le> 16"
    using length_takeWhile_le[of "\<lambda>a. \<not> is_python_frame (dladdr U a)"
        "map lookup_address (take 16 (drop skip (return_addresses U)))"]
    by (simp add: shown_frames_def max_num_frames_def)
  then have "zip [0..<16] ?shown = zip [0..<length ?shown] ?shown"
    by (intro nth_equalityI) auto
  ultimately have bt: "get_backtrace U skip = Some trace" by (simp add: trace_def)
  have nil: "trace = [] \<longleftrightarrow> ?shown = []"
    by (cases ?shown) (simp_all add: trace_def upt_conv_Cons format_frame_def Let_def del: upt_Suc)
  have native: "\<forall>a \<in> set ?shown. \<not> is_python_frame (dladdr U a)"
    by (auto simp: shown_frames_def dest: set_takeWhileD)
  have "exception_message U kind src_file ln err = Some
       (kind @ '' error ('' @ src_file @ '':'' @ show_int ln @ ''): '' @ err @
        (if shown_frames U 2 = [] then []
         else [CHR 0x0A] @ ''C++ trace (most recent call first):'' @ [CHR 0x0A] @ trace))" if "skip = 2"
    using bt[unfolded that] nil[unfolded that] by (simp add: exception_message_def)
  with bt len native show ?thesis by (intro exI[of _ trace]) (simp only: trace_def, simp)
qed

text \<open>A stack of four frames, the last of which is the interpreter.\<close>

definition demo_stack :: unwinder where
  "demo_stack = \<lparr>return_addresses = [1, 2, 19, 5],
     dladdr = (\<lambda>a. \<lparr>dli_fname = Some (if a = 4 then ''/usr/bin/python3.12'' else ''/lib/k.so''), dli_fbase = 2, dli_sname = Some ''f''\<rparr>),
     dwfl = \<lparr>dw_handle = False, dw_session = False, dwfl_addrmodule = (\<lambda>_. None), dwfl_module_addrname = (\<lambda>_ _. None),
       dwfl_module_getsrc = (\<lambda>_ _. None)\<rparr>,
     cxa_demangle = (\<lambda>_. None)\<rparr>"

lemma demo_stack_shown: "shown_frames demo_stack 2 = [18]"
  by code_simp

lemma demo_stack_line: "format_frame demo_stack 0 18 = ''  #0 /lib/k.so+0x10 f at ??:0'' @ [CHR 0x0A]"
  by code_simp

theorem backtrace_exact_witness:
  "exception_message demo_stack ''Panic'' ''a.hpp'' 7 ''bad'' = Some
     (''Panic error (a.hpp:7): bad'' @ [CHR 0x0A] @ ''C++ trace (most recent call first):'' @ [CHR 0x0A] @
      ''  #0 /lib/k.so+0x10 f at ??:0'' @ [CHR 0x0A])"
proof -
  have seven: "show_int 7 = ''7''" by code_simp
  from backtrace_exact[of demo_stack 2 "''Panic''" "''a.hpp''" 7 "''bad''"] show ?thesis
    by (auto simp: demo_stack_shown demo_stack_line seven)
qed

text \<open>Without libdw, or with a complete one, there is a trace; without it no frame has a line.\<close>

lemma backtrace_of_process_returns:
  assumes "dw_opens L \<Longrightarrow> set dwfl_symbols \<subseteq> set (dw_exports L)"
  shows "\<exists>trace. backtrace_of_process L U skip = Some trace"
proof -
  have "''dwfl_begin'' \<in> set (dw_exports L)" if "dw_opens L" using assms[OF that] by (simp add: dwfl_symbols_def)
  then obtain dw where dw: "load_dwfl L = Some dw" by (cases "dw_opens L") (simp_all add: load_dwfl_def)
  have "refresh_dwfl L dw = Some ()"
    using dw assms by (cases "dw_opens L") (auto simp: load_dwfl_def refresh_dwfl_def dwfl_valid_def dwfl_symbols_def)
  with dw backtrace_exact[of "U\<lparr>dwfl := dw\<rparr>" skip] show ?thesis by (auto simp: backtrace_of_process_def)
qed

lemma no_libdw_no_lines:
  assumes "load_dwfl L = Some dw" "\<not> dw_opens L \<or> \<not> dw_begins L"
  shows "find_frame dw a = \<lparr>fi_function = None, fi_file_line = ''??:0''\<rparr>"
  using assms by (auto simp: load_dwfl_def find_frame_def dwfl_valid_def split: if_splits)

end
