(* ===== verification/Driver_Libs.thy ===== *)
theory Driver_Libs
  imports Lazy_Values
begin

text \<open>
  \<^verbatim>\<open>backend/cuda/driver.hpp\<close> and \<^verbatim>\<open>backend/ascend/driver.hpp\<close>: the two libraries whose functions are
  resolved on first use, as the macros of \<^verbatim>\<open>utils/lazy.hpp\<close> declare them, one static variable for
  the handle and one for each function.
\<close>

record lazy_library =
  lib_getter :: string
  lib_file :: string
  lib_functions :: "string list"

definition cuda_driver_library :: lazy_library where
  "cuda_driver_library =
     \<lparr>lib_getter = ''get_cuda_handle'', lib_file = ''libcuda.so.1'',
      lib_functions =
        [''cuGetErrorName'', ''cuGetErrorString'', ''cuDeviceGet'', ''cuDeviceGetAttribute'', ''cuFuncSetAttribute'',
         ''cuLaunchKernelEx'', ''cuStreamBatchMemOp'', ''cuTensorMapEncodeTiled'', ''cuLibraryLoadData'',
         ''cuLibraryUnload'', ''cuLibraryGetKernelCount'', ''cuLibraryEnumerateKernels'', ''cuKernelGetFunction'',
         ''cuMemAddressFree'', ''cuMemAddressReserve'', ''cuMemCreate'', ''cuMemExportToShareableHandle'',
         ''cuMemGetAccess'', ''cuMemGetAllocationGranularity'', ''cuMemGetAllocationPropertiesFromHandle'',
         ''cuMemImportFromShareableHandle'', ''cuMemMap'', ''cuMemMapArrayAsync'', ''cuMemRelease'',
         ''cuMemRetainAllocationHandle'', ''cuMemSetAccess'', ''cuMemUnmap'']\<rparr>"

definition acl_library :: lazy_library where
  "acl_library =
     \<lparr>lib_getter = ''get_acl_handle'', lib_file = ''libascendcl.so'',
      lib_functions =
        [''aclGetRecentErrMsg'', ''aclrtBinaryLoadFromData'', ''aclrtBinaryLoadFromFile'', ''aclrtBinaryUnLoad'',
         ''aclrtBinaryGetFunction'', ''aclrtLaunchKernelWithHostArgs'', ''aclrtGetDevice'', ''aclrtGetSocName'',
         ''aclrtGetDeviceInfo'', ''aclrtSynchronizeDevice'', ''aclrtCreateStream'', ''aclrtDestroyStream'',
         ''aclrtSynchronizeStream'', ''aclrtMalloc'', ''aclrtFree'', ''aclrtMemcpy'', ''aclrtHostRegisterV2'',
         ''aclrtHostGetDevicePointer'', ''aclrtHostUnregister'']\<rparr>"

text \<open>The static variables of a library, and what the dynamic linker answers during one use.\<close>

record dl_state =
  dl_opened :: "nat option"
  dl_symbols :: "string \<rightharpoonup> nat"

definition dl_start :: dl_state where
  "dl_start = \<lparr>dl_opened = None, dl_symbols = Map.empty\<rparr>"

record dl_replies =
  on_dlopen :: "nat option"
  on_dlsym :: "nat \<Rightarrow> string \<Rightarrow> nat option"
  on_dlerror :: "string option"

text \<open>A use of \<^verbatim>\<open>lazy_f\<close>: the pointer that is called, or the error that is thrown.\<close>

definition lazy_function :: "lazy_library \<Rightarrow> string \<Rightarrow> dl_replies \<Rightarrow> dl_state \<Rightarrow> nat result \<times> dl_state" where
  "lazy_function lib f rep st =
     (case dl_function (lib_file lib) (lib_getter lib) f (on_dlopen rep) (\<lambda>h. on_dlsym rep h f) (on_dlerror rep)
             (dl_opened st, dl_symbols st f) of
        (r, h, symbol) \<Rightarrow> (r, st\<lparr>dl_opened := h, dl_symbols := (dl_symbols st)(f := symbol)\<rparr>))"

fun lazy_functions :: "lazy_library \<Rightarrow> (string \<times> dl_replies) list \<Rightarrow> dl_state \<Rightarrow> nat result list \<times> dl_state" where
  "lazy_functions lib [] st = ([], st)"
| "lazy_functions lib ((f, rep) # uses) st =
     (case lazy_function lib f rep st of (r, st1) \<Rightarrow>
      case lazy_functions lib uses st1 of (rs, st2) \<Rightarrow> (r # rs, st2))"

section \<open>Lemmas\<close>

lemma libraries_distinct:
  "distinct (lib_functions cuda_driver_library)" "distinct (lib_functions acl_library)"
  by (simp_all add: cuda_driver_library_def acl_library_def)

text \<open>A function is only known together with the library it is from.\<close>

definition dl_ok :: "dl_state \<Rightarrow> bool" where
  "dl_ok st \<longleftrightarrow> (\<exists>f. dl_symbols st f \<noteq> None) \<longrightarrow> dl_opened st \<noteq> None"

lemma lazy_function_known: "dl_symbols st f = Some p \<Longrightarrow> lazy_function lib f rep st = (Inr p, st)"
  by (cases st) (simp add: lazy_function_def dl_function_def fun_upd_idem)

definition opened_after :: "dl_replies \<Rightarrow> dl_state \<Rightarrow> nat option" where
  "opened_after rep st = (case dl_opened st of Some h \<Rightarrow> Some h | None \<Rightarrow> on_dlopen rep)"

lemmas lazy_function_defs = opened_after_def lazy_function_def dl_function_def dl_handle_def

lemma lazy_function_no_library:
  "dl_symbols st f = None \<Longrightarrow> opened_after rep st = None \<Longrightarrow> \<exists>m. lazy_function lib f rep st = (Inl (Panic m), st)"
  by (cases st) (simp add: lazy_function_defs fun_upd_idem_iff split: option.splits)

lemma lazy_function_no_symbol:
  "dl_symbols st f = None \<Longrightarrow> opened_after rep st = Some h \<Longrightarrow> on_dlsym rep h f = None \<Longrightarrow>
   \<exists>m. lazy_function lib f rep st = (Inl (Panic m), st\<lparr>dl_opened := Some h\<rparr>)"
  by (cases st) (auto simp: lazy_function_defs fun_upd_idem_iff split: option.splits)

lemma lazy_function_found:
  "dl_symbols st f = None \<Longrightarrow> opened_after rep st = Some h \<Longrightarrow> on_dlsym rep h f = Some p \<Longrightarrow>
   lazy_function lib f rep st = (Inr p, st\<lparr>dl_opened := Some h, dl_symbols := (dl_symbols st)(f \<mapsto> p)\<rparr>)"
  by (cases st) (auto simp: lazy_function_defs split: option.splits)

lemma lazy_function_cases [consumes 1, case_names known no_library no_symbol found]:
  assumes "lazy_function lib f rep st = (r, st')"
  obtains p where "dl_symbols st f = Some p" "r = Inr p" "st' = st"
  | m where "dl_symbols st f = None" "opened_after rep st = None" "r = Inl (Panic m)" "st' = st"
  | h m where "dl_symbols st f = None" "opened_after rep st = Some h" "on_dlsym rep h f = None" "r = Inl (Panic m)"
      "st' = st\<lparr>dl_opened := Some h\<rparr>"
  | h p where "dl_symbols st f = None" "opened_after rep st = Some h" "on_dlsym rep h f = Some p" "r = Inr p"
      "st' = st\<lparr>dl_opened := Some h, dl_symbols := (dl_symbols st)(f \<mapsto> p)\<rparr>"
proof (cases "dl_symbols st f")
  case (Some p)
  from lazy_function_known[OF Some, of lib rep] assms have "r = Inr p" "st' = st" by simp_all
  with Some show ?thesis by (rule that(1))
next
  case None
  note unknown = lazy_function_no_library[OF this, of rep] lazy_function_no_symbol[OF this, of rep] lazy_function_found[OF this, of rep]
  show ?thesis
  proof (cases "opened_after rep st")
    case None
    from unknown(1)[OF None, of lib] assms obtain m where "r = Inl (Panic m)" "st' = st" by auto
    with \<open>dl_symbols st f = None\<close> None show ?thesis by (rule that(2))
  next
    case (Some h)
    show ?thesis
    proof (cases "on_dlsym rep h f")
      case None
      from unknown(2)[OF Some None, of lib] assms obtain m where "r = Inl (Panic m)" "st' = st\<lparr>dl_opened := Some h\<rparr>" by auto
      with \<open>dl_symbols st f = None\<close> Some None show ?thesis by (rule that(3))
    next
      case found: (Some p)
      from unknown(3)[OF Some found, of lib] assms
      have "r = Inr p" "st' = st\<lparr>dl_opened := Some h, dl_symbols := (dl_symbols st)(f \<mapsto> p)\<rparr>" by simp_all
      with \<open>dl_symbols st f = None\<close> Some found show ?thesis by (rule that(4))
    qed
  qed
qed

text \<open>What is resolved stays: the library is opened once, and a function is looked up once.\<close>

definition dl_keeps :: "dl_state \<Rightarrow> dl_state \<Rightarrow> bool" where
  "dl_keeps st st' \<longleftrightarrow> (dl_ok st \<longrightarrow> dl_ok st') \<and> (\<forall>h. dl_opened st = Some h \<longrightarrow> dl_opened st' = Some h) \<and>
     dl_symbols st \<subseteq>\<^sub>m dl_symbols st'"

lemma lazy_function_keeps: "lazy_function lib f rep st = (r, st') \<Longrightarrow> dl_keeps st st'"
  by (cases rule: lazy_function_cases)
    (auto simp: dl_keeps_def dl_ok_def map_le_def opened_after_def dest: domI split: option.splits)

lemma lazy_functions_keep: "lazy_functions lib uses st = (rs, st') \<Longrightarrow> dl_keeps st st'"
proof (induction uses arbitrary: st rs)
  case (Cons u uses)
  obtain f rep where u: "u = (f, rep)" by (cases u)
  obtain r st1 where 1: "lazy_function lib f rep st = (r, st1)" by fastforce
  from Cons.prems 1 u obtain rs1 where 2: "lazy_functions lib uses st1 = (rs1, st')" by (auto split: prod.splits)
  from Cons.IH[OF 2] lazy_function_keeps[OF 1] show ?case
    by (auto simp: dl_keeps_def intro: map_le_trans)
qed (simp add: dl_keeps_def)

text \<open>Two uses of a function call the same pointer, whatever is resolved between them.\<close>

lemma lazy_function_same:
  assumes "lazy_function lib f rep st = (Inr p, st1)" and "lazy_functions lib uses st1 = (rs, st2)"
  shows "lazy_function lib f rep' st2 = (Inr p, st2)"
proof -
  have "dl_symbols st1 f = Some p" using assms(1) by (cases rule: lazy_function_cases) auto
  with lazy_functions_keep[OF assms(2)] have "dl_symbols st2 f = Some p"
    unfolding dl_keeps_def map_le_def by (metis domI)
  then show ?thesis by (rule lazy_function_known)
qed

end
