(* ===== verification/Scopes.thy ===== *)
theory Scopes
  imports State_Order Call_Log
begin

text \<open>
  Objects that hold something for the rest of a scope: \<^verbatim>\<open>GilScopedRelease\<close> of \<^verbatim>\<open>utils/gil.hpp\<close>, which
  lets other Python threads run, and \<^verbatim>\<open>TorchCUDAStreamGuard\<close> of
  \<^verbatim>\<open>backend/cuda/stable_torch_utils.h\<close>, which makes a stream the current one; and the two functions
  beside it that ask PyTorch for a stream. Python and PyTorch are responders.
\<close>

section \<open>Scopes\<close>

text \<open>The constructor, the rest of the scope, and the destructor on every way out of it.\<close>

definition in_scope :: "('s, 'h) stateful \<Rightarrow> ('h \<Rightarrow> ('s, unit) stateful) \<Rightarrow> ('h \<Rightarrow> ('s, 'a) stateful) \<Rightarrow> ('s, 'a) stateful" where
  "in_scope enter leave body = bind_io enter (\<lambda>h. scoped_io (body h) (leave h))"

locale scope_guard =
  fixes enter :: "('s, 'h) stateful" and leave :: "'h \<Rightarrow> ('s, unit) stateful"
    and held :: "'s \<Rightarrow> 'r multiset" and owns :: "'h \<Rightarrow> 'r multiset"
  assumes enter_fails: "enter s = Some (Inl x, s') \<Longrightarrow> held s' = held s"
    and enter_holds: "enter s = Some (Inr h, s') \<Longrightarrow> held s' = held s + owns h"
    and leave_frees: "leave h s = Some (r, s') \<Longrightarrow> held s' = held s - owns h"
begin

text \<open>A scope holds nothing more after it than before, whether its body throws or not.\<close>

lemma balanced:
  assumes "in_scope enter leave body s = Some (r, s')"
    and "\<And>h. obeys (\<lambda>s s'. held s' = held s) (body h)"
  shows "held s' = held s"
  using assms(1)[unfolded in_scope_def]
proof (cases rule: bind_io_cases)
  case (threw x)
  with enter_fails show ?thesis by blast
next
  case (went h s1)
  from went(2) obtain s2 q where run: "body h s1 = Some (r, s2)" "leave h s2 = Some (q, s')"
    by (auto simp: scoped_io_def split: option.splits)
  with leave_frees[OF run(2)] enter_holds[OF went(1)] obeysD[OF assms(2) run(1)] show ?thesis by simp
qed

text \<open>The body runs while it is held, or not at all.\<close>

lemma held_inside:
  assumes "in_scope enter leave body s = Some (r, s')"
  shows "(\<exists>x. r = Inl x \<and> enter s = Some (Inl x, s')) \<or>
    (\<exists>h s1 s2. enter s = Some (Inr h, s1) \<and> owns h \<subseteq># held s1 \<and> body h s1 = Some (r, s2) \<and> (\<exists>q. leave h s2 = Some (q, s')))"
  using assms[unfolded in_scope_def]
proof (cases rule: bind_io_cases)
  case (went h s1)
  from went(2) obtain s2 q where "body h s1 = Some (r, s2)" "leave h s2 = Some (q, s')"
    by (auto simp: scoped_io_def split: option.splits)
  with went(1) enter_holds[OF went(1)] show ?thesis by auto
qed auto

end

section \<open>The interpreter lock\<close>

text \<open>
  With \<^verbatim>\<open>DJ_DISABLE_GIL\<close> the class is empty. A handle is the optional \<^verbatim>\<open>gil_scoped_release\<close>: the
  thread gives up the lock when it has it, and takes it back at the end.
\<close>

datatype py_call = Is_initialized | Gil_check | Save_thread | Restore_thread

type_synonym py_log = "py_call list"

definition py_ask :: "(py_call, bool) responder \<Rightarrow> py_call \<Rightarrow> (py_log, bool) stateful" where
  "py_ask P c log = Some (Inr (P log c), log @ [c])"

definition gil_release :: "bool \<Rightarrow> (py_call, bool) responder \<Rightarrow> (py_log, bool) stateful" where
  "gil_release disabled P =
     (if disabled then give (Inr False)
      else bind_io (py_ask P Is_initialized) (\<lambda>up.
           if \<not> up then give (Inr False)
           else bind_io (py_ask P Gil_check) (\<lambda>has.
           if \<not> has then give (Inr False)
           else bind_io (py_ask P Save_thread) (\<lambda>_. give (Inr True)))))"

definition gil_restore :: "(py_call, bool) responder \<Rightarrow> bool \<Rightarrow> (py_log, unit) stateful" where
  "gil_restore P released =
     (if released then bind_io (py_ask P Restore_thread) (\<lambda>_. give (Inr ())) else give (Inr ()))"

text \<open>How often the thread has given up the lock and not taken it back.\<close>

definition gil_given :: "py_log \<Rightarrow> unit multiset" where
  "gil_given = gather (\<lambda>_ c m. case c of Save_thread \<Rightarrow> add_mset () m | Restore_thread \<Rightarrow> m - {#()#} | _ \<Rightarrow> m) {#}"

lemma gil_given_simps [simp]:
  "gil_given [] = {#}" "gil_given (log @ [Save_thread]) = add_mset () (gil_given log)"
  "gil_given (log @ [Restore_thread]) = gil_given log - {#()#}"
  "gil_given (log @ [Is_initialized]) = gil_given log" "gil_given (log @ [Gil_check]) = gil_given log"
  by (simp_all add: gil_given_def)

lemma bind_py_ask [simp]: "bind_io (py_ask P c) f log = f (P log c) (log @ [c])"
  by (simp add: bind_io_def py_ask_def)

interpretation gil: scope_guard "gil_release disabled P" "gil_restore P" gil_given "\<lambda>released. if released then {#()#} else {#}"
  for disabled P
proof
  show "gil_given s' = gil_given s" if "gil_release disabled P s = Some (Inl x, s')" for s x s'
    using that by (auto simp: gil_release_def give_def split: if_splits)
  show "gil_given s' = gil_given s + (if h then {#()#} else {#})" if "gil_release disabled P s = Some (Inr h, s')" for s h s'
    using that by (auto simp: gil_release_def simp del: append_assoc split: if_splits)
  show "gil_given s' = gil_given s - (if h then {#()#} else {#})" if "gil_restore P h s = Some (r, s')" for h s r s'
    using that by (auto simp: gil_restore_def give_def split: if_splits)
qed

text \<open>The lock is back where it was after the scope, also when the body throws.\<close>

lemma gil_scope_balanced:
  assumes "in_scope (gil_release disabled P) (gil_restore P) body log = Some (r, log')"
    and "\<And>h. obeys (\<lambda>l l'. gil_given l' = gil_given l) (body h)"
  shows "gil_given log' = gil_given log"
  using gil.balanced[OF assms] .

section \<open>Streams of PyTorch\<close>

text \<open>
  The shims return an error code and a pointer; \<^verbatim>\<open>TORCH_ERROR_CODE_CHECK\<close> throws unless it is zero.
  The wrappers of \<^verbatim>\<open>device\<close> take 32-bit indices.
\<close>

datatype torch_call =
    Get_current_stream "32 word"
  | Get_stream_from_pool bool "32 word"
  | Create_guard "64 word" "32 word"
  | Delete_guard "64 word"

type_synonym torch = "(torch_call, int \<times> 64 word) responder"

type_synonym torch_log = "torch_call list"

definition torch_check :: "torch \<Rightarrow> torch_call \<Rightarrow> (torch_log, 64 word) stateful" where
  "torch_check T c log =
     (case T log c of (code, p) \<Rightarrow>
        Some (if code \<noteq> 0 then Inl (Std_exception ''API call failed'') else Inr p, log @ [c]))"

definition get_current_cuda_stream :: "torch \<Rightarrow> 32 word \<Rightarrow> (torch_log, 64 word) stateful" where
  "get_current_cuda_stream T device_index = torch_check T (Get_current_stream device_index)"

definition get_stream_from_pool :: "torch \<Rightarrow> 32 word \<Rightarrow> (torch_log, 64 word) stateful" where
  "get_stream_from_pool T device_index = torch_check T (Get_stream_from_pool False device_index)"

definition make_stream_guard :: "torch \<Rightarrow> 64 word \<Rightarrow> 32 word \<Rightarrow> (torch_log, 64 word) stateful" where
  "make_stream_guard T stream device_index = torch_check T (Create_guard stream device_index)"

definition delete_stream_guard :: "torch \<Rightarrow> 64 word \<Rightarrow> (torch_log, unit) stateful" where
  "delete_stream_guard T guard log = Some (Inr (), if guard \<noteq> 0 then log @ [Delete_guard guard] else log)"

text \<open>The guards that were created and not deleted, of those that are not null.\<close>

definition guards_held :: "torch \<Rightarrow> torch_log \<Rightarrow> 64 word multiset" where
  "guards_held T = gather (\<lambda>pre c m. case c of
     Create_guard s d \<Rightarrow> (case T pre c of (code, g) \<Rightarrow> if code = 0 \<and> g \<noteq> 0 then add_mset g m else m)
   | Delete_guard g \<Rightarrow> m - {#g#}
   | _ \<Rightarrow> m) {#}"

interpretation stream: scope_guard "make_stream_guard T stream device" "delete_stream_guard T" "guards_held T"
    "\<lambda>g. if g = 0 then {#} else {#g#}"
  for T stream device
proof
  show "guards_held T s' = guards_held T s" if "make_stream_guard T stream device s = Some (Inl x, s')" for s x s'
    using that by (auto simp: make_stream_guard_def torch_check_def guards_held_def split: prod.splits if_splits)
  show "guards_held T s' = guards_held T s + (if h = 0 then {#} else {#h#})"
    if "make_stream_guard T stream device s = Some (Inr h, s')" for s h s'
    using that by (auto simp: make_stream_guard_def torch_check_def guards_held_def split: prod.splits if_splits)
  show "guards_held T s' = guards_held T s - (if h = 0 then {#} else {#h#})"
    if "delete_stream_guard T h s = Some (r, s')" for h s r s'
    using that by (auto simp: delete_stream_guard_def guards_held_def)
qed

text \<open>
  A scope with a guard deletes it exactly once on every way out, and its body only runs
  when the guard was created.
\<close>

lemma stream_scope_balanced:
  assumes "in_scope (make_stream_guard T stream device) (delete_stream_guard T) body log = Some (r, log')"
    and "\<And>g. obeys (\<lambda>l l'. guards_held T l' = guards_held T l) (body g)"
  shows "guards_held T log' = guards_held T log"
  using stream.balanced[OF assms] .

lemma stream_scope_guarded:
  assumes "in_scope (make_stream_guard T stream device) (delete_stream_guard T) body log = Some (r, log')"
    and "fst (T log (Create_guard stream device)) \<noteq> 0"
  shows "r = Inl (Std_exception ''API call failed'')" "log' = log @ [Create_guard stream device]"
  using stream.held_inside[OF assms(1)] assms(2)
  by (auto simp: make_stream_guard_def torch_check_def split: prod.splits)

end
