(* ===== verification/Runtime_States.thy ===== *)
theory Runtime_States
  imports Cuda_Backend Ascend_Backend State_Order
begin

text \<open>
  A runtime over its life: the operations that change it as a step relation, between which
  other processes change the file system, and what every reachable runtime satisfies.
\<close>

section \<open>The counts of the timeouts\<close>

definition counts_ok :: "disk_cache \<Rightarrow> bool" where
  "counts_ok dc \<longleftrightarrow> paths dc \<noteq> [] \<and> length (num_timeouts dc) = length (paths dc)"

lemma entry_counts:
  assumes "entry e thr F uuid dc tag digest first_root w = Some (r, dc', w')"
  shows "paths dc' = paths dc \<and> length (num_timeouts dc') = length (num_timeouts dc)"
proof -
  have d: "distinct [first_root..<length (paths dc)]" by simp
  from assms show ?thesis
  proof (cases rule: entry_cases)
    case (thrown x nt)
    with lookup_roots_spec[OF thrown(1) d] show ?thesis by simp
  next
    case (hit i fl nt)
    with lookup_roots_spec[OF hit(1) d] show ?thesis by simp
  next
    case (created fl nt w1 nt')
    with lookup_roots_spec[OF created(1) d] create_in_roots_spec[OF created(2) d] show ?thesis by simp
  qed simp
qed

lemma keep_counts [simp]:
  "num_timeouts (keep_paths dc dc1) = num_timeouts dc1"
  "length (num_timeouts (report_to en x dc)) = length (num_timeouts dc)"
  by (simp_all add: keep_paths_def report_to_def report_error_def)

text \<open>One count for each root: the loop keeps it that way when its attempts do.\<close>

locale counted_attempts =
  fixes attempt :: "('v, 's) attempt"
  assumes counts_kept: "attempt en dc s w = Some (r, en', dc', s', w') \<Longrightarrow> length (num_timeouts dc') = length (num_timeouts dc)"
begin

lemma loop_counts:
  "root_loop e thr F depth uuid attempt tag key first_root dc s w = Some (r, dc', s', w') \<Longrightarrow>
   paths dc' = paths dc \<and> length (num_timeouts dc') = length (num_timeouts dc)"
proof (induction "length (paths dc) - first_root" arbitrary: first_root dc s w rule: less_induct)
  case less
  from less.prems show ?case
  proof (cases rule: root_loop_cases)
    case (no_entry x)
    from entry_counts[OF no_entry(1)] show ?thesis .
  next
    case (finished en dc1 w1 v en2 dc2 w2)
    with entry_counts[OF finished(1)] counts_kept[OF finished(2)] show ?thesis by simp
  next
    case (stopped en dc1 w1 x en2 dc2 w2 y)
    with entry_counts[OF stopped(1)] counts_kept[OF stopped(2)] show ?thesis by simp
  next
    case (last en dc1 w1 x en2 dc2 w2)
    with entry_counts[OF last(1)] counts_kept[OF last(2)] show ?thesis by simp
  next
    case (again en dc1 w1 x en2 dc2 s2 w2 w3)
    note range = entry_root_range[OF again(1)]
    with again(4) have "length (paths (report_to en x (keep_paths dc1 dc2))) - Suc (root_index en) < length (paths dc) - first_root"
      by (simp add: diff_less_mono2 le_less_trans[OF _ lessI])
    from less.hyps[OF this again(6)] entry_counts[OF again(1)] counts_kept[OF again(2)] show ?thesis by simp
  qed
qed

end

section \<open>The loads of the two backends keep the counts\<close>

definition same_roots :: "disk_cache \<Rightarrow> disk_cache \<Rightarrow> bool" where
  "same_roots dc dc' \<longleftrightarrow> paths dc' = paths dc \<and> length (num_timeouts dc') = length (num_timeouts dc)"

lemma same_roots_refl [simp]: "same_roots dc dc"
  by (simp add: same_roots_def)

lemma same_roots_trans: "same_roots a b \<Longrightarrow> same_roots b c \<Longrightarrow> same_roots a c"
  by (simp add: same_roots_def)

locale tame_load =
  fixes load :: "('v, 's) loader"
  assumes roots_kept: "load p dc s w = Some (r, dc', s', w') \<Longrightarrow> same_roots dc dc'"
begin

lemma try_entry_roots:
  "try_entry e thr F depth compile_to load en dc s w = Some (r, en', dc', s', w') \<Longrightarrow> same_roots dc dc'"
  by (auto simp: try_entry_def split: option.splits sum.splits prod.splits dest: roots_kept)

end

sublocale tame_load \<subseteq> entries: counted_attempts "try_entry e thr F depth compile_to load" for e thr F depth compile_to
  by unfold_locales (auto dest: try_entry_roots simp: same_roots_def)

interpretation given: tame_load give_path
  by unfold_locales (simp add: give_path_def)

interpretation cuda_loads: tame_load "cuda_load cx env" for cx env
  by unfold_locales (auto simp: cuda_load_def split: option.splits prod.splits)

interpretation loader_attempts: counted_attempts "loader_attempt X compiler" for X compiler
  by unfold_locales (auto simp: loader_attempt_def split: if_splits option.splits sum.splits prod.splits)

definition npu_roots :: "npu \<Rightarrow> npu \<Rightarrow> bool" where
  "npu_roots s s' \<longleftrightarrow> same_roots (cache s) (cache s')"

interpretation npu: state_order npu_roots
  by unfold_locales (auto simp: npu_roots_def intro: same_roots_trans)

lemma obeys_ask: "obeys npu_roots (host_ask X c)"
  by (auto simp: obeys_def npu_roots_def elim: host_ask_cases)

lemma obeys_acl: "obeys npu_roots (acl_checked X c ex)"
  unfolding acl_checked_def by (intro npu.obeys_rules obeys_ask)

lemma obeys_disk: "obeys npu_roots (on_disk m)"
  by (auto simp: obeys_def on_disk_def npu_roots_def)

lemma obeys_boot: "obeys npu_roots (on_boot f)"
  by (simp add: obeys_def npu_roots_def)

lemmas host_obeys = npu.obeys_rules obeys_ask obeys_acl obeys_disk obeys_boot

lemma obeys_release_image: "obeys npu_roots (release_image X im)"
  unfolding release_image_def by (intro host_obeys)

lemma obeys_make_image: "obeys npu_roots (make_image X p)"
  unfolding make_image_def pin_image_def fill_image_def point_image_def by (intro host_obeys obeys_release_image)

lemma obeys_run_request: "obeys npu_roots (run_request X rq)"
  unfolding run_request_def Let_def by (rule npu.obeys_state) (intro host_obeys)

lemma obeys_execute: "obeys npu_roots (execute X rq)"
proof -
  have "obeys npu_roots (bind_io (run_request X rq) (\<lambda>res.
        let res = res\<lparr>res_message := take 255 (res_message res) @ [nul]\<rparr>
        in bind_io (give (dj_host_assert (res_status res = 0) (loader_error_text res))) (\<lambda>_. give (Inr res))))"
    by (intro host_obeys obeys_run_request)
  then show ?thesis by (auto simp: obeys_def execute_def npu_roots_def)
qed

lemma obeys_boot_load: "obeys npu_roots (boot_load X p symbol)"
  unfolding boot_load_def by (intro host_obeys obeys_make_image obeys_release_image obeys_execute)

lemma obeys_boot_unload: "obeys npu_roots (boot_unload X m)"
  unfolding boot_unload_def by (intro host_obeys obeys_execute)

lemma obeys_npu_unload: "obeys npu_roots (npu_unload X k)"
  unfolding npu_unload_def by (intro host_obeys obeys_boot_unload)

lemma obeys_names: "obeys npu_roots (names_of data)"
  by (auto simp: obeys_def names_of_def npu_roots_def)

lemma obeys_load_aicpu: "obeys npu_roots (load_aicpu X booted p name)"
proof -
  have "obeys npu_roots (\<lambda>s. Some (Inr \<lparr>nk_aicpu = True, nk_module = m, nk_binary = 0, nk_function = loader_handle (boot s)\<rparr>, s))" for m
    by (simp add: obeys_def npu_roots_def)
  then show ?thesis unfolding load_aicpu_def by (intro host_obeys obeys_boot_load)
qed

lemma obeys_npu_load: "obeys npu_roots (npu_load X env booted dir)"
  unfolding npu_load_def the_kernel_name_def load_aicore_def
  by (intro host_obeys obeys_names obeys_load_aicpu obeys_npu_unload)

lemma obeys_build_loader: "obeys npu_roots (build_loader X cann)"
  unfolding build_loader_def
  by (intro host_obeys) (auto simp: obeys_def npu_roots_def same_roots_def dest!: loader_attempts.loop_counts)

lemma obeys_try_release: "obeys npu_roots (try_release X field c)"
proof -
  have "obeys npu_roots (swallow_io (bind_io (host_ask X c') (\<lambda>_. give (Inr ()))) :: (npu, unit) stateful)" for c'
    by (intro host_obeys)
  then show ?thesis by (auto simp: obeys_def try_release_def npu_roots_def)
qed

lemma obeys_release_bootstrap: "obeys npu_roots (release_bootstrap X)"
proof -
  have remove: "obeys npu_roots (\<lambda>s. if loader_handle (boot s) \<noteq> 0 \<and> loader_healthy (boot s)
      then swallow_io (bind_io (execute X rq) (\<lambda>_. give (Inr ()))) s else Some (Inr (), s))" for rq
    using obeysD[OF npu.obeys_swallow[OF npu.obeys_bind[OF obeys_execute npu.obeys_give]]]
    by (auto simp: obeys_def npu_roots_def)
  have dir: "obeys npu_roots (\<lambda>s. Some (Inr (), s\<lparr>disk := remove_dir X (directory (boot s)) (disk s)\<rparr>))"
    by (simp add: obeys_def npu_roots_def)
  show ?thesis unfolding release_bootstrap_def by (intro npu.obeys_bind remove dir obeys_try_release)
qed

lemma obeys_register_loader: "obeys npu_roots (register_loader X)"
  unfolding register_loader_def by (rule npu.obeys_state) (intro host_obeys)

lemma obeys_init_bootstrap: "obeys npu_roots (init_bootstrap X cann device)"
proof -
  have deploy: "obeys npu_roots (\<lambda>s. bind_io (on_disk (deploy_loader X cann (directory (boot s)) loader device)) (\<lambda>_. register_loader X) s)"
    for loader
    by (rule npu.obeys_state) (intro host_obeys obeys_register_loader)
  show ?thesis unfolding init_bootstrap_def by (intro host_obeys obeys_build_loader deploy)
qed

lemma obeys_make_bootstrap: "obeys npu_roots (make_bootstrap X cann)"
proof -
  have "obeys npu_roots (\<lambda>s. case make_temp X (disk s) of
      (None, w) \<Rightarrow> Some (Inl x, s\<lparr>disk := w\<rparr>)
    | (Some dir, w) \<Rightarrow> cleanup_io (init_bootstrap X cann device) (release_bootstrap X) (s\<lparr>disk := w, boot := new_bootstrap dir\<rparr>))"
    for x device
    using obeysD[OF npu.obeys_cleanup[OF obeys_init_bootstrap obeys_release_bootstrap]]
    by (auto simp: obeys_def npu_roots_def split: option.splits prod.splits) fastforce+
  then show ?thesis unfolding make_bootstrap_def by (intro host_obeys)
qed

lemma obeys_ensure_bootstrap: "obeys npu_roots (ensure_bootstrap X c booted dir)"
  unfolding ensure_bootstrap_def by (intro host_obeys obeys_make_bootstrap)

interpretation ascend_loads: tame_load "ascend_load X c env" for X c env
proof
  fix p dc w r dc' w' and st st' :: ascend_state
  let ?s = "\<lparr>host_log = as_log st, disk = w, cache = dc, boot = (case as_boot st of Some b \<Rightarrow> b | None \<Rightarrow> new_bootstrap [])\<rparr>"
  assume "ascend_load X c env p dc st w = Some (r, dc', st', w')"
  then obtain q s1 where "ensure_bootstrap X c (as_boot st \<noteq> None) p ?s = Some (q, s1)" and
    "dc' = cache s1 \<or> (\<exists>b r2 s2. npu_load X env b p s1 = Some (r2, s2) \<and> dc' = cache s2)"
    unfolding ascend_load_def Let_def by (auto split: option.splits sum.splits prod.splits)
  with obeysD[OF obeys_ensure_bootstrap] obeysD[OF obeys_npu_load] show "same_roots dc dc'"
    by (fastforce simp: npu_roots_def intro: same_roots_trans)
qed

section \<open>Reachable runtimes\<close>

text \<open>
  What holds of a runtime that was made from the configuration \<open>cfg\<close> and the environment \<open>e\<close>:
  its members are those of the constructor, the disk cache has a root and one count of
  timeouts for each root, the base of the cache keys is the chain over the signature and the
  compiler, the keys of the in-memory cache are digests, and a dry run has sound queues and
  loads nothing.
\<close>

definition runtime_ok ::
  "('o, 'l, 'b, 's, 'k, 'a, 'c) backend \<Rightarrow> environ \<Rightarrow> config \<Rightarrow> ('o, 'l, 'b, 'k) runtime \<Rightarrow> bool" where
  "runtime_ok B e cfg rt \<longleftrightarrow>
     rt_config rt = cfg \<and> make_env (cfg_env_prefix cfg) e = Inr (rt_env rt) \<and>
     p_include_dirs (rt_parser rt) = include_dirs cfg \<and> p_include_prefixes (rt_parser rt) = include_prefixes cfg \<and>
     rt_hash_base rt = foldl update fnv_new [extra_signature cfg, compiler_hash B (rt_backend rt)] \<and>
     counts_ok (rt_disk_cache rt) \<and>
     (\<forall>key. rt_mem_cache rt key \<noteq> None \<longrightarrow> length key = 32) \<and>
     (\<forall>p. rt_precompiler rt = Some p \<longrightarrow> pre_inv p \<and> workers p \<noteq> [] \<and> rt_mem_cache rt = Map.empty)"

text \<open>
  One step of a process that holds the runtime: a call of each of the public operations
  that change it, a step of the pool of a dry run, or other processes changing the world.
\<close>

type_synonym ('o, 'l, 'b, 'k, 's) run_state = "('o, 'l, 'b, 'k) runtime \<times> 's \<times> world"

inductive rt_step ::
  "('o, 'l, 'b, 's, 'k, 'a, 'c) backend \<Rightarrow> ('o, 'l, 'b, 'k, 's) run_state \<Rightarrow> ('o, 'l, 'b, 'k, 's) run_state \<Rightarrow> bool" for B where
  Compile: "rt_compile B os oom name source ov rt s w = Some (r, rt', s', w') \<Longrightarrow> rt_step B (rt, s, w) (rt', s', w')"
| Compile_only: "compile_without_load B os name source ov rt s w = Some (r, rt', s', w') \<Longrightarrow> rt_step B (rt, s, w) (rt', s', w')"
| Compile_keyed: "compile_with_key B os name source key opts rt s w = Some (r, rt', s', w') \<Longrightarrow> rt_step B (rt, s, w) (rt', s', w')"
| Pool: "rt_precompiler rt = Some p \<Longrightarrow> pre_step p p' \<Longrightarrow> rt_step B (rt, s, w) (rt\<lparr>rt_precompiler := Some p'\<rparr>, s, w)"
| Others: "rt_step B (rt, s, w) (rt, s', w')"

text \<open>What a step keeps: the constant members, the roots, the mode, and every kernel that was loaded.\<close>

definition rt_kept :: "('o, 'l, 'b, 'k) runtime \<Rightarrow> ('o, 'l, 'b, 'k) runtime \<Rightarrow> bool" where
  "rt_kept rt rt' \<longleftrightarrow>
     rt_config rt' = rt_config rt \<and> rt_env rt' = rt_env rt \<and> rt_default_options rt' = rt_default_options rt \<and>
     rt_default_launch rt' = rt_default_launch rt \<and> rt_backend rt' = rt_backend rt \<and> rt_parser rt' = rt_parser rt \<and>
     rt_hash_base rt' = rt_hash_base rt \<and> paths (rt_disk_cache rt') = paths (rt_disk_cache rt) \<and>
     (rt_precompiler rt' = None \<longleftrightarrow> rt_precompiler rt = None) \<and> rt_mem_cache rt \<subseteq>\<^sub>m rt_mem_cache rt'"

interpretation kept: state_order rt_kept
  by unfold_locales (auto simp: rt_kept_def intro: map_le_trans)

text \<open>What the runtime relies on in a backend: its loads keep the number of counts.\<close>

locale tame_backend =
  fixes B :: "('o, 'l, 'b, 's, 'k, 'a, 'c) backend"
  assumes load_roots: "load_dir B b env p dc s w = Some (r, dc', s', w') \<Longrightarrow> same_roots dc dc'"
begin

lemma loads_tame: "tame_load (load_dir B b env)"
  by unfold_locales (rule load_roots)

end

sublocale tame_backend \<subseteq> loads: tame_load "load_dir B b env" for b env
  by (rule loads_tame)

lemma make_runtime_ok:
  assumes "make_runtime B cwd files num_cpus can_start e cfg w = Some (Inr rt, w')"
  shows "runtime_ok B e cfg rt"
proof -
  from assms obtain env dc pre where made: "make_env (cfg_env_prefix cfg) e = Inr env" "disk_cache_from_env cwd env = Inr dc"
      "dry_run env num_cpus can_start = Inr pre" and rt: "rt_config rt = cfg" "rt_env rt = env" "rt_disk_cache rt = dc"
      "rt_precompiler rt = pre" "rt_mem_cache rt = Map.empty" "p_include_dirs (rt_parser rt) = include_dirs cfg"
      "p_include_prefixes (rt_parser rt) = include_prefixes cfg"
    unfolding make_runtime_def by (elim bind_io_Inr) auto
  from made(2) have "counts_ok dc"
    by (auto simp: disk_cache_from_env_def make_disk_cache_def result_simps dj_host_assert_def counts_ok_def split: if_splits)
  moreover have "pre_inv p \<and> workers p \<noteq> []" if "pre = Some p" for p
    using made(3) that
    by (auto simp: dry_run_def result_simps make_precompiler_def pre_inv_def runs_def num_busy_def split: if_splits)
  ultimately show ?thesis using rt made(1) make_runtime_base[OF assms] by (auto simp: runtime_ok_def)
qed

lemma cache_key_length:
  "cache_key B os rt source opts s = Some (Inr key, ps, s') \<Longrightarrow> length key = 32"
  by (auto simp: cache_key_def split: sum.splits prod.splits option.splits)

text \<open>A call of an operation, in terms of the members that it changes.\<close>

lemma compile_with_key_changes:
  assumes "compile_with_key B os name source key opts rt s w = Some (r, rt', s', w')"
  shows "\<exists>dc. rt' = rt\<lparr>rt_disk_cache := dc\<rparr> \<and> same_roots (rt_disk_cache rt) dc"
  using assms given.entries.loop_counts
  by (fastforce simp: compile_with_key_def run_compile_def compile_impl_def same_roots_def)

lemma compile_without_load_changes:
  assumes "compile_without_load B os name source ov rt s w = Some (r, rt', s', w')"
  shows "\<exists>ps dc. rt' = rt\<lparr>rt_parser_state := ps, rt_disk_cache := dc\<rparr> \<and> same_roots (rt_disk_cache rt) dc"
proof -
  from assms obtain ps where
    "rt' = rt\<lparr>rt_parser_state := ps\<rparr> \<or>
     (\<exists>key opts s1. compile_with_key B os name source key opts (rt\<lparr>rt_parser_state := ps\<rparr>) s1 w = Some (r, rt', s', w'))"
    by (auto simp: compile_without_load_def Let_def split: option.splits sum.splits prod.splits)
  then show ?thesis
  proof
    assume "rt' = rt\<lparr>rt_parser_state := ps\<rparr>"
    then have "rt' = rt\<lparr>rt_parser_state := ps, rt_disk_cache := rt_disk_cache rt\<rparr>" by simp
    then show ?thesis by fastforce
  next
    assume "\<exists>key opts s1. compile_with_key B os name source key opts (rt\<lparr>rt_parser_state := ps\<rparr>) s1 w = Some (r, rt', s', w')"
    then obtain dc where "rt' = rt\<lparr>rt_parser_state := ps, rt_disk_cache := dc\<rparr>" "same_roots (rt_disk_cache rt) dc"
      by (auto dest!: compile_with_key_changes)
    then show ?thesis by blast
  qed
qed

context tame_backend
begin

lemma rt_compile_changes:
  assumes "rt_compile B os oom name source ov rt s w = Some (r, rt', s', w')"
  obtains ps where "rt' = rt\<lparr>rt_parser_state := ps\<rparr>"
  | ps p p' where "rt_precompiler rt = Some p" "pre_step p p'" "rt' = rt\<lparr>rt_parser_state := ps, rt_precompiler := Some p'\<rparr>"
  | ps mc dc key where "rt_precompiler rt = None" "rt' = rt\<lparr>rt_parser_state := ps, rt_mem_cache := mc, rt_disk_cache := dc\<rparr>"
      "same_roots (rt_disk_cache rt) dc" "length key = 32" "rt_mem_cache rt \<subseteq>\<^sub>m mc" "dom mc \<subseteq> insert key (dom (rt_mem_cache rt))"
proof -
  let ?opts = "merge_options B (rt_default_options rt) ov"
  obtain q ps s1 where key: "cache_key B os rt source ?opts s = Some (q, ps, s1)"
    using assms by (auto simp: rt_compile_def Let_def split: option.splits)
  show ?thesis
  proof (cases q)
    case (Inl x)
    with assms key that(1) show ?thesis by (auto simp: rt_compile_def Let_def)
  next
    case (Inr k)
    show ?thesis
    proof (cases "rt_precompiler rt")
      case (Some p)
      obtain e p' where enq: "enqueue oom (name @ ''.'' @ k) p = (e, p')" by fastforce
      with assms key Inr Some have "rt' = rt\<lparr>rt_parser_state := ps, rt_precompiler := Some p'\<rparr>"
        by (auto simp: rt_compile_def Let_def)
      with that(2)[OF Some _ this] pre_step.Enqueue[of p oom "name @ ''.'' @ k"] enq show ?thesis by simp
    next
      case None
      from assms key Inr None obtain q2 mc dc where
        goc: "get_or_create k (run_compile B os rt (load_dir B (rt_backend rt) (rt_env rt)) name source k ?opts)
          (rt_mem_cache rt) (rt_disk_cache rt, s1, w) = Some (q2, mc, dc, s', w')"
        and rt': "rt' = rt\<lparr>rt_parser_state := ps, rt_mem_cache := mc, rt_disk_cache := dc\<rparr>"
        by (auto simp: rt_compile_def Let_def split: option.splits)
      have run: "same_roots (rt_disk_cache rt) dc"
        if "run_compile B os rt (load_dir B (rt_backend rt) (rt_env rt)) name source k ?opts (rt_disk_cache rt, s1, w) =
          Some (q3, dc, s', w')" for q3
        using that loads.entries.loop_counts by (fastforce simp: run_compile_def compile_impl_def same_roots_def)
      from goc have "same_roots (rt_disk_cache rt) dc \<and> rt_mem_cache rt \<subseteq>\<^sub>m mc \<and> dom mc \<subseteq> insert k (dom (rt_mem_cache rt))"
        by (cases rule: get_or_create_cases) (auto simp: map_le_def dest: run)
      with that(3)[OF None rt'] cache_key_length[OF key[unfolded Inr]] show ?thesis by blast
    qed
  qed
qed

lemma rt_step_ok:
  assumes "rt_step B (rt, s, w) (rt', s', w')" and "runtime_ok B e cfg rt"
  shows "runtime_ok B e cfg rt' \<and> rt_kept rt rt'"
  using assms(1)
proof cases
  case (Compile os oom name source ov r)
  from Compile show ?thesis
  proof (cases rule: rt_compile_changes)
    case (2 ps p p')
    with assms(2) pre_step_inv[of p p'] pre_step_workers[of p p'] show ?thesis by (auto simp: runtime_ok_def rt_kept_def)
  next
    case (3 ps mc dc key)
    with assms(2) show ?thesis by (fastforce simp: runtime_ok_def rt_kept_def same_roots_def counts_ok_def)
  qed (use assms(2) in \<open>auto simp: runtime_ok_def rt_kept_def\<close>)
next
  case Compile_only
  with assms(2) show ?thesis
    by (auto simp: runtime_ok_def rt_kept_def same_roots_def counts_ok_def dest!: compile_without_load_changes)
next
  case Compile_keyed
  with assms(2) show ?thesis
    by (auto simp: runtime_ok_def rt_kept_def same_roots_def counts_ok_def dest!: compile_with_key_changes)
next
  case (Pool p p')
  with assms(2) pre_step_inv[of p p'] pre_step_workers[of p p'] show ?thesis by (auto simp: runtime_ok_def rt_kept_def)
qed (use assms(2) kept.refl in auto)

lemma rt_steps_ok:
  assumes "(rt_step B)\<^sup>*\<^sup>* (rt, s, w) (rt', s', w')" and "runtime_ok B e cfg rt"
  shows "runtime_ok B e cfg rt' \<and> rt_kept rt rt'"
  using assms
proof (induction "(rt', s', w')" arbitrary: rt' s' w' rule: rtranclp_induct)
  case base
  then show ?case using kept.refl by simp
next
  case (step st)
  obtain rt1 s1 w1 where st: "st = (rt1, s1, w1)" by (cases st)
  from step(3)[OF st step(4)] rt_step_ok[OF step(2)[unfolded st]] show ?case by (blast intro: kept.trans)
qed

end

interpretation cuda: tame_backend "cuda_backend cx" for cx
  by unfold_locales (auto simp: cuda_backend_def dest: cuda_loads.roots_kept)

interpretation ascend: tame_backend "ascend_backend X acl current_stream" for X acl current_stream
  by unfold_locales (auto simp: ascend_backend_def dest: ascend_loads.roots_kept)

section \<open>Properties\<close>

text \<open>C11: A runtime stays well formed: in every state that a CUDA runtime reaches from its
  construction, by calls of its operations, steps of the pool of a dry run and changes of the
  world by others, its members belong to its configuration and environment, the disk cache
  has a root and one count for each root, every kernel in memory is filed under a digest, a
  dry run has sound queues and loads nothing; and the constant members, the roots and the
  mode are those of the construction.\<close>

theorem runtime_stays_well_formed:
  assumes "make_runtime (cuda_backend cx) cwd files num_cpus can_start e cfg w = Some (Inr rt, w0)"
    and "(rt_step (cuda_backend cx))\<^sup>*\<^sup>* (rt, s, w0) (rt', s', w')"
  shows "runtime_ok (cuda_backend cx) e cfg rt' \<and> rt_kept rt rt'"
  by (rule cuda.rt_steps_ok[OF assms(2) make_runtime_ok[OF assms(1)]])

text \<open>The same of a runtime of the Ascend backend.\<close>

lemma ascend_runtime_well_formed:
  assumes "make_runtime (ascend_backend X acl current_stream) cwd files num_cpus can_start e cfg w = Some (Inr rt, w0)"
    and "(rt_step (ascend_backend X acl current_stream))\<^sup>*\<^sup>* (rt, s, w0) (rt', s', w')"
  shows "runtime_ok (ascend_backend X acl current_stream) e cfg rt' \<and> rt_kept rt rt'"
  by (rule ascend.rt_steps_ok[OF assms(2) make_runtime_ok[OF assms(1)]])

section \<open>A runtime that is made\<close>

definition home_environ :: environ where
  "home_environ = [''HOME'' \<mapsto> ''/h'', ''CUDA_HOME'' \<mapsto> ''/c'']"

definition home_env :: env where
  "home_env = \<lparr>env_prefix = ''A'', environ = home_environ\<rparr>"

definition home_nvcc :: path where
  "home_nvcc = path_append (lexically_normal (absolute_path ''/'' ''/c'')) ''bin/nvcc''"

definition home_world :: world where
  "home_world = \<lparr>tree = [(resolve ''/'' home_nvcc, File 0x1ED ''x''), (resolve ''/'' ''/c'', Dir 0x1ED)], tick = 0\<rparr>"

definition home_context :: cuda_context where
  "home_context = demo_context\<lparr>cx_shell := (\<lambda>cmd w. (Inr ''release 13.0'', w))\<rparr>"

definition no_files :: snapshot where
  "no_files = \<lparr>path_exists = (\<lambda>_. False), open_read = Map.empty\<rparr>"

lemma here_exec: "exec F p w = (Returned v, w') \<Longrightarrow> here F p w = Some (Inr v, w')"
  by (simp add: here_def run_directly_def)

lemma here_exists:
  "here no_faults (exists_file p) w = Some (Inr (lookup (tree w) p \<noteq> None), w\<lparr>tick := Suc (tick w)\<rparr>)"
  by (rule here_exec, cases w) (simp add: exists_file_def on_node_def)

lemma here_executable:
  "here no_faults (is_executable p) w =
     Some (Inr (case lookup (tree w) p of Some (File m d) \<Rightarrow> Bit_Operations.and m 0x49 \<noteq> 0 | _ \<Rightarrow> False),
       w\<lparr>tick := (case lookup (tree w) p of Some (File m d) \<Rightarrow> Suc (Suc (tick w)) | _ \<Rightarrow> Suc (tick w))\<rparr>)"
  by (rule here_exec, cases w) (simp add: is_executable_def is_regular_file_def on_node_def split: option.split node.split)

lemma home_envs:
  "get_env_string home_environ ''CUDA_HOME'' = Inr ''/c''" "env_string home_env ''JIT_NVCC_COMPILER'' = Inr None"
  "env_string home_env ''JIT_CACHE_DIR'' = Inr None" "get_env_string (environ home_env) ''HOME'' = Inr ''/h''"
  "dry_run home_env 8 c = Inr None" "make_env (cfg_env_prefix demo_config) home_environ = Inr home_env"
  by (code_simp, code_simp, code_simp, code_simp, code_simp) (simp add: make_env_def demo_config_def home_env_def)

lemma home_version: "check_version ''release 13.0'' = Inr ()"
  by (simp add: check_version_def version_here_def is_digit_def stoi_def Let_def numeral_2_eq_2[symmetric] read_nat_def digit_val_def)

lemmas path_eval = resolve_def absolute_path_def path_append_def is_absolute_def path_names_def norm_names_def
  norm_step_def lexically_normal_def path_text_def has_filename_def slash_def

lemma home_split: "split_on CHR ''/'' ''/c'' = [[], ''c'']" "split_on CHR ''/'' ''/c/bin/nvcc'' = [[], ''c'', ''bin'', ''nvcc'']"
  using split_on_append[of "CHR ''/''" "[]" "''c''"] split_on_append[of "CHR ''/''" "[]" "''c/bin/nvcc''"]
    split_on_append[of "CHR ''/''" "''c''" "''bin/nvcc''"] split_on_append[of "CHR ''/''" "''bin''" "''nvcc''"] by simp_all

lemma home_paths: "resolve ''/'' ''/c'' = [''c'']" "resolve ''/'' home_nvcc = [''c'', ''bin'', ''nvcc'']"
proof -
  have "join [''c''] ''/'' = ''c''" by code_simp
  then have nvcc: "home_nvcc = ''/c/bin/nvcc''" by (simp add: path_eval home_split home_nvcc_def)
  show "resolve ''/'' home_nvcc = [''c'', ''bin'', ''nvcc'']" by (simp add: nvcc path_eval home_split)
qed (simp add: path_eval home_split)

lemma home_lookup:
  "lookup (tree (home_world\<lparr>tick := n\<rparr>)) (resolve ''/'' ''/c'') = Some (Dir 0x1ED)"
  "lookup (tree (home_world\<lparr>tick := n\<rparr>)) (resolve ''/'' home_nvcc) = Some (File 0x1ED ''x'')"
  by (simp_all add: lookup_def home_world_def home_paths)

lemma home_cuda: "\<exists>b w. make_cuda (cx_shell home_context) no_faults ''/'' home_env home_world = Some (Inr b, w)"
proof -
  have nvcc: "path_append (lexically_normal (absolute_path ''/'' ''/c'')) ''bin/nvcc'' = home_nvcc" by (simp add: home_nvcc_def)
  have "find_cuda_home (cx_shell home_context) no_faults ''/'' home_environ (home_world\<lparr>tick := 0\<rparr>) =
      Some (Inr (lexically_normal (absolute_path ''/'' ''/c'')), home_world\<lparr>tick := 1\<rparr>)"
    unfolding find_cuda_home_def
    by (simp add: bind_io_def give_def home_envs(1) here_exists dj_host_assert_def home_lookup[simplified])
  then have "\<exists>tk w. find_cuda_toolkit (cx_shell home_context) no_faults ''/'' home_env (home_world\<lparr>tick := 0\<rparr>) = Some (Inr tk, w)"
    unfolding find_cuda_toolkit_def
    by (simp add: home_env_def bind_io_def give_def home_envs(2)[unfolded home_env_def] here_executable nvcc
        dj_host_assert_def home_lookup[simplified] Let_def)
  moreover have "home_world\<lparr>tick := 0\<rparr> = home_world" by (simp add: home_world_def)
  ultimately obtain tk w where "find_cuda_toolkit (cx_shell home_context) no_faults ''/'' home_env home_world = Some (Inr tk, w)" by auto
  then show ?thesis
    unfolding make_cuda_def by (simp add: bind_io_def get_compiler_info_def run_command_def home_context_def home_version give_def)
qed

lemma home_options: "\<exists>opts. fst (default_options home_env (cx_runtime home_context) new_cuda_device) = Inr opts"
proof -
  have "case fst (default_options home_env (cx_runtime home_context) new_cuda_device) of Inr _ \<Rightarrow> True | _ \<Rightarrow> False"
    by code_simp
  then show ?thesis by (auto split: sum.splits)
qed

lemma home_runtime:
  "\<exists>rt w. make_runtime (cuda_backend home_context) ''/'' no_files 8 (\<lambda>_. True) home_environ demo_config home_world = Some (Inr rt, w)"
proof -
  obtain b w1 where b: "make_cuda (cx_shell home_context) no_faults ''/'' home_env home_world = Some (Inr b, w1)"
    using home_cuda by blast
  obtain opts where "fst (default_options home_env (cx_runtime home_context) new_cuda_device) = Inr opts"
    using home_options by blast
  moreover have "cx_faults home_context = no_faults" "cx_cwd home_context = ''/''"
    by (simp_all add: home_context_def demo_context_def)
  moreover have "cache_roots home_env = Inr [path_append ''/h'' ''.dj'']"
    using home_envs(3,4) by (simp add: cache_roots_def dj_host_assert_def)
  then have "\<exists>dc. disk_cache_from_env ''/'' home_env = Inr dc"
    by (simp add: disk_cache_from_env_def make_disk_cache_def dj_host_assert_def)
  ultimately show ?thesis using b by (auto simp: make_runtime_def home_envs bind_io_def give_def cuda_backend_def)
qed

theorem runtime_stays_well_formed_witness:
  "\<exists>rt w0. make_runtime (cuda_backend home_context) ''/'' no_files 8 (\<lambda>_. True) home_environ demo_config home_world = Some (Inr rt, w0) \<and>
     (\<exists>r rt'. compile_with_key (cuda_backend home_context) toy_os ''a.b'' [] ''00'' demo_options rt
        \<lparr>hook_digests = Map.empty, driver_calls = []\<rparr> w0 = Some (r, rt', \<lparr>hook_digests = Map.empty, driver_calls = []\<rparr>, w0) \<and>
      runtime_ok (cuda_backend home_context) home_environ demo_config rt')"
proof -
  let ?B = "cuda_backend home_context" and ?s = "\<lparr>hook_digests = Map.empty, driver_calls = []\<rparr> :: cuda_state"
  obtain rt w0 where made: "make_runtime ?B ''/'' no_files 8 (\<lambda>_. True) home_environ demo_config home_world = Some (Inr rt, w0)"
    using home_runtime by blast
  have "\<not> is_tag_char CHR ''.''" by code_simp
  then have "\<exists>r rt'. compile_with_key ?B toy_os ''a.b'' [] ''00'' demo_options rt ?s w0 = Some (r, rt', ?s, w0)"
    by (simp add: compile_with_key_def run_compile_def compile_impl_unfold entry_def check_tag_def dj_host_assert_def)
  then obtain r rt' where run: "compile_with_key ?B toy_os ''a.b'' [] ''00'' demo_options rt ?s w0 = Some (r, rt', ?s, w0)" by blast
  from runtime_stays_well_formed[OF made r_into_rtranclp[of "rt_step ?B", OF Compile_keyed[OF run]]] made run show ?thesis by blast
qed

end
