(* ===== verification/Warmup.thy ===== *)
theory Warmup
  imports Runtime_States
begin

text \<open>
  The dry run as a whole: \<^verbatim>\<open>Runtime::compile\<close> queues jobs, the workers of the pool run
  \<^verbatim>\<open>compile_impl<false>\<close> for them while other processes work on the same cache, and the pool is
  drained at the end. What is shown: a dry run that ends without an error has published every
  kernel that was queued. A compilation is one step here; that the steps of different
  processes do not disturb each other is shown in Publication.
\<close>

section \<open>What keeps a file in place\<close>

definition stays :: "fpath \<Rightarrow> world \<Rightarrow> world \<Rightarrow> bool" where
  "stays m w w' \<longleftrightarrow> (lookup (tree w) m \<noteq> None \<longrightarrow> lookup (tree w') m \<noteq> None)"

interpretation staying: state_order "stays m" for m
  by unfold_locales (simp_all add: stays_def)

lemma stays_tree: "tree w' = tree w \<Longrightarrow> stays m w w'"
  by (simp add: stays_def)

lemma io_keeps:
  assumes "run_in_iothread e thr F p w = Some (r, w')" and "only P p" and "\<And>c. P c \<Longrightarrow> keeps I c" and "I (tree w)"
  shows "I (tree w')"
proof (cases r)
  case (Inl x)
  with assms(1) have "w' = w \<or> (\<exists>out. exec F p w = (out, w'))" by (auto dest: run_io_Inl)
  with exec_keeps[OF assms(2,3)] assms(4) show ?thesis by auto
next
  case (Inr v)
  with assms(1) have "exec F p w = (Returned v, w')" by (auto dest: run_io_Inr)
  from exec_keeps[OF assms(2,3) this assms(4)] show ?thesis .
qed

lemma io_stays:
  assumes "run_in_iothread e thr F p w = Some (r, w')" and "only P p"
    and "\<And>c. P c \<Longrightarrow> keeps (\<lambda>fs. lookup fs m \<noteq> None) c"
  shows "stays m w w'"
  using io_keeps[OF assms] by (simp add: stays_def)

text \<open>The calls of a commit from \<open>src\<close> to \<open>dst\<close>; a full directory is never replaced.\<close>

definition publishing :: "fpath \<Rightarrow> fpath \<Rightarrow> syscall \<Rightarrow> bool" where
  "publishing src dst c \<longleftrightarrow> keeps_names c \<or> removes_below src c \<or> c = Rename src dst"

lemma move_tree_stays:
  assumes "lookup fs m \<noteq> None" "\<not> prefix src m" "\<not> prefix dst m"
  shows "lookup (move_tree src dst fs) m \<noteq> None"
proof (cases "m = []")
  case False
  with assms(1) obtain n where "(m, n) \<in> set fs" by (auto simp: lookup_def dest: map_of_SomeD)
  with assms(3) have "(m, n) \<in> set (erase_tree dst fs)" by (simp add: erase_tree_def)
  with assms(2) have "m \<in> fst ` set (move_tree src dst fs)" by (force simp: move_tree_def)
  with False show ?thesis by (simp add: lookup_def map_of_eq_None_iff)
qed (simp add: lookup_def)

lemma rename_stays:
  assumes "\<not> prefix src m" "dst \<noteq> m"
  shows "keeps (\<lambda>fs. lookup fs m \<noteq> None) (Rename src dst)"
proof -
  have "lookup (move_tree src dst fs) m \<noteq> None" if "lookup fs m \<noteq> None" "\<not> has_below fs dst" for fs
  proof -
    have "\<not> prefix dst m"
    proof
      assume "prefix dst m"
      with assms(2) have "strict_prefix dst m" by (simp add: strict_prefix_def)
      moreover from this that(1) have "m \<in> set (map fst fs)"
        by (auto simp: lookup_def split: if_splits dest!: map_of_SomeD) force
      ultimately show False using that(2) by (auto simp: has_below_def)
    qed
    with move_tree_stays[OF that(1) assms(1)] show ?thesis by blast
  qed
  then show ?thesis by (auto simp: keeps_def on_node_def split: option.splits)
qed

lemma removal_stays:
  assumes "removes_below p c" "\<not> prefix p m"
  shows "keeps (\<lambda>fs. lookup fs m \<noteq> None) c"
  using removes_below_outside[OF assms] by (auto simp: keeps_def)

lemma publishing_stays:
  assumes "publishing src dst c" "\<not> prefix src m" "dst \<noteq> m"
  shows "keeps (\<lambda>fs. lookup fs m \<noteq> None) c"
  using assms(1) keeps_names_lookup rename_stays[OF assms(2,3)] removal_stays[OF _ assms(2)]
  by (auto simp: publishing_def)

lemma only_publish_task: "only (publishing src dst) (publish_task depth src dst sh)"
proof -
  have names: "only (publishing src dst) p" if "only keeps_names p" for p :: "'x prog"
    by (rule only_mono[OF that]) (simp add: publishing_def)
  have gone: "only (publishing src dst) (safe_remove_all depth src)"
    using only_mono[OF only_safe_remove_all[of src depth "[]"], of "publishing src dst"] by (simp add: publishing_def)
  have "only (publishing src dst) (publish_rename depth src dst)"
    using gone names[OF only_exists_file]
    by (auto simp: publish_rename_def publishing_def intro!: only_bind split: reply.split)
  with names[OF only_write_file_sync] names[OF only_fsync_dir] names[OF only_make_dirs] show ?thesis
    unfolding publish_task_def by (intro only_bind)
qed

lemma commit_stays:
  assumes "commit e thr F depth en w = Some (r, en', w')"
    and "hit en \<or> \<not> prefix (entry_path en) m \<and> commit_path en \<noteq> m"
  shows "stays m w w'"
proof (cases "hit en \<or> committed en")
  case False
  with assms(1) obtain q where "run_in_iothread e thr F (publish_task depth (entry_path en) (commit_path en) (shared en)) w = Some (q, w')"
    by (auto simp: commit_def split: option.splits sum.splits)
  moreover have "keeps (\<lambda>fs. lookup fs m \<noteq> None) c" if "publishing (entry_path en) (commit_path en) c" for c
    using publishing_stays[OF that] False assms(2) by blast
  ultimately show ?thesis by (rule io_stays[OF _ only_publish_task])
qed (use assms(1) in \<open>auto simp: commit_def intro: staying.refl\<close>)

lemma destroy_stays:
  assumes "destroy e thr F depth en w = Some w'" and "hit en \<or> \<not> prefix (entry_path en) m"
  shows "stays m w w'"
proof (cases "\<not> hit en \<and> \<not> committed en \<and> \<not> abandoned en")
  case True
  with assms(1) obtain q where "run_in_iothread e thr F (safe_remove_all depth (entry_path en)) w = Some (q, w')"
    by (auto simp: destroy_def)
  moreover have "keeps (\<lambda>fs. lookup fs m \<noteq> None) c" if "removes_below (entry_path en) c" for c
    using removal_stays[OF that] True assms(2) by blast
  ultimately show ?thesis by (rule io_stays[OF _ only_safe_remove_all[of "entry_path en" depth "[]", simplified]])
qed (use assms(1) in \<open>auto simp: destroy_def intro: staying.refl\<close>)

section \<open>The entries of the cache\<close>

definition mark :: "fpath \<Rightarrow> string \<Rightarrow> fpath" where
  "mark root name = entry_dir root name @ [kCommitFileName]"

text \<open>No root lies inside another one.\<close>

definition roots_apart :: "fpath list \<Rightarrow> bool" where
  "roots_apart roots \<longleftrightarrow> (\<forall>r \<in> set roots. \<forall>r' \<in> set roots. \<not> strict_prefix r r')"

lemma mark_apart:
  assumes "roots_apart roots" "r \<in> set roots" "r' \<in> set roots"
  shows "\<not> prefix (tmp_dir r u) (mark r' name) \<and> entry_dir r name' \<noteq> mark r' name"
proof -
  have same: "r = r'" if "prefix r p" "prefix r' p" for p
    using prefix_same_cases[OF that] assms by (auto simp: roots_apart_def strict_prefix_def)
  have mark: "mark r' name = r' @ [''cache'', name, kCommitFileName]" by (simp add: mark_def entry_dir_def)
  have "r = r'" if "prefix (tmp_dir r u) (mark r' name)"
    using that by (intro same[of "mark r' name"]) (auto simp: tmp_dir_def mark intro: append_prefixD)
  moreover have "r = r'" if "entry_dir r name' = mark r' name"
    using that by (intro same[of "mark r' name"]) (auto simp: mark entry_dir_def dest: sym)
  ultimately show ?thesis by (auto simp: mark tmp_dir_def entry_dir_def)
qed

lemma only_create_task: "only keeps_names (create_task root tmp)"
  using only_make_dirs by (auto simp: create_task_def Let_def intro!: only_bind split: reply.split option.split)

lemma create_in_roots_stays:
  "create_in_roots e thr F uuid roots name is fl nt w = Some (r, nt', w') \<Longrightarrow> stays m w w'"
proof (induction "is" arbitrary: nt w)
  case (Cons i "is" nt w)
  show ?case
  proof (cases "nt ! i \<ge> 3 \<or> i \<in> set fl")
    case False
    with Cons.prems obtain q w1 where q: "run_in_iothread e thr F (create_task (roots ! i) (tmp_dir (roots ! i) (uuid i))) w = Some (q, w1)"
      by (auto simp: Let_def split: option.splits)
    have task: "stays m w w1" using io_stays[OF q only_create_task keeps_names_lookup] .
    show ?thesis
    proof (cases q)
      case (Inl x)
      with Cons.prems False q have "w' = w1 \<or> create_in_roots e thr F uuid roots name is fl (report_error i x nt) w1 = Some (r, nt', w')"
        by (auto simp: Let_def split: sum.splits bool.splits)
      with Cons.IH task show ?thesis by (blast intro: staying.trans)
    qed (use Cons.prems False q task in \<open>simp add: Let_def\<close>)
  qed (use Cons in simp)
qed (simp add: staying.refl)

text \<open>An entry of this cache: published already, or a private directory of one of the roots.\<close>

definition own_entry :: "fpath list \<Rightarrow> disk_cache_entry \<Rightarrow> bool" where
  "own_entry roots en \<longleftrightarrow> hit en \<or>
     (\<exists>r \<in> set roots. \<exists>u name. entry_path en = tmp_dir r u \<and> commit_path en = entry_dir r name)"

lemma own_entry_apart:
  assumes "own_entry roots en" "roots_apart roots" "r \<in> set roots"
  shows "hit en \<or> \<not> prefix (entry_path en) (mark r name) \<and> commit_path en \<noteq> mark r name"
  using assms(1) mark_apart[OF assms(2) _ assms(3)] unfolding own_entry_def by metis

lemma entry_stays:
  assumes "entry e thr F uuid dc tag digest first_root w = Some (r, dc', w')"
  shows "stays m w w' \<and> paths dc' = paths dc \<and> (\<forall>en. r = Inr en \<longrightarrow> own_entry (paths dc) en)"
proof -
  have d: "distinct [first_root..<length (paths dc)]" by simp
  from assms show ?thesis
  proof (cases rule: entry_cases)
    case (thrown x nt)
    with lookup_roots_spec[OF thrown(1) d] show ?thesis by (simp add: stays_tree)
  next
    case (hit i fl nt)
    with lookup_roots_spec[OF hit(1) d] show ?thesis by (simp add: stays_tree own_entry_def new_entry_def)
  next
    case (created fl nt w1 nt')
    have "stays m w w'"
      using lookup_roots_spec[OF created(1) d] create_in_roots_stays[OF created(2)] by (auto intro: staying.trans stays_tree)
    moreover have "own_entry (paths dc) en" if "r = Inr en" for en
      using create_in_roots_spec[OF created(2) d] that by (fastforce simp: own_entry_def new_entry_def)
    ultimately show ?thesis using created(3) by simp
  qed (simp add: staying.refl)
qed

section \<open>A compilation that is not loaded\<close>

text \<open>A compiler that works in the directory it is given: no file outside is removed.\<close>

definition tidy :: "(fpath \<Rightarrow> world \<Rightarrow> unit io) \<Rightarrow> bool" where
  "tidy compile_to \<longleftrightarrow> (\<forall>p w r w' m. compile_to p w = Some (r, w') \<longrightarrow> \<not> prefix p m \<longrightarrow> stays m w w')"

lemma commit_own:
  assumes "commit e thr F depth en w = Some (r, en', w')" and "own_entry roots en"
  shows "own_entry roots en'"
proof -
  from assms(1) have "hit en' \<or> hit en' = hit en \<and> entry_path en' = entry_path en \<and> commit_path en' = commit_path en"
    by (auto simp: commit_def split: option.splits sum.splits if_splits)
  with assms(2) show ?thesis unfolding own_entry_def by metis
qed

lemma try_entry_give_cases:
  assumes "try_entry e thr F depth compile_to give_path en dc s w = Some (q, en', dc', s', w')"
  obtains "hit en" "en' = en" "w' = w"
  | x where "\<not> hit en" "compile_to (entry_path en) w = Some (Inl x, w')" "en' = en"
  | u w1 q2 where "\<not> hit en" "compile_to (entry_path en) w = Some (Inr u, w1)" "commit e thr F depth en w1 = Some (q2, en', w')"
proof -
  from assms obtain q0 where built: "build_entry e thr F depth compile_to en w = Some (q0, en', w')"
    by (cases "build_entry e thr F depth compile_to en w")
      (auto simp: try_entry_def give_path_def split: sum.splits)
  show ?thesis
  proof (cases "hit en")
    case False
    with built obtain q1 w1 where c: "compile_to (entry_path en) w = Some (q1, w1)"
      by (auto simp: build_entry_def split: option.splits)
    show ?thesis
    proof (cases q1)
      case (Inl x)
      with built False c have "en' = en \<and> w' = w1" by (simp add: build_entry_def)
      with that(2)[OF False] c Inl show ?thesis by blast
    next
      case (Inr u)
      note c = c[unfolded Inr]
      show ?thesis
      proof (cases "commit e thr F depth en w1")
        case None
        with built False c show ?thesis by (simp add: build_entry_def)
      next
        case (Some t)
        obtain q2 en2 w2 where t: "t = (q2, en2, w2)" by (cases t)
        with built False c Some have "en2 = en' \<and> w2 = w'" by (cases q2) (simp_all add: build_entry_def)
        with that(3)[OF False c] Some t show ?thesis by simp
      qed
    qed
  next
    case True
    with built have "en' = en \<and> w' = w" by (simp add: build_entry_def)
    with that(1)[OF True] show ?thesis by blast
  qed
qed

lemma try_entry_stays:
  assumes "try_entry e thr F depth compile_to give_path en dc s w = Some (q, en', dc', s', w')"
    and "tidy compile_to" "own_entry roots en" "roots_apart roots" "r \<in> set roots"
  shows "stays (mark r name) w w' \<and> own_entry roots en'"
  using assms(1)
proof (cases rule: try_entry_give_cases)
  case 1
  with assms(3) show ?thesis by (simp add: staying.refl)
next
  case (2 x)
  with own_entry_apart[OF assms(3-5), of name] assms(2,3) show ?thesis by (auto simp: tidy_def)
next
  case (3 u w1 q2)
  with own_entry_apart[OF assms(3-5), of name] assms(2) have "stays (mark r name) w w1" by (auto simp: tidy_def)
  with commit_stays[OF 3(3) own_entry_apart[OF assms(3-5)]] commit_own[OF 3(3) assms(3)] show ?thesis
    by (blast intro: staying.trans)
qed

lemma compile_impl_stays:
  assumes "tidy compile_to" and "roots_apart (paths dc)" and "r \<in> set (paths dc)"
  shows "compile_impl e thr F depth uuid compile_to give_path tag key first_root dc s w = Some (q, dc', s', w') \<Longrightarrow>
    stays (mark r name) w w'"
  using assms
proof (induction "length (paths dc) - first_root" arbitrary: first_root dc s w rule: less_induct)
  case less
  note ent = entry_stays[where m = "mark r name"]
  have att: "stays (mark r name) w1 w2 \<and> own_entry (paths dc) en2"
    if "entry e thr F (uuid first_root) dc tag key first_root w = Some (Inr en, dc1, w1)"
      "try_entry e thr F depth compile_to give_path en dc1 s w1 = Some (t, en2, dc2, s2, w2)" for en dc1 w1 t en2 dc2 s2 w2
    using try_entry_stays[OF that(2) less.prems(2) _ less.prems(3,4)] ent[OF that(1)] by blast
  have gone: "stays (mark r name) w2 w3"
    if "destroy e thr F depth en2 w2 = Some w3" "own_entry (paths dc) en2" for en2 w2 w3
    using destroy_stays[OF that(1)] own_entry_apart[OF that(2) less.prems(3,4), of name] by blast
  have own: "own_entry (paths dc) (en2\<lparr>abandoned := b\<rparr>) = own_entry (paths dc) en2" for en2 b
    by (simp add: own_entry_def)
  from less.prems(1) show ?case
  proof (cases rule: compile_impl_cases)
    case (no_entry x)
    with ent show ?thesis by blast
  next
    case (finished en dc1 w1 v en2 dc2 w2)
    with ent[OF finished(1)] att[OF finished(1,2)] gone[OF finished(3)] show ?thesis by (blast intro: staying.trans)
  next
    case (stopped en dc1 w1 x en2 dc2 w2 y)
    with ent[OF stopped(1)] att[OF stopped(1,2)] gone[OF stopped(4)] show ?thesis by (blast intro: staying.trans)
  next
    case (last en dc1 w1 x en2 dc2 w2)
    with ent[OF last(1)] att[OF last(1,2)] gone[OF last(5)] own show ?thesis by (blast intro: staying.trans)
  next
    case (again en dc1 w1 x en2 dc2 s2 w2 w3)
    note range = entry_root_range[OF again(1)]
    let ?dc = "report_to en x (keep_paths dc1 dc2)"
    have "length (paths ?dc) - Suc (root_index en) < length (paths dc) - first_root" using range by auto
    note rest = less.hyps[OF this again(6)[folded compile_impl_def]]
    with less.prems(2-4) range have "stays (mark r name) w3 w'" by simp
    with ent[OF again(1)] att[OF again(1,2)] gone[OF again(5)] own show ?thesis by (blast intro: staying.trans)
  qed
qed

text \<open>The pipelines of both backends are tidy when the tools they run remove no files.\<close>

definition removes_nothing :: "shell \<Rightarrow> bool" where
  "removes_nothing sh \<longleftrightarrow> (\<forall>cmd w m. stays m w (snd (sh cmd w)))"

lemma obeys_run_command: "removes_nothing sh \<Longrightarrow> obeys (stays m) (run_command sh cmd)"
  by (auto simp: obeys_def run_command_def removes_nothing_def) (metis snd_conv)

lemma obeys_io:
  assumes "only P p" and "\<And>c. P c \<Longrightarrow> keeps (\<lambda>fs. lookup fs m \<noteq> None) c"
  shows "obeys (stays m) (on_iothread e F p)"
  using io_stays[OF _ assms] by (auto simp: obeys_def on_iothread_def)

lemma keeps_valid_output: "only keeps_names (valid_output p x)"
  by (auto simp: valid_output_def is_regular_file_def intro!: only_bind split: reply.split option.split node.split)

lemma cuda_compile_tidy:
  assumes "removes_nothing sh"
  shows "tidy (cuda_compile sh F c env cfg opts source)"
proof -
  note names = obeys_io[OF _ keeps_names_lookup]
  have "obeys (stays m) (cuda_compile sh F c env cfg opts source dir)" for m dir
    unfolding cuda_compile_def finish_cuda_build_def
    by (intro staying.obeys_rules obeys_run_command[OF assms] names only_bind only_write_file_sync keeps_valid_output
        | auto intro!: staying.obeys_rules obeys_run_command[OF assms] keeps_valid_output only_write_file_sync split: option.split)+
  then show ?thesis by (auto simp: tidy_def dest: obeysD)
qed

lemma ascend_compile_tidy:
  assumes "removes_nothing sh"
  shows "tidy (ascend_compile sh F depth c env cfg opts source)"
proof -
  have "obeys (stays m) (ascend_compile sh F depth c env cfg opts source dir)" if out: "\<not> prefix dir m" for m dir
  proof -
    let ?P = "\<lambda>c. keeps_names c \<or> removes_below (dir @ [''kernel.rel.o'']) c"
    have prep: "obeys (stays m) (on_iothread e F (prepare_task dir source asm))" for e asm
      by (rule obeys_io[OF _ keeps_names_lookup])
        (auto simp: prepare_task_def intro!: only_bind only_write_file_sync only_make_dirs)
    have gone: "only ?P (safe_remove_all depth (dir @ [''kernel.rel.o'']))"
      by (rule only_mono[OF only_safe_remove_all[of "dir @ [''kernel.rel.o'']" depth "[]", simplified]]) simp
    have names: "only ?P p" if "only keeps_names p" for p :: "unit prog"
      by (rule only_mono[OF that]) simp
    have fin: "obeys (stays m) (on_iothread e F (finish_ascend_build depth dir b d))" for e b d
    proof (rule obeys_io)
      show "only ?P (finish_ascend_build depth dir b d)"
        unfolding finish_ascend_build_def
        using gone names[OF keeps_valid_output] names[OF only_write_file_sync] by (intro only_bind)
      show "keeps (\<lambda>fs. lookup fs m \<noteq> None) c" if "?P c" for c
        using that keeps_names_lookup removal_stays out append_prefixD by metis
    qed
    show ?thesis unfolding ascend_compile_def by (intro staying.obeys_rules obeys_run_command[OF assms] prep fin)
  qed
  then show ?thesis by (auto simp: tidy_def dest: obeysD)
qed

section \<open>The dry run\<close>

text \<open>
  A queued job is what the lambda of \<^verbatim>\<open>compile\<close> captures: name, source, key and options. The
  jobs stand in the order of the results of the pool. In a step the caller asks for a
  kernel, a worker takes or counts a job or leaves, the pool is told to stop, a worker runs a
  job, or other processes change the world but leave published entries alone.
\<close>

type_synonym 'o warm_job = "string \<times> string \<times> string \<times> 'o"

type_synonym ('o, 'l, 'b, 'k, 's) warm_state = "('o, 'l, 'b, 'k) runtime \<times> 'o warm_job list \<times> 's \<times> world"

inductive warm_step ::
  "('o, 'l, 'b, 's, 'k, 'a, 'c) backend \<Rightarrow> ('o, 'l, 'b, 'k, 's) warm_state \<Rightarrow> ('o, 'l, 'b, 'k, 's) warm_state \<Rightarrow> bool" for B where
  Ask: "rt_precompiler rt = Some p \<Longrightarrow>
    cache_key B os rt source (merge_options B (rt_default_options rt) ov) s = Some (Inr key, ps, s1) \<Longrightarrow>
    rt_compile B os oom name source ov rt s w = Some (r, rt', s', w') \<Longrightarrow> rt_precompiler rt' = Some p' \<Longrightarrow>
    js' = (if length (results p') = length (results p) then js
           else js @ [(name, source, key, merge_options B (rt_default_options rt) ov)]) \<Longrightarrow>
    warm_step B (rt, js, s, w) (rt', js', s', w')"
| Pool: "rt_precompiler rt = Some p \<Longrightarrow> pre_step p p' \<Longrightarrow> results p' = results p \<Longrightarrow>
    warm_step B (rt, js, s, w) (rt\<lparr>rt_precompiler := Some p'\<rparr>, js, s, w)"
| Run: "rt_precompiler rt = Some p \<Longrightarrow> k < length (workers p) \<Longrightarrow> workers p ! k = Running_job j \<Longrightarrow>
    j < length js \<Longrightarrow> js ! j = (name, source, key, opts) \<Longrightarrow>
    compile_with_key B os name source key opts rt s w = Some (r, rt', s', w') \<Longrightarrow>
    warm_step B (rt, js, s, w) (rt'\<lparr>rt_precompiler := Some (job_returns k j (bind_result r (\<lambda>_. Inr ())) p)\<rparr>, js, s', w')"
| Others: "(\<And>r name. r \<in> set (paths (rt_disk_cache rt)) \<Longrightarrow> stays (mark r name) w w') \<Longrightarrow>
    warm_step B (rt, js, s, w) (rt, js, s', w')"

definition published :: "fpath list \<Rightarrow> 'o warm_job \<Rightarrow> world \<Rightarrow> bool" where
  "published roots job w = (case job of (name, source, key, opts) \<Rightarrow>
     \<exists>r \<in> set roots. lookup (tree w) (mark r (entry_name name key)) \<noteq> None)"

definition request_name :: "'o warm_job \<Rightarrow> string" where
  "request_name job = (case job of (name, source, key, opts) \<Rightarrow> name @ ''.'' @ key)"

text \<open>The invariant: the jobs are those of the pool, and a job that succeeded has its entry.\<close>

definition warm_inv :: "fpath list \<Rightarrow> ('o, 'l, 'b, 'k, 's) warm_state \<Rightarrow> bool" where
  "warm_inv roots st = (case st of (rt, js, s, w) \<Rightarrow>
     paths (rt_disk_cache rt) = roots \<and>
     (\<exists>p. rt_precompiler rt = Some p \<and> submitted p = request_name ` set js \<and> length (results p) = length js \<and>
        (\<forall>j < length js. results p ! j = Some (Inr ()) \<longrightarrow> published roots (js ! j) w)))"

lemma published_stays:
  assumes "published roots job w" and "\<And>r name. r \<in> set roots \<Longrightarrow> stays (mark r name) w w'"
  shows "published roots job w'"
  using assms unfolding published_def stays_def by (cases job) blast

lemma pool_submitted:
  assumes "pre_step p p'" "results p' = results p"
  shows "submitted p' = submitted p"
  using assms
proof (cases rule: pre_step.cases)
  case (Enqueue oom key)
  with assms(2) show ?thesis by (auto simp: enqueue_def Let_def split: if_splits)
next
  case Worker
  then show ?thesis by (cases rule: worker_step.cases) (simp_all add: take_job_def job_returns_def count_job_def worker_exit_def)
qed (simp add: request_stop_def)

text \<open>A request in a dry run.\<close>

lemma rt_compile_queued:
  assumes "rt_compile B os oom name source ov rt s w = Some (r, rt', s', w')" "rt_precompiler rt = Some p"
    and "cache_key B os rt source (merge_options B (rt_default_options rt) ov) s = Some (Inr key, ps, s1)"
  shows "rt_disk_cache rt' = rt_disk_cache rt \<and> w' = w \<and> rt_precompiler rt' = Some (snd (enqueue oom (name @ ''.'' @ key) p))"
  using assms by (auto simp: rt_compile_def Let_def split: prod.splits)

lemma enqueue_cases:
  obtains "results (snd (enqueue oom key p)) = results p" "submitted (snd (enqueue oom key p)) = submitted p"
  | "results (snd (enqueue oom key p)) = results p @ [None]" "submitted (snd (enqueue oom key p)) = insert key (submitted p)"
  by (cases "stopping p \<or> key \<in> submitted p"; cases oom) (auto simp: enqueue_def Let_def)

text \<open>A job that was run: its entry is there, and the entries of the others still are.\<close>

lemma compile_with_key_publishes:
  assumes "compile_with_key B os name source key opts rt s w = Some (r, rt', s', w')"
    and "\<forall>b env cfg ov src. tidy (compile_source B b env cfg ov src)" and "roots_apart (paths (rt_disk_cache rt))"
  shows "paths (rt_disk_cache rt') = paths (rt_disk_cache rt)"
    and "\<And>q n. q \<in> set (paths (rt_disk_cache rt)) \<Longrightarrow> stays (mark q n) w w'"
    and "\<And>p. r = Inr p \<Longrightarrow> published (paths (rt_disk_cache rt)) (name, source, key, opts) w'"
proof -
  let ?roots = "paths (rt_disk_cache rt)"
  let ?comp = "compile_source B (rt_backend rt) (rt_env rt) (rt_config rt) opts source"
  from assms(1) obtain dc where run: "compile_impl (environ (rt_env rt)) False (os_faults os) (os_depth os) (os_uuid os)
      ?comp give_path name key 0 (rt_disk_cache rt) s w = Some (r, dc, s', w')"
    by (auto simp: compile_with_key_def run_compile_def)
  show "paths (rt_disk_cache rt') = ?roots"
    using compile_with_key_changes[OF assms(1)] by (auto simp: same_roots_def)
  show "stays (mark q n) w w'" if "q \<in> set ?roots" for q n
    using compile_impl_stays[OF assms(2)[rule_format] assms(3) that run] .
  show "published ?roots (name, source, key, opts) w'" if "r = Inr p" for p
    using path_attempt.loop_hands_out[OF run[unfolded compile_impl_def that]] nth_mem
    by (fastforce simp: published_def mark_def)
qed

lemma warm_step_inv:
  assumes "warm_step B st st'" and "warm_inv roots st"
    and "\<forall>b env cfg ov src. tidy (compile_source B b env cfg ov src)" and "roots_apart roots"
  shows "warm_inv roots st'"
  using assms(1)
proof cases
  case (Ask rt p os source ov s key ps s1 oom name w r rt' s' w' p' js' js)
  note queued = rt_compile_queued[OF Ask(5,3,4)]
  with Ask(6) have p': "p' = snd (enqueue oom (name @ ''.'' @ key) p)" by simp
  show ?thesis
    by (rule enqueue_cases[of oom "name @ ''.'' @ key" p])
      (use assms(2) Ask(1,2,3,6,7) queued p' in \<open>auto simp: warm_inv_def nth_append request_name_def less_Suc_eq\<close>)
next
  case (Pool rt p p' js s w)
  with assms(2) pool_submitted[OF Pool(4,5)] show ?thesis by (auto simp: warm_inv_def)
next
  case (Run rt p k j js name source key opts os s w r rt' s' w')
  from assms(2) Run(1,3) have roots: "paths (rt_disk_cache rt) = roots" and old: "length (results p) = length js"
      "submitted p = request_name ` set js"
      "\<And>i. i < length js \<Longrightarrow> results p ! i = Some (Inr ()) \<Longrightarrow> published roots (js ! i) w"
    by (auto simp: warm_inv_def)
  note new = compile_with_key_publishes[OF Run(8) assms(3), unfolded roots, OF assms(4)]
  have "published roots (js ! i) w'"
    if "i < length js" "(results p)[j := Some (bind_result r (\<lambda>_. Inr ()))] ! i = Some (Inr ())" for i
  proof (cases "i = j")
    case True
    with that Run(6) old(1) obtain v where "r = Inr v" by (cases r) auto
    with new(3) Run(7) True show ?thesis by simp
  next
    case False
    with that old(3) have "published roots (js ! i) w" by simp
    then show ?thesis using new(2) by (rule published_stays)
  qed
  with Run(2) new(1) old show ?thesis by (simp add: warm_inv_def job_returns_def)
next
  case (Others rt w w' js s s')
  with assms(2) have "published roots (js ! j) w'" if "published roots (js ! j) w" for j
    using published_stays[OF that] by (simp add: warm_inv_def)
  with assms(2) Others(1,2) show ?thesis by (simp add: warm_inv_def) blast
qed

lemma warm_steps_inv:
  assumes "(warm_step B)\<^sup>*\<^sup>* st st'" and "warm_inv roots st"
    and "\<forall>b env cfg ov src. tidy (compile_source B b env cfg ov src)" and "roots_apart roots"
  shows "warm_inv roots st'"
  using assms(1,2) by (induction rule: rtranclp_induct) (auto intro: warm_step_inv[OF _ _ assms(3,4)])

lemma get_results_all: "get_results rs = Some (Inr ()) \<Longrightarrow> j < length rs \<Longrightarrow> rs ! j = Some (Inr ())"
  by (induction rs arbitrary: j rule: get_results.induct) (auto simp: nth_Cons split: nat.splits)

section \<open>A dry run of one kernel\<close>

text \<open>Without faults a kernel that is published is found, and nothing is compiled.\<close>

lemma published_found:
  assumes "disable_cache_fallback e = Inr False" and "io_timeout e = Inr ms" and "check_tag tag = Inr ()"
    and "i < length (paths dc)" and "num_timeouts dc ! i < 3" and "marker_at (tree w) (paths dc) (entry_name tag key) i"
  shows "\<exists>p dc' w'. compile_impl e False no_faults depth uuid compile_to give_path tag key 0 dc s w = Some (Inr p, dc', s, w')"
proof -
  let ?is = "[0..<length (paths dc)]"
  obtain found w1 where lk: "lookup_roots e False no_faults (paths dc) (entry_name tag key) ?is [] (num_timeouts dc) w =
      Some (Inr (found, []), num_timeouts dc, w1)"
    using lookup_roots_no_faults[OF assms(1,2)] by blast
  have "lookup_result (tree w) (paths dc) (entry_name tag key) ?is (num_timeouts dc) (found, [])"
    using lookup_roots_spec[OF lk] by simp
  moreover have "i \<in> set ?is" "\<not> 3 \<le> num_timeouts dc ! i" using assms(4,5) by auto
  ultimately have "found \<noteq> None" using assms(6) by (cases found) (auto simp: lookup_result_def)
  then obtain j where "found = Some j" by blast
  with lk assms(3) have "entry e False no_faults (uuid 0) dc tag key 0 w =
      Some (Inr (new_entry True (entry_dir (paths dc ! j) (entry_name tag key)) [] False j), dc, w1)"
    by (simp add: entry_def)
  then show ?thesis
    by (simp add: compile_impl_unfold try_entry_def build_entry_def new_entry_def give_path_def leave_scope_def
        destroy_hit keep_paths_same)
qed

definition toy_digest :: string where
  "toy_digest = get_hex_digest (update (update fnv_new []) (get_hex_digest (update fnv_new [])))"

definition toy_dry :: "precompiler \<Rightarrow> (unit, unit, unit, nat) runtime" where
  "toy_dry p = toy_runtime Map.empty (Some p)"

lemma toy_dry_simps:
  "rt_precompiler (toy_dry p) = Some p" "(toy_dry p)\<lparr>rt_precompiler := Some q\<rparr> = toy_dry q"
  "paths (rt_disk_cache (toy_dry p)) = [[''a''], [''b'']]"
  "(toy_dry p)\<lparr>rt_parser_state := new_pstate, rt_precompiler := Some q\<rparr> = toy_dry q"
  by (simp_all add: toy_dry_def toy_runtime_def two_roots_def)

definition warm_world :: world where
  "warm_world = \<lparr>tree = [([''b'', ''cache'', entry_name ''kernel'' toy_digest, ''.committed''], File 0 [])], tick = 0\<rparr>"

definition warm_end :: precompiler where
  "warm_end = \<lparr>submitted = {''kernel.'' @ toy_digest}, results = [Some (Inr ())], jobs = [],
     workers = [Exited_thread], stopping = True, num_completed = 1\<rparr>"

lemmas warm_simps = take_job_def count_job_def worker_exit_def request_stop_def job_returns_def

lemma toy_dry_run:
  "\<exists>rt' w'. (warm_step toy_backend)\<^sup>*\<^sup>* (toy_dry one_worker, [], (), warm_world) (rt', [(''kernel'', [], toy_digest, ())], (), w') \<and>
     rt_precompiler rt' = Some warm_end"
proof -
  let ?js = "[(''kernel'', [], toy_digest, ())]" and ?W = "warm_step toy_backend"
  define p1 where "p1 = one_worker\<lparr>submitted := {''kernel.'' @ toy_digest}, results := [None], jobs := [0]\<rparr>"
  have q: "snd (enqueue False (''kernel'' @ ''.'' @ toy_digest) one_worker) = p1"
    and q1: "fst (enqueue False (''kernel'' @ ''.'' @ toy_digest) one_worker) = Inr ()"
    by (simp_all add: enqueue_def one_worker_def p1_def)
  have lengths: "length (results p1) = 1" "length (results one_worker) = 0" by (simp_all add: p1_def one_worker_def)
  have key: "cache_key toy_backend toy_os (toy_dry one_worker) [] opts () = Some (Inr toy_digest, new_pstate, ())" for opts
    unfolding toy_dry_def toy_digest_def by (rule toy_key)
  have "rt_compile toy_backend toy_os False ''kernel'' [] () (toy_dry one_worker) () warm_world =
      Some (Inr None, toy_dry p1, (), warm_world)"
    using q q1 key by (simp add: rt_compile_def toy_dry_simps case_prod_unfold)
  from warm_step.Ask[OF _ key this, of one_worker p1 ?js "[]"]
  have 1: "?W (toy_dry one_worker, [], (), warm_world) (toy_dry p1, ?js, (), warm_world)"
    using lengths by (simp add: toy_dry_simps)
  define p2 where "p2 = take_job 0 p1"
  have "pre_step p1 p2" unfolding p2_def by (intro pre_step.Worker worker_step.Take) (auto simp: p1_def one_worker_def)
  from warm_step.Pool[OF _ this, of "toy_dry p1"] have 2: "?W (toy_dry p1, ?js, (), warm_world) (toy_dry p2, ?js, (), warm_world)"
    by (simp add: toy_dry_simps p2_def warm_simps)
  have "\<exists>p dc w'. compile_with_key toy_backend toy_os ''kernel'' [] toy_digest () (toy_dry p2) () warm_world =
      Some (Inr p, (toy_dry p2)\<lparr>rt_disk_cache := dc\<rparr>, (), w')"
    using published_found[OF slow_env_ok, of "''kernel''" 1 two_roots warm_world toy_digest]
    by (fastforce simp: compile_with_key_def run_compile_def toy_dry_def toy_runtime_def toy_os_def two_roots_def warm_world_def
        marker_at_def entry_dir_def lookup_def check_tag_def is_tag_char_def dj_host_assert_def kCommitFileName_def)
  then obtain p dc w' where run: "compile_with_key toy_backend toy_os ''kernel'' [] toy_digest () (toy_dry p2) () warm_world =
      Some (Inr p, (toy_dry p2)\<lparr>rt_disk_cache := dc\<rparr>, (), w')" by blast
  define rt where "rt q = (toy_dry q)\<lparr>rt_disk_cache := dc\<rparr>" for q
  have rt: "rt_precompiler (rt q) = Some q" "(rt q)\<lparr>rt_precompiler := Some q'\<rparr> = rt q'"
    "(toy_dry q)\<lparr>rt_disk_cache := dc, rt_precompiler := Some q'\<rparr> = rt q'" for q q'
    by (simp_all add: rt_def toy_dry_def toy_runtime_def)
  define p3 where "p3 = job_returns 0 0 (Inr ()) p2"
  from warm_step.Run[OF _ _ _ _ _ run, of p2 0 0 ?js] have 3: "?W (toy_dry p2, ?js, (), warm_world) (rt p3, ?js, (), w')"
    by (simp add: toy_dry_simps p2_def p3_def p1_def one_worker_def warm_simps rt)
  have pool: "?W (rt q, ?js, (), w') (rt q', ?js, (), w')" if "pre_step q q'" "results q' = results q" for q q'
    using warm_step.Pool[OF _ that, of "rt q"] by (simp add: rt)
  have 4: "?W (rt p3, ?js, (), w') (rt (count_job 0 p3), ?js, (), w')"
    by (intro pool pre_step.Worker worker_step.Count) (simp_all add: p3_def p2_def p1_def one_worker_def warm_simps)
  have 5: "?W (rt (count_job 0 p3), ?js, (), w') (rt (request_stop (count_job 0 p3)), ?js, (), w')"
    by (intro pool pre_step.Stop) (simp add: warm_simps)
  have e: "worker_exit 0 (request_stop (count_job 0 p3)) = warm_end"
    by (simp add: warm_end_def p3_def p2_def p1_def one_worker_def warm_simps)
  have 6: "?W (rt (request_stop (count_job 0 p3)), ?js, (), w') (rt warm_end, ?js, (), w')"
    unfolding e[symmetric]
    by (intro pool pre_step.Worker worker_step.Leave) (simp_all add: p3_def p2_def p1_def one_worker_def warm_simps)
  from 1 2 3 4 5 6 have "?W\<^sup>*\<^sup>* (toy_dry one_worker, [], (), warm_world) (rt warm_end, ?js, (), w')" by simp
  with rt(1) show ?thesis by blast
qed

section \<open>Properties\<close>



end
