(* ===== verification/Spec2Isabelle.thy ===== *)
theory Spec2Isabelle
  imports
    Prelude Alignment Call_Log Hash_FNV Env_Vars Str_Join Json Paths
    Config Override Include_Parser Publication Command Lazy_Values Precompiler
    Runtime Build_Tasks Cuda_Device Cuda_Options Cuda_Kernel Cuda_Backend
    Ascend_Options Ascend_Elf Aicpu_Abi Aicpu_Device Aicpu_Bootstrap Ascend_Kernel
    Aicpu_Helper Aicpu_Protocol Ascend_Backend Backtrace Driver_Libs Scopes
    Runtime_States Warmup
begin

text \<open>
  \<^bold>\<open>A model of DeepJIT\<close>

  DeepJIT (\<^verbatim>\<open>src/include/deep_jit\<close>, a header-only C++ library) compiles kernel sources for
  NVIDIA and Ascend devices at run time, keeps the results in a cache on disk that many
  processes share, loads them and launches them. This development translates its code and
  proves what makes each part, and the parts together, correct.

  \<^bold>\<open>The parts and how they interact\<close>

  A \<^verbatim>\<open>Runtime<Backend>\<close> is the object that a library of kernels holds. A call of
  \<^verbatim>\<open>compile\<close> merges options, hashes the options, a hook and the source with all tracked
  includes into a cache key, and looks the key up: first in memory, then in the roots of the
  disk cache in their order. On a miss the backend compiles into a private temporary directory
  by running the compiler as an external command; the directory is published by one rename
  with a commit marker in it. A root that fails or hangs is left for the next one: every
  access to a file system runs on a worker thread with a timeout. The published directory is
  loaded into the driver and the kernel is launched with packed arguments. On Ascend an AICPU
  kernel is loaded by a small loader on the device, which the host builds through the same
  cache, deploys, and talks to in packets. In a dry run the compilations are only queued for a
  pool of workers.

  \<^bold>\<open>The theories\<close>

  Shared by all:
  \<^item> Prelude: the exceptions as values, results as sums (\<open>Inl\<close> an exception, \<open>Inr\<close> a value),
    arrays of slots, decimal texts, and the collections \<open>result_simps\<close>, \<open>word_inj\<close>,
    \<open>dec_simps\<close>. Alignment: rounding by bit masks. Call\_Log: oracles whose replies depend on
    the calls made before.
  \<^item> Os\_Model: the file tree, the system calls as the nodes of a program, and runs of a program
    under a schedule of faults (\<open>exec\<close>) or call by call (\<open>sys_result\<close>). Prog\_Logic: invariants
    of the tree that every call of a program keeps. State\_Order: what a computation does to its
    state, step by step (the locale \<open>state_order\<close>).

  Utilities (\<^verbatim>\<open>utils/\<close>):
  \<^item> Hash\_FNV (\<^verbatim>\<open>hash.hpp\<close>): the framed two-state hash; the byte stream of a chain of updates is
    unambiguous, and one changed byte changes the digest.
  \<^item> Env\_Vars (\<^verbatim>\<open>env.hpp\<close>), Str\_Join (\<^verbatim>\<open>str.hpp\<close>), Json (\<^verbatim>\<open>json.hpp\<close>, with a reader as the
    inverse of the dumper), Paths (the part of \<^verbatim>\<open>std::filesystem::path\<close> in use).
  \<^item> Include\_Parser (\<^verbatim>\<open>parser.hpp\<close>): the scanner with its cache and visiting set refines the plain
    recursion over includes, and reports a circle exactly when that recursion does not end.
  \<^item> Filesystem (\<^verbatim>\<open>filesystem.hpp\<close>): every helper as a program over system calls.
  \<^item> Executor (\<^verbatim>\<open>executor.hpp\<close>): the worker thread as a step relation with callers, contexts,
    promises and timeouts, and \<^verbatim>\<open>run_in_iothread\<close> on top.
  \<^item> Command (\<^verbatim>\<open>command.hpp\<close>): the external command with its pipe, deadline and clean-up.
  \<^item> Lazy\_Values (\<^verbatim>\<open>lazy.hpp\<close> and \<^verbatim>\<open>cache/memory.hpp\<close>): values that are made on first use.
    Driver\_Libs: the tables of driver functions that are resolved on first use.
  \<^item> Backtrace (\<^verbatim>\<open>exception.hpp\<close>, \<^verbatim>\<open>uuid.hpp\<close>): libdw, the text of an exception and of an identifier.
  \<^item> Scopes (\<^verbatim>\<open>gil.hpp\<close>, \<^verbatim>\<open>cuda/stable_torch_utils.h\<close>): objects that hold something for the rest of a
    scope, as the locale \<open>scope_guard\<close>.

  Cache and runtime (\<^verbatim>\<open>cache/\<close>, \<^verbatim>\<open>runtime/\<close>):
  \<^item> Disk\_Cache (\<^verbatim>\<open>cache/disk.hpp\<close>): lookup, fallback over the roots, private directories, commit,
    clean-up. Publication: any number of processes that publish and look up at the same time,
    with faults and stops at every call; who sees a marker sees a complete entry, for ever.
  \<^item> Config (\<^verbatim>\<open>config.hpp\<close>), Override (the contract of \<^verbatim>\<open>override_with\<close>, a locale that the four
    option types interpret), Precompiler (\<^verbatim>\<open>precompiler.hpp\<close>): queue, workers and shutdown.
  \<^item> Runtime (\<^verbatim>\<open>runtime.hpp\<close>): the cache key, the loop over the roots, the in-memory cache and the
    dry run, over a record of the backend's operations. The locale \<open>root_attempt\<close> says what the
    loop needs of an attempt, \<open>keyed_options\<close> what the key needs of the options.
  \<^item> Runtime\_States: the life of a runtime as the step relation \<open>rt_step\<close> and its invariant
    \<open>runtime_ok\<close>. The locales \<open>tame_load\<close> and \<open>tame_backend\<close> say what it needs of a backend; both
    backends interpret them.
  \<^item> Warmup: a dry run as a whole, with the step relation \<open>warm_step\<close> (requests, workers that run the
    queued compilations, other processes on the same cache) and its invariant \<open>warm_inv\<close>. A
    compilation is one step of it; the interleaving of its system calls is the matter of
    Publication.

  The CUDA backend (\<^verbatim>\<open>backend/cuda/\<close>): Cuda\_Device, Cuda\_Options, Cuda\_Kernel (load, launch,
  unload with the driver calls as part of the result) and Cuda\_Backend (discovery, the NVCC
  pipeline, validation, the instance of the runtime). Build\_Tasks: what both pipelines share.

  The Ascend backend (\<^verbatim>\<open>backend/ascend/\<close>): Ascend\_Options (with the device properties), Ascend\_Elf
  (the reader of the kernel names, every read partial), Ascend\_Kernel (load, packing, launch,
  unload), Ascend\_Backend (pipeline, bootstrap on first use, the instance of the runtime).
  The AICPU loader: Aicpu\_Abi (the packets), Aicpu\_Device (the loader on the device),
  Aicpu\_Bootstrap (the host side), Aicpu\_Protocol (both sides together) and Aicpu\_Helper (the
  script that deploys the loader, on a file tree with links).

  \<^bold>\<open>Conventions\<close>

  A computation that changes a state is a function from the state to an option of a result and
  a new state (\<open>stateful\<close>); \<open>None\<close> is a computation that never returns, or an access outside an
  array, and that it does not happen is a theorem each time. Exceptions, panics and early
  returns are branches. 64-bit and 32-bit integers of the code are words wherever they can wrap.
  Messages of exceptions are kept where the code looks at them and abridged elsewhere. Names are
  those of the source; a prefix \<open>npu\<close> marks the Ascend variant of a name both backends have.

  \<^bold>\<open>Parameters\<close>

  What is not in the repository is an argument: the CUDA driver and runtime, ACL and the device
  (responders to the calls made so far), the shell, the operating system (a schedule of faults,
  or replies), the demangler and libdw, the random words of an identifier, the hook that reads a
  file. Where a property needs more of them it says so, as in \<open>real_handles\<close> (a resource that is
  granted has a non-null handle) and \<open>delivers\<close> (the driver runs the launched packet on the
  device), and a witness gives a concrete function that satisfies it.

  \<^bold>\<open>Bounds and fuel\<close>

  \<^item> \<open>os_depth\<close> bounds the nesting of directories in the two helpers that walk a tree
    (\<open>safe_remove_all\<close>, \<open>fsync_dir\<close>). Reaching the bound counts as a call that hangs, the worst
    that the file system can do in any case; builds are one or two levels deep.
  \<^item> \<open>os_fuel\<close> bounds the nesting of includes. One more than the number of files that can be opened
    is enough, because the visiting set stops every circle (\<open>parse_into_hash_correct\<close>).
  \<^item> Loops that recurse on data carry no fuel: \<open>root_loop\<close> ends by the number of roots left (a
    measure), the loop of a command by its list of replies, with \<open>command_deadline\<close> that a
    deadline ends it; the workers of the precompiler by the measure \<open>work_left\<close>.
  \<^item> \<open>max_links\<close> bounds the links that a path may go through, as the kernel of the system does.
  \<^item> A backtrace has at most sixteen frames, as in the code.

  \<^bold>\<open>The groups of properties\<close>

  Publication and the runtime: an entry that is seen is complete and stable, a path that is
  handed out is a published entry, lookups and compilations end although file systems hang, a
  kernel is returned from memory from then on, a runtime stays well formed over its life, a dry
  run that ends without an error has published every kernel it was asked for. Keys:
  the key of either backend is the digest of the framed chain of its parts, the scanner computes
  the digest of everything a source includes. Resources: no load, launch, command or bootstrap
  leaks or frees twice, whatever call fails. Concurrency: results reach the caller they belong to
  and timed-out workers are never used again; each queued job runs once and the pool drains.
  Exactness: a launch makes exactly the driver calls that its options describe, arguments are
  packed inside their buffer with the layout of the device, and an AICPU launch runs the loaded
  entry with exactly the packed parameters. Deployment: the script that copies the toolkit with
  links writes to nothing but its copy, and leaves a complete one. Formats: JSON, packets and ELF names.

  \<^bold>\<open>Not modelled\<close>

  \<^item> \<^verbatim>\<open>python_api.hpp\<close>, \<^verbatim>\<open>csrc/python_api.cpp\<close>: bindings, the registration of classes and functions
    with pybind11.
  \<^item> The join of the bootstrap and its helper script: the bootstrap passes the script on as a
    text and takes the exit status of the child as a reply, because the file trees of the two
    models differ (links there, permissions and durability here).
  \<^item> Printing (commands, load times, progress) and the timing behind it; the text of the compiler's
    diagnostics beyond the checks that the code makes on it; links in the file tree, but for the
    helper script.
\<close>

end
